theory Spec2Isabelle
  imports Main "HOL-Library.Word" "HOL-Library.Signed_Division"
begin

section \<open>Frame resources and fence synchronisation of CrateApp and ShapesApp\<close>

text \<open>
  The development embeds the per-frame core of the two Direct3D 12 applications of the
  repository: \<^verbatim>\<open>CrateApp\<close> (Week5-1-CrateApp.cpp) and \<^verbatim>\<open>ShapesApp\<close>
  (Week4-1-BoxUsingFrameResources.cpp). Both keep a ring of
  \<^verbatim>\<open>gNumFrameResources\<close> frame resources, a CPU-side fence counter and a dirty
  countdown per render item.

  What lies outside the two files is handled as follows.
  \<^item> The GPU, the \<^verbatim>\<open>ID3D12Fence\<close> and the command queue are the external device. The
    model keeps the fence's completed value and the FIFO of \<^verbatim>\<open>Signal\<close> commands that the
    queue has not executed yet; the device executes them in order.
  \<^item> \<^verbatim>\<open>HRESULT\<close>s of device calls are inputs of a frame (\<open>True\<close> is success);
    \<^verbatim>\<open>ThrowIfFailed\<close> turns a failure into the error \<open>DxException\<close>.
  \<^item> \<^verbatim>\<open>float\<close> is a type parameter \<open>'f\<close>: the code of the core only moves matrix entries
    around. The pass constants, computed with float arithmetic from the camera and the
    timer, are a value of a type parameter \<open>'p\<close> handed to the frame.
  \<^item> Geometry, textures, shaders and pipeline state objects are left out.
\<close>

subsection \<open>Constants, matrices and errors\<close>

text \<open>\<^verbatim>\<open>const int gNumFrameResources = 3;\<close>\<close>

definition gNumFrameResources :: int where
  "gNumFrameResources = 3"

text \<open>\<^verbatim>\<open>XMFLOAT4X4\<close>: sixteen floats, row by row.\<close>

datatype 'f XMFLOAT4X4 =
  XMFLOAT4X4 'f 'f 'f 'f  'f 'f 'f 'f  'f 'f 'f 'f  'f 'f 'f 'f

text \<open>\<^verbatim>\<open>XMMatrixTranspose\<close> of DirectXMath: entry (i, j) goes to (j, i).\<close>

fun XMMatrixTranspose :: "'f XMFLOAT4X4 \<Rightarrow> 'f XMFLOAT4X4" where
  "XMMatrixTranspose (XMFLOAT4X4 a11 a12 a13 a14  a21 a22 a23 a24  a31 a32 a33 a34  a41 a42 a43 a44) =
     XMFLOAT4X4 a11 a21 a31 a41  a12 a22 a32 a42  a13 a23 a33 a43  a14 a24 a34 a44"

text \<open>
  The ways a frame can fail to complete: a failed device call (\<^verbatim>\<open>ThrowIfFailed\<close>), the
  indefinite wait that the device never ends, an element index outside an upload
  buffer or a vector, a null pointer, and a remainder by zero.
\<close>

datatype error = DxException | WaitsForever | IndexOutOfRange | NullPointer | DivideByZero

definition ThrowIfFailed :: "bool \<Rightarrow> 'a \<Rightarrow> error + 'a" where
  "ThrowIfFailed hr s = (if hr then Inr s else Inl DxException)"

definition andThen :: "error + 'a \<Rightarrow> ('a \<Rightarrow> error + 'b) \<Rightarrow> error + 'b" where
  "andThen r f = (case r of Inl e \<Rightarrow> Inl e | Inr s \<Rightarrow> f s)"

subsection \<open>Render items, materials, upload buffers, frame resources\<close>

text \<open>
  \<^verbatim>\<open>struct RenderItem\<close> of CrateApp. \<open>Mat\<close> is the pointer to a material, kept as the
  material's key in \<open>mMaterials\<close>; \<open>ObjCBIndex\<close> is a \<^verbatim>\<open>UINT\<close> whose default \<open>-1\<close> is
  \<open>4294967295\<close>; \<open>NumFramesDirty\<close> is an \<^verbatim>\<open>int\<close> (it is only decremented when positive, so
  it never wraps).
\<close>

record 'f RenderItem =
  World :: "'f XMFLOAT4X4"
  TexTransform :: "'f XMFLOAT4X4"
  NumFramesDirty :: int
  ObjCBIndex :: nat
  Mat :: string

text \<open>
  \<^verbatim>\<open>RenderItem() = default\<close> with the default member initialisers; the identity matrix of
  \<^verbatim>\<open>MathHelper::Identity4x4()\<close> is the parameter \<open>I\<close>. The null \<open>Mat\<close> is the empty key.
\<close>

definition RenderItem_default :: "'f XMFLOAT4X4 \<Rightarrow> 'f RenderItem" where
  "RenderItem_default I =
     \<lparr>World = I, TexTransform = I, NumFramesDirty = gNumFrameResources,
      ObjCBIndex = 4294967295, Mat = []\<rparr>"

text \<open>\<^verbatim>\<open>struct ObjectConstants\<close> of CrateApp's FrameResource.h: the two matrices.\<close>

datatype 'f ObjectConstants = ObjectConstants (oc_World: "'f XMFLOAT4X4") (oc_TexTransform: "'f XMFLOAT4X4")

text \<open>
  \<^verbatim>\<open>struct Material\<close> (d3dUtil.h): the fields the frame core reads. The colour fields
  (\<^verbatim>\<open>DiffuseAlbedo\<close>, \<^verbatim>\<open>FresnelR0\<close>, \<^verbatim>\<open>Roughness\<close>) are copied unchanged into the material
  constants and are gathered in the opaque \<open>Shading\<close>.
\<close>

record ('f, 'c) Material =
  MatCBIndex :: nat
  DiffuseSrvHeapIndex :: nat
  MatNumFramesDirty :: int
  Shading :: 'c
  MatTransform :: "'f XMFLOAT4X4"

datatype ('f, 'c) MaterialConstants = MaterialConstants 'c "'f XMFLOAT4X4"

text \<open>
  Modelled from the spec: \<^verbatim>\<open>UploadBuffer<T>\<close> (Common/UploadBuffer.h is not among the
  sources). A buffer of a capacity fixed at construction; an element index outside the
  capacity is a precondition violation that fails loudly. \<open>None\<close> is an element never
  written.
\<close>

type_synonym 'a UploadBuffer = "'a option list"

definition UploadBuffer_new :: "nat \<Rightarrow> 'a UploadBuffer" where
  "UploadBuffer_new elementCount = replicate elementCount None"

definition CopyData :: "nat \<Rightarrow> 'a \<Rightarrow> 'a UploadBuffer \<Rightarrow> error + 'a UploadBuffer" where
  "CopyData elementIndex data buf =
     (if elementIndex < length buf then Inr (buf[elementIndex := Some data])
      else Inl IndexOutOfRange)"

text \<open>
  Modelled from the spec: \<^verbatim>\<open>struct FrameResource\<close> (FrameResource.h is not among the
  sources): a command allocator, a per-pass, a per-material and a per-object constant
  buffer, and the completion marker \<open>Fence\<close>, a \<^verbatim>\<open>UINT64\<close> that is 0 while the slot was
  never submitted. \<open>CmdListAllocResets\<close> counts the resets of the allocator.
\<close>

record ('f, 'c, 'p) FrameResource =
  CmdListAllocResets :: nat
  PassCB :: "'p UploadBuffer"
  MaterialCB :: "('f, 'c) MaterialConstants UploadBuffer"
  ObjectCB :: "'f ObjectConstants UploadBuffer"
  Fence :: "64 word"

definition FrameResource_new :: "nat \<Rightarrow> nat \<Rightarrow> nat \<Rightarrow> ('f, 'c, 'p) FrameResource" where
  "FrameResource_new passCount objectCount materialCount =
     \<lparr>CmdListAllocResets = 0, PassCB = UploadBuffer_new passCount,
      MaterialCB = UploadBuffer_new materialCount,
      ObjectCB = UploadBuffer_new objectCount, Fence = 0\<rparr>"

subsection \<open>The trace of a run\<close>

text \<open>
  The model records what the CPU does, in order. An access of the CPU to a slot (a write
  to one of its constant buffers, a reset of its command allocator) is recorded with the
  slot's stored marker and the fence's completed value at that moment.
  \<open>EvSetDescriptorTable\<close> is the binding of a descriptor table of ShapesApp: the root
  parameter and the index of the descriptor in the heap.
\<close>

datatype access = ObjectCBWrite nat | MaterialCBWrite nat | PassCBWrite nat | AllocatorReset

datatype event =
    EvRotate nat
  | EvBlocked "64 word"
  | EvCpuTouch nat access "64 word" "64 word"
  | EvBindPassCB nat
  | EvDrawItem nat nat nat
  | EvSetDescriptorTable nat int
  | EvSubmit
  | EvPresent
  | EvStamp nat "64 word"

subsection \<open>The application state\<close>

text \<open>
  The members of \<^verbatim>\<open>CrateApp\<close> and of its base class \<^verbatim>\<open>D3DApp\<close> that the frame core uses,
  the device's fence and queue, and the trace. \<open>mCurrFrameResource\<close> is a pointer into
  \<open>mFrameResources\<close>, kept as a position (\<open>None\<close> is \<^verbatim>\<open>nullptr\<close>); \<open>mOpaqueRitems\<close> holds
  pointers to elements of \<open>mAllRitems\<close>, kept as positions. \<open>mMaterials\<close> is an
  \<^verbatim>\<open>unordered_map\<close>; the list gives the order in which it is iterated.
  \<open>SwapChainBufferCount\<close> (d3dApp.h), \<open>objCBByteSize\<close> and \<open>matCBByteSize\<close>
  (\<^verbatim>\<open>d3dUtil::CalcConstantBufferByteSize\<close>) come from declarations that are not among the
  sources and are parameters.
\<close>

record ('f, 'c, 'p) CrateApp =
  mCurrentFence :: "64 word"
  mCurrBackBuffer :: int
  SwapChainBufferCount :: int
  objCBByteSize :: nat
  matCBByteSize :: nat
  fenceCompleted :: "64 word"
  queuedSignals :: "64 word list"
  mFrameResources :: "('f, 'c, 'p) FrameResource list"
  mCurrFrameResource :: "nat option"
  mCurrFrameResourceIndex :: int
  mMaterials :: "(string \<times> ('f, 'c) Material) list"
  mAllRitems :: "'f RenderItem list"
  mOpaqueRitems :: "nat list"
  trace :: "event list"

text \<open>What a frame takes from outside: the pass constants and the device's answers.\<close>

record 'p FrameInput =
  passConstants :: 'p
  hrSetEventOnCompletion :: bool
  hrAllocReset :: bool
  hrCommandListReset :: bool
  hrClose :: bool
  hrPresent :: bool

subsection \<open>The device: fence and command queue\<close>

text \<open>
  \<^verbatim>\<open>mCommandQueue->Signal(mFence.Get(), v)\<close> appends a signal to the queue. The device
  executes the queue in order; executing a signal sets the fence's completed value.
\<close>

definition Signal :: "64 word \<Rightarrow> ('f, 'c, 'p) CrateApp \<Rightarrow> ('f, 'c, 'p) CrateApp" where
  "Signal v s = s\<lparr>queuedSignals := queuedSignals s @ [v]\<rparr>"

definition GpuExecute :: "('f, 'c, 'p) CrateApp \<Rightarrow> ('f, 'c, 'p) CrateApp" where
  "GpuExecute s =
     (case queuedSignals s of
        [] \<Rightarrow> s
      | v # q \<Rightarrow> s\<lparr>fenceCompleted := v, queuedSignals := q\<rparr>)"

text \<open>
  \<^verbatim>\<open>SetEventOnCompletion(f, eventHandle); WaitForSingleObject(eventHandle, INFINITE)\<close>: the
  thread sleeps until the fence's completed value has reached \<open>f\<close>, while the device works
  through its queue. \<open>None\<close>: the queue runs empty before the fence reaches \<open>f\<close>, and the
  thread sleeps forever. The arguments are the fence's completed value and the queue;
  the result is what they are when the thread wakes up.
\<close>

fun WaitForSingleObject :: "64 word \<Rightarrow> 64 word \<Rightarrow> 64 word list \<Rightarrow> (64 word \<times> 64 word list) option" where
  "WaitForSingleObject f c [] = (if f \<le> c then Some (c, []) else None)"
| "WaitForSingleObject f c (v # q) = (if f \<le> c then Some (c, v # q) else WaitForSingleObject f v q)"

subsection \<open>\<^verbatim>\<open>CrateApp::Update\<close>\<close>

text \<open>Dereferencing \<open>mCurrFrameResource\<close>: the slot's position and the slot.\<close>

definition currFrameResource ::
  "('f, 'c, 'p) CrateApp \<Rightarrow> error + (nat \<times> ('f, 'c, 'p) FrameResource)" where
  "currFrameResource s =
     (case mCurrFrameResource s of
        None \<Rightarrow> Inl NullPointer
      | Some i \<Rightarrow>
          if i < length (mFrameResources s) then Inr (i, mFrameResources s ! i)
          else Inl IndexOutOfRange)"

text \<open>\<^verbatim>\<open>OnKeyboardInput\<close> has an empty body in CrateApp.\<close>

definition OnKeyboardInput :: "('f, 'c, 'p) CrateApp \<Rightarrow> ('f, 'c, 'p) CrateApp" where
  "OnKeyboardInput s = s"

text \<open>
  \<^verbatim>\<open>UpdateCamera\<close> writes \<open>mEyePos\<close> and \<open>mView\<close> with float trigonometry. These members
  reach the frame resources only through the pass constants, which are an input of the
  frame; no member of the modelled state changes.
\<close>

definition UpdateCamera :: "('f, 'c, 'p) CrateApp \<Rightarrow> ('f, 'c, 'p) CrateApp" where
  "UpdateCamera s = s"

text \<open>
  Lines 263-264:
  \<^verbatim>\<open>mCurrFrameResourceIndex = (mCurrFrameResourceIndex + 1) % gNumFrameResources;\<close>
  \<^verbatim>\<open>mCurrFrameResource = mFrameResources[mCurrFrameResourceIndex].get();\<close>
  \<open>smod\<close> is the remainder of C++, which truncates. Indexing the vector outside its
  size is the error \<open>IndexOutOfRange\<close>.
\<close>

definition Update_rotate :: "('f, 'c, 'p) CrateApp \<Rightarrow> error + ('f, 'c, 'p) CrateApp" where
  "Update_rotate s =
     (let i = (mCurrFrameResourceIndex s + 1) smod gNumFrameResources in
      if 0 \<le> i \<and> nat i < length (mFrameResources s)
      then Inr (s\<lparr>mCurrFrameResourceIndex := i, mCurrFrameResource := Some (nat i),
                   trace := trace s @ [EvRotate (nat i)]\<rparr>)
      else Inl IndexOutOfRange)"

text \<open>
  Lines 268-274:
  \<^verbatim>\<open>if(mCurrFrameResource->Fence != 0 && mFence->GetCompletedValue() < mCurrFrameResource->Fence)\<close>
  \<^verbatim>\<open>{ ... ThrowIfFailed(mFence->SetEventOnCompletion(mCurrFrameResource->Fence, eventHandle));\<close>
  \<^verbatim>\<open>  WaitForSingleObject(eventHandle, INFINITE); ... }\<close>
\<close>

definition Update_wait :: "bool \<Rightarrow> ('f, 'c, 'p) CrateApp \<Rightarrow> error + ('f, 'c, 'p) CrateApp" where
  "Update_wait hr s =
     (case currFrameResource s of
        Inl e \<Rightarrow> Inl e
      | Inr (i, fr) \<Rightarrow>
          if Fence fr \<noteq> 0 \<and> fenceCompleted s < Fence fr then
            (if hr then
               (case WaitForSingleObject (Fence fr) (fenceCompleted s) (queuedSignals s) of
                  None \<Rightarrow> Inl WaitsForever
                | Some (c, q) \<Rightarrow>
                    Inr (s\<lparr>fenceCompleted := c, queuedSignals := q,
                           trace := trace s @ [EvBlocked (Fence fr)]\<rparr>))
             else Inl DxException)
          else Inr s)"

text \<open>\<^verbatim>\<open>AnimateMaterials\<close> has an empty body.\<close>

definition AnimateMaterials :: "('f, 'c, 'p) CrateApp \<Rightarrow> ('f, 'c, 'p) CrateApp" where
  "AnimateMaterials s = s"

text \<open>
  The loop of \<^verbatim>\<open>UpdateObjectCBs\<close> over \<open>mAllRitems\<close>, threading the current slot's object
  buffer and the trace; \<open>ev\<close> builds the trace entry of a write.
\<close>

fun UpdateObjectCBs_loop ::
  "(access \<Rightarrow> event) \<Rightarrow> 'f RenderItem list \<Rightarrow> 'f ObjectConstants UploadBuffer \<Rightarrow> event list \<Rightarrow>
   error + ('f RenderItem list \<times> 'f ObjectConstants UploadBuffer \<times> event list)" where
  "UpdateObjectCBs_loop ev [] cb tr = Inr ([], cb, tr)"
| "UpdateObjectCBs_loop ev (e # es) cb tr =
     (if NumFramesDirty e > 0 then
        (case CopyData (ObjCBIndex e)
                (ObjectConstants (XMMatrixTranspose (World e)) (XMMatrixTranspose (TexTransform e))) cb of
           Inl err \<Rightarrow> Inl err
         | Inr cb' \<Rightarrow>
             (case UpdateObjectCBs_loop ev es cb' (tr @ [ev (ObjectCBWrite (ObjCBIndex e))]) of
                Inl err \<Rightarrow> Inl err
              | Inr (es', cb'', tr') \<Rightarrow>
                  Inr (e\<lparr>NumFramesDirty := NumFramesDirty e - 1\<rparr> # es', cb'', tr')))
      else
        (case UpdateObjectCBs_loop ev es cb tr of
           Inl err \<Rightarrow> Inl err
         | Inr (es', cb'', tr') \<Rightarrow> Inr (e # es', cb'', tr')))"

definition UpdateObjectCBs :: "('f, 'c, 'p) CrateApp \<Rightarrow> error + ('f, 'c, 'p) CrateApp" where
  "UpdateObjectCBs s =
     (case currFrameResource s of
        Inl e \<Rightarrow> Inl e
      | Inr (i, fr) \<Rightarrow>
          (case UpdateObjectCBs_loop (\<lambda>a. EvCpuTouch i a (Fence fr) (fenceCompleted s))
                  (mAllRitems s) (ObjectCB fr) (trace s) of
             Inl e \<Rightarrow> Inl e
           | Inr (es, cb, tr) \<Rightarrow>
               Inr (s\<lparr>mAllRitems := es,
                      mFrameResources := (mFrameResources s)[i := fr\<lparr>ObjectCB := cb\<rparr>],
                      trace := tr\<rparr>)))"

text \<open>The loop of \<^verbatim>\<open>UpdateMaterialCBs\<close> over \<open>mMaterials\<close>, in the same way.\<close>

fun UpdateMaterialCBs_loop ::
  "(access \<Rightarrow> event) \<Rightarrow> (string \<times> ('f, 'c) Material) list \<Rightarrow>
   ('f, 'c) MaterialConstants UploadBuffer \<Rightarrow> event list \<Rightarrow>
   error + ((string \<times> ('f, 'c) Material) list \<times> ('f, 'c) MaterialConstants UploadBuffer \<times> event list)" where
  "UpdateMaterialCBs_loop ev [] cb tr = Inr ([], cb, tr)"
| "UpdateMaterialCBs_loop ev ((k, mat) # ms) cb tr =
     (if MatNumFramesDirty mat > 0 then
        (case CopyData (MatCBIndex mat)
                (MaterialConstants (Shading mat) (XMMatrixTranspose (MatTransform mat))) cb of
           Inl err \<Rightarrow> Inl err
         | Inr cb' \<Rightarrow>
             (case UpdateMaterialCBs_loop ev ms cb' (tr @ [ev (MaterialCBWrite (MatCBIndex mat))]) of
                Inl err \<Rightarrow> Inl err
              | Inr (ms', cb'', tr') \<Rightarrow>
                  Inr ((k, mat\<lparr>MatNumFramesDirty := MatNumFramesDirty mat - 1\<rparr>) # ms', cb'', tr')))
      else
        (case UpdateMaterialCBs_loop ev ms cb tr of
           Inl err \<Rightarrow> Inl err
         | Inr (ms', cb'', tr') \<Rightarrow> Inr ((k, mat) # ms', cb'', tr')))"

definition UpdateMaterialCBs :: "('f, 'c, 'p) CrateApp \<Rightarrow> error + ('f, 'c, 'p) CrateApp" where
  "UpdateMaterialCBs s =
     (case currFrameResource s of
        Inl e \<Rightarrow> Inl e
      | Inr (i, fr) \<Rightarrow>
          (case UpdateMaterialCBs_loop (\<lambda>a. EvCpuTouch i a (Fence fr) (fenceCompleted s))
                  (mMaterials s) (MaterialCB fr) (trace s) of
             Inl e \<Rightarrow> Inl e
           | Inr (ms, cb, tr) \<Rightarrow>
               Inr (s\<lparr>mMaterials := ms,
                      mFrameResources := (mFrameResources s)[i := fr\<lparr>MaterialCB := cb\<rparr>],
                      trace := tr\<rparr>)))"

text \<open>
  \<^verbatim>\<open>UpdateMainPassCB\<close>: the members of \<open>mMainPassCB\<close> are recomputed (\<open>pc\<close> is the
  result) and \<^verbatim>\<open>currPassCB->CopyData(0, mMainPassCB)\<close> stores them in the current slot.
\<close>

definition UpdateMainPassCB :: "'p \<Rightarrow> ('f, 'c, 'p) CrateApp \<Rightarrow> error + ('f, 'c, 'p) CrateApp" where
  "UpdateMainPassCB pc s =
     (case currFrameResource s of
        Inl e \<Rightarrow> Inl e
      | Inr (i, fr) \<Rightarrow>
          (case CopyData 0 pc (PassCB fr) of
             Inl e \<Rightarrow> Inl e
           | Inr cb \<Rightarrow>
               Inr (s\<lparr>mFrameResources := (mFrameResources s)[i := fr\<lparr>PassCB := cb\<rparr>],
                      trace := trace s @ [EvCpuTouch i (PassCBWrite 0) (Fence fr) (fenceCompleted s)]\<rparr>)))"

text \<open>\<^verbatim>\<open>CrateApp::Update\<close>, statement by statement.\<close>

definition Update :: "'p FrameInput \<Rightarrow> ('f, 'c, 'p) CrateApp \<Rightarrow> error + ('f, 'c, 'p) CrateApp" where
  "Update inp s =
     andThen (Update_rotate (UpdateCamera (OnKeyboardInput s))) (\<lambda>s1.
     andThen (Update_wait (hrSetEventOnCompletion inp) s1) (\<lambda>s2.
     andThen (UpdateObjectCBs (AnimateMaterials s2)) (\<lambda>s3.
     andThen (UpdateMaterialCBs s3) (\<lambda>s4.
     UpdateMainPassCB (passConstants inp) s4))))"

subsection \<open>\<^verbatim>\<open>CrateApp::Draw\<close>\<close>

text \<open>
  The loop of \<^verbatim>\<open>DrawRenderItems\<close> over \<open>ritems\<close>. For each item it computes
  \<^verbatim>\<open>objCBAddress = objectCB->GetGPUVirtualAddress() + ri->ObjCBIndex*objCBByteSize\<close> and
  \<^verbatim>\<open>matCBAddress = matCB->GetGPUVirtualAddress() + ri->Mat->MatCBIndex*matCBByteSize\<close>,
  binds both and issues the draw call. The products are \<^verbatim>\<open>UINT\<close> products. The trace
  entry holds the slot whose buffers are bound and the two byte offsets.
\<close>

fun DrawRenderItems_loop ::
  "nat \<Rightarrow> nat \<Rightarrow> nat \<Rightarrow> 'f RenderItem list \<Rightarrow> (string \<times> ('f, 'c) Material) list \<Rightarrow>
   nat list \<Rightarrow> event list \<Rightarrow> error + event list" where
  "DrawRenderItems_loop i ob mb all mats [] tr = Inr tr"
| "DrawRenderItems_loop i ob mb all mats (r # rs) tr =
     (if r < length all then
        (case map_of mats (Mat (all ! r)) of
           None \<Rightarrow> Inl NullPointer
         | Some mat \<Rightarrow>
             DrawRenderItems_loop i ob mb all mats rs
               (tr @ [EvDrawItem i ((ObjCBIndex (all ! r) * ob) mod 2 ^ 32)
                                   ((MatCBIndex mat * mb) mod 2 ^ 32)]))
      else Inl NullPointer)"

definition DrawRenderItems :: "nat list \<Rightarrow> ('f, 'c, 'p) CrateApp \<Rightarrow> error + ('f, 'c, 'p) CrateApp" where
  "DrawRenderItems ritems s =
     (case currFrameResource s of
        Inl e \<Rightarrow> Inl e
      | Inr (i, fr) \<Rightarrow>
          (case DrawRenderItems_loop i (objCBByteSize s) (matCBByteSize s) (mAllRitems s)
                  (mMaterials s) ritems (trace s) of
             Inl e \<Rightarrow> Inl e
           | Inr tr \<Rightarrow> Inr (s\<lparr>trace := tr\<rparr>)))"

text \<open>
  Lines 284-316: \<^verbatim>\<open>ThrowIfFailed(cmdListAlloc->Reset())\<close>,
  \<^verbatim>\<open>ThrowIfFailed(mCommandList->Reset(...))\<close>, the pass constant buffer of the current slot
  is bound, and the opaque render items are drawn. Viewport, barriers, clears and
  descriptor heaps are left out.
\<close>

definition Draw_record :: "'p FrameInput \<Rightarrow> ('f, 'c, 'p) CrateApp \<Rightarrow> error + ('f, 'c, 'p) CrateApp" where
  "Draw_record inp s =
     (case currFrameResource s of
        Inl e \<Rightarrow> Inl e
      | Inr (i, fr) \<Rightarrow>
          andThen (ThrowIfFailed (hrAllocReset inp)
                     (s\<lparr>mFrameResources :=
                          (mFrameResources s)[i := fr\<lparr>CmdListAllocResets := CmdListAllocResets fr + 1\<rparr>],
                        trace := trace s @ [EvCpuTouch i AllocatorReset (Fence fr) (fenceCompleted s)]\<rparr>)) (\<lambda>s1.
          andThen (ThrowIfFailed (hrCommandListReset inp) s1) (\<lambda>s2.
          DrawRenderItems (mOpaqueRitems s2) (s2\<lparr>trace := trace s2 @ [EvBindPassCB i]\<rparr>))))"

text \<open>
  Lines 323-331: \<^verbatim>\<open>ThrowIfFailed(mCommandList->Close())\<close>,
  \<^verbatim>\<open>mCommandQueue->ExecuteCommandLists(...)\<close>, \<^verbatim>\<open>ThrowIfFailed(mSwapChain->Present(0, 0))\<close>,
  \<^verbatim>\<open>mCurrBackBuffer = (mCurrBackBuffer + 1) % SwapChainBufferCount\<close>.
\<close>

definition Draw_submit_present :: "'p FrameInput \<Rightarrow> ('f, 'c, 'p) CrateApp \<Rightarrow> error + ('f, 'c, 'p) CrateApp" where
  "Draw_submit_present inp s =
     andThen (ThrowIfFailed (hrClose inp) s) (\<lambda>s1.
     andThen (ThrowIfFailed (hrPresent inp) (s1\<lparr>trace := trace s1 @ [EvSubmit]\<rparr>)) (\<lambda>s2.
     if SwapChainBufferCount s2 = 0 then Inl DivideByZero
     else Inr (s2\<lparr>mCurrBackBuffer := (mCurrBackBuffer s2 + 1) smod SwapChainBufferCount s2,
                  trace := trace s2 @ [EvPresent]\<rparr>)))"

text \<open>
  Lines 334-339: \<^verbatim>\<open>mCurrFrameResource->Fence = ++mCurrentFence;\<close>
  \<^verbatim>\<open>mCommandQueue->Signal(mFence.Get(), mCurrentFence);\<close>
  The counter is a \<^verbatim>\<open>UINT64\<close>: the increment wraps.
\<close>

definition Draw_stamp :: "('f, 'c, 'p) CrateApp \<Rightarrow> error + ('f, 'c, 'p) CrateApp" where
  "Draw_stamp s =
     (case currFrameResource s of
        Inl e \<Rightarrow> Inl e
      | Inr (i, fr) \<Rightarrow>
          (let m = mCurrentFence s + 1 in
           Inr (Signal m
                  (s\<lparr>mCurrentFence := m,
                     mFrameResources := (mFrameResources s)[i := fr\<lparr>Fence := m\<rparr>],
                     trace := trace s @ [EvStamp i m]\<rparr>))))"

definition Draw :: "'p FrameInput \<Rightarrow> ('f, 'c, 'p) CrateApp \<Rightarrow> error + ('f, 'c, 'p) CrateApp" where
  "Draw inp s =
     andThen (Draw_record inp s) (\<lambda>s1.
     andThen (Draw_submit_present inp s1) Draw_stamp)"

subsection \<open>Frames and runs\<close>

text \<open>
  Modelled from the spec: the message loop \<^verbatim>\<open>D3DApp::Run\<close> (Common/d3dApp.cpp is not among
  the sources) produces a frame by calling \<^verbatim>\<open>Update\<close> and then \<^verbatim>\<open>Draw\<close>; a failure ends
  the program.
\<close>

definition Frame :: "'p FrameInput \<Rightarrow> ('f, 'c, 'p) CrateApp \<Rightarrow> error + ('f, 'c, 'p) CrateApp" where
  "Frame inp s = andThen (Update inp s) (Draw inp)"

text \<open>
  A run interleaves frames of the CPU with steps of the device, in any order: \<open>Gpu\<close> is
  the device executing the next queued signal, \<open>Cpu inp\<close> is a frame.
\<close>

datatype 'p action = Gpu | Cpu "'p FrameInput"

fun run :: "'p action list \<Rightarrow> ('f, 'c, 'p) CrateApp \<Rightarrow> error + ('f, 'c, 'p) CrateApp" where
  "run [] s = Inr s"
| "run (Gpu # as) s = run as (GpuExecute s)"
| "run (Cpu inp # as) s = (case Frame inp s of Inl e \<Rightarrow> Inl e | Inr s' \<Rightarrow> run as s')"

text \<open>The number of frames of a run.\<close>

fun frames :: "'p action list \<Rightarrow> nat" where
  "frames [] = 0"
| "frames (Gpu # as) = frames as"
| "frames (Cpu inp # as) = Suc (frames as)"

subsection \<open>Building the scene\<close>

text \<open>
  \<^verbatim>\<open>CrateApp::BuildMaterials\<close>. \<open>dflt\<close> is the default-constructed \<^verbatim>\<open>Material\<close> (its
  declaration is not among the sources); \<open>shade\<close> gives the colour fields assigned to
  the material of a name. The list is in the order of the insertions.
\<close>

definition BuildMaterials ::
  "('f, 'c) Material \<Rightarrow> (string \<Rightarrow> 'c) \<Rightarrow> ('f, 'c, 'p) CrateApp \<Rightarrow> ('f, 'c, 'p) CrateApp" where
  "BuildMaterials dflt shade s =
     s\<lparr>mMaterials :=
         [(''bricks'', dflt\<lparr>MatCBIndex := 1, DiffuseSrvHeapIndex := 1, Shading := shade ''bricks''\<rparr>),
          (''woodCrate'', dflt\<lparr>MatCBIndex := 0, DiffuseSrvHeapIndex := 0, Shading := shade ''woodCrate''\<rparr>),
          (''grass'', dflt\<lparr>MatCBIndex := 2, DiffuseSrvHeapIndex := 2, Shading := shade ''grass''\<rparr>),
          (''marble'', dflt\<lparr>MatCBIndex := 3, DiffuseSrvHeapIndex := 3, Shading := shade ''marble''\<rparr>),
          (''treeSprites'', dflt\<lparr>MatCBIndex := 4, DiffuseSrvHeapIndex := 4, Shading := shade ''treeSprites''\<rparr>)]\<rparr>"

text \<open>
  One block of \<^verbatim>\<open>BuildRenderItems\<close>: a default render item whose world matrix, texture
  transform, constant-buffer index and material are assigned. The matrices are float
  products (\<^verbatim>\<open>XMMatrixScaling(...) * XMMatrixTranslation(...)\<close>); \<open>W k\<close> and \<open>T k\<close> stand
  for the ones stored into the item of index \<open>k\<close>.
\<close>

definition ritem ::
  "'f XMFLOAT4X4 \<Rightarrow> (nat \<Rightarrow> 'f XMFLOAT4X4) \<Rightarrow> (nat \<Rightarrow> 'f XMFLOAT4X4) \<Rightarrow> nat \<Rightarrow> string \<Rightarrow> 'f RenderItem" where
  "ritem I W T k m = (RenderItem_default I)\<lparr>World := W k, TexTransform := T k, ObjCBIndex := k, Mat := m\<rparr>"

text \<open>
  \<^verbatim>\<open>CrateApp::BuildRenderItems\<close>: twenty-six items are pushed to \<open>mAllRitems\<close>; the loop
  at the end makes all of them opaque items; the tree sprites item (world matrix set to
  the identity, texture transform left at its default) is pushed after that loop.
\<close>

definition BuildRenderItems ::
  "'f XMFLOAT4X4 \<Rightarrow> (nat \<Rightarrow> 'f XMFLOAT4X4) \<Rightarrow> (nat \<Rightarrow> 'f XMFLOAT4X4) \<Rightarrow>
   ('f, 'c, 'p) CrateApp \<Rightarrow> ('f, 'c, 'p) CrateApp" where
  "BuildRenderItems I W T s =
     (let items =
        mAllRitems s @
        [ritem I W T 0 ''grass'', ritem I W T 1 ''woodCrate'', ritem I W T 2 ''woodCrate'',
         ritem I W T 3 ''woodCrate'', ritem I W T 4 ''woodCrate'', ritem I W T 5 ''woodCrate'',
         ritem I W T 6 ''marble'', ritem I W T 7 ''marble'', ritem I W T 8 ''marble'',
         ritem I W T 9 ''marble'', ritem I W T 10 ''marble'', ritem I W T 11 ''woodCrate'',
         ritem I W T 12 ''woodCrate'', ritem I W T 13 ''bricks'', ritem I W T 14 ''bricks'',
         ritem I W T 15 ''bricks'', ritem I W T 16 ''bricks'', ritem I W T 17 ''bricks'',
         ritem I W T 18 ''woodCrate'', ritem I W T 19 ''woodCrate'', ritem I W T 20 ''woodCrate'',
         ritem I W T 21 ''woodCrate'', ritem I W T 22 ''marble'', ritem I W T 23 ''marble'',
         ritem I W T 24 ''marble'', ritem I W T 25 ''marble''] in
      s\<lparr>mOpaqueRitems := mOpaqueRitems s @ [0 ..< length items],
        mAllRitems :=
          items @ [(RenderItem_default I)\<lparr>World := I, ObjCBIndex := 26, Mat := ''treeSprites''\<rparr>]\<rparr>)"

text \<open>
  \<^verbatim>\<open>CrateApp::BuildFrameResources\<close>: \<open>gNumFrameResources\<close> frame resources, each made
  with \<^verbatim>\<open>FrameResource(device, 1, (UINT)mAllRitems.size(), (UINT)mMaterials.size())\<close>.
\<close>

definition BuildFrameResources :: "('f, 'c, 'p) CrateApp \<Rightarrow> ('f, 'c, 'p) CrateApp" where
  "BuildFrameResources s =
     s\<lparr>mFrameResources :=
         mFrameResources s @
         replicate (nat gNumFrameResources)
           (FrameResource_new 1 (length (mAllRitems s) mod 2 ^ 32) (length (mMaterials s) mod 2 ^ 32))\<rparr>"

text \<open>
  Modelled from the spec: the members of \<^verbatim>\<open>D3DApp\<close> (Common/d3dApp.h is not among the
  sources) when \<^verbatim>\<open>CrateApp::Initialize\<close> starts to build the scene. The initialisation
  ends with \<^verbatim>\<open>FlushCommandQueue\<close>, a full drain: the completed value of the fence is the
  current fence \<open>c0\<close> and no signal is pending. Ring index 0, no current frame resource
  and empty containers are the default member initialisers of \<^verbatim>\<open>CrateApp\<close>.
\<close>

definition CrateApp_new :: "64 word \<Rightarrow> int \<Rightarrow> nat \<Rightarrow> nat \<Rightarrow> ('f, 'c, 'p) CrateApp" where
  "CrateApp_new c0 swapChainBufferCount ob mb =
     \<lparr>mCurrentFence = c0, mCurrBackBuffer = 0, SwapChainBufferCount = swapChainBufferCount,
      objCBByteSize = ob, matCBByteSize = mb, fenceCompleted = c0, queuedSignals = [],
      mFrameResources = [], mCurrFrameResource = None, mCurrFrameResourceIndex = 0,
      mMaterials = [], mAllRitems = [], mOpaqueRitems = [], trace = []\<rparr>"

text \<open>
  \<^verbatim>\<open>CrateApp::Initialize\<close>: \<^verbatim>\<open>BuildMaterials(); BuildRenderItems(); BuildFrameResources();\<close>
  in this order.
\<close>

definition Initialize ::
  "64 word \<Rightarrow> int \<Rightarrow> nat \<Rightarrow> nat \<Rightarrow> ('f, 'c) Material \<Rightarrow> (string \<Rightarrow> 'c) \<Rightarrow>
   'f XMFLOAT4X4 \<Rightarrow> (nat \<Rightarrow> 'f XMFLOAT4X4) \<Rightarrow> (nat \<Rightarrow> 'f XMFLOAT4X4) \<Rightarrow> ('f, 'c, 'p) CrateApp" where
  "Initialize c0 n ob mb dflt shade I W T =
     BuildFrameResources (BuildRenderItems I W T (BuildMaterials dflt shade (CrateApp_new c0 n ob mb)))"

subsection \<open>What a sweep and a frame compute\<close>

text \<open>
  Closed forms of the loops, used to state what they compute. An item is dirty when its
  countdown is positive; a sweep decrements the dirty items and writes their payloads.
\<close>

definition dirty :: "'f RenderItem \<Rightarrow> bool" where
  "dirty e = (0 < NumFramesDirty e)"

definition decr :: "'f RenderItem \<Rightarrow> 'f RenderItem" where
  "decr e = (if 0 < NumFramesDirty e then e\<lparr>NumFramesDirty := NumFramesDirty e - 1\<rparr> else e)"

definition payload :: "'f RenderItem \<Rightarrow> 'f ObjectConstants" where
  "payload e = ObjectConstants (XMMatrixTranspose (World e)) (XMMatrixTranspose (TexTransform e))"

definition obj_writes :: "'f RenderItem list \<Rightarrow> (nat \<times> 'f ObjectConstants) list" where
  "obj_writes es = map (\<lambda>e. (ObjCBIndex e, payload e)) (filter dirty es)"

definition apply_writes :: "(nat \<times> 'a) list \<Rightarrow> 'a UploadBuffer \<Rightarrow> 'a UploadBuffer" where
  "apply_writes ws buf = fold (\<lambda>(k, v) b. b[k := Some v]) ws buf"

definition mat_dirty :: "string \<times> ('f, 'c) Material \<Rightarrow> bool" where
  "mat_dirty km = (0 < MatNumFramesDirty (snd km))"

definition mdecr :: "('f, 'c) Material \<Rightarrow> ('f, 'c) Material" where
  "mdecr mat =
     (if 0 < MatNumFramesDirty mat then mat\<lparr>MatNumFramesDirty := MatNumFramesDirty mat - 1\<rparr>
      else mat)"

definition mat_decr :: "string \<times> ('f, 'c) Material \<Rightarrow> string \<times> ('f, 'c) Material" where
  "mat_decr km = (fst km, mdecr (snd km))"

definition mat_writes ::
  "(string \<times> ('f, 'c) Material) list \<Rightarrow> (nat \<times> ('f, 'c) MaterialConstants) list" where
  "mat_writes ms =
     map (\<lambda>km. (MatCBIndex (snd km),
                 MaterialConstants (Shading (snd km)) (XMMatrixTranspose (MatTransform (snd km)))))
       (filter mat_dirty ms)"

text \<open>
  The trace of one frame, following the seven steps of the frame pipeline driver: Rotate,
  Synchronize, Update, Record, Submit, Present, Stamp. \<open>s\<close> is the state before the frame
  and \<open>c\<close> the fence's completed value once the Synchronize step is over.
\<close>

definition frame_slot :: "('f, 'c, 'p) CrateApp \<Rightarrow> nat" where
  "frame_slot s = nat ((mCurrFrameResourceIndex s + 1) smod gNumFrameResources)"

definition frame_marker :: "('f, 'c, 'p) CrateApp \<Rightarrow> 64 word" where
  "frame_marker s = Fence (mFrameResources s ! frame_slot s)"

definition must_wait :: "('f, 'c, 'p) CrateApp \<Rightarrow> bool" where
  "must_wait s = (frame_marker s \<noteq> 0 \<and> fenceCompleted s < frame_marker s)"

definition Rotate_events :: "('f, 'c, 'p) CrateApp \<Rightarrow> event list" where
  "Rotate_events s = [EvRotate (frame_slot s)]"

definition Synchronize_events :: "('f, 'c, 'p) CrateApp \<Rightarrow> event list" where
  "Synchronize_events s = (if must_wait s then [EvBlocked (frame_marker s)] else [])"

definition Update_events :: "('f, 'c, 'p) CrateApp \<Rightarrow> 64 word \<Rightarrow> event list" where
  "Update_events s c =
     map (\<lambda>e. EvCpuTouch (frame_slot s) (ObjectCBWrite (ObjCBIndex e)) (frame_marker s) c)
       (filter dirty (mAllRitems s)) @
     map (\<lambda>km. EvCpuTouch (frame_slot s) (MaterialCBWrite (MatCBIndex (snd km))) (frame_marker s) c)
       (filter mat_dirty (mMaterials s)) @
     [EvCpuTouch (frame_slot s) (PassCBWrite 0) (frame_marker s) c]"

definition Record_events :: "('f, 'c, 'p) CrateApp \<Rightarrow> 64 word \<Rightarrow> event list" where
  "Record_events s c =
     [EvCpuTouch (frame_slot s) AllocatorReset (frame_marker s) c, EvBindPassCB (frame_slot s)] @
     map (\<lambda>r. EvDrawItem (frame_slot s)
                 ((ObjCBIndex (mAllRitems s ! r) * objCBByteSize s) mod 2 ^ 32)
                 ((MatCBIndex (the (map_of (mMaterials s) (Mat (mAllRitems s ! r)))) * matCBByteSize s)
                    mod 2 ^ 32))
       (mOpaqueRitems s)"

definition Stamp_events :: "('f, 'c, 'p) CrateApp \<Rightarrow> event list" where
  "Stamp_events s = [EvStamp (frame_slot s) (mCurrentFence s + 1)]"

definition frame_events :: "('f, 'c, 'p) CrateApp \<Rightarrow> 64 word \<Rightarrow> event list" where
  "frame_events s c =
     Rotate_events s @ Synchronize_events s @ Update_events s c @ Record_events s c @
     [EvSubmit] @ [EvPresent] @ Stamp_events s"

text \<open>
  The state in which a frame that completes leaves the application: \<open>c\<close> and \<open>q\<close> are
  the fence's completed value and the device's queue once the Synchronize step is over.
\<close>

definition frame_state ::
  "'p FrameInput \<Rightarrow> 64 word \<Rightarrow> 64 word list \<Rightarrow> ('f, 'c, 'p) CrateApp \<Rightarrow> ('f, 'c, 'p) CrateApp" where
  "frame_state inp c q s =
     s\<lparr>mCurrentFence := mCurrentFence s + 1,
       mCurrBackBuffer := (mCurrBackBuffer s + 1) smod SwapChainBufferCount s,
       fenceCompleted := c,
       queuedSignals := q @ [mCurrentFence s + 1],
       mFrameResources :=
         (mFrameResources s)[frame_slot s :=
           (mFrameResources s ! frame_slot s)
             \<lparr>ObjectCB := apply_writes (obj_writes (mAllRitems s))
                            (ObjectCB (mFrameResources s ! frame_slot s)),
              MaterialCB := apply_writes (mat_writes (mMaterials s))
                              (MaterialCB (mFrameResources s ! frame_slot s)),
              PassCB := (PassCB (mFrameResources s ! frame_slot s))[0 := Some (passConstants inp)],
              CmdListAllocResets := CmdListAllocResets (mFrameResources s ! frame_slot s) + 1,
              Fence := mCurrentFence s + 1\<rparr>],
       mCurrFrameResource := Some (frame_slot s),
       mCurrFrameResourceIndex := (mCurrFrameResourceIndex s + 1) smod gNumFrameResources,
       mMaterials := map mat_decr (mMaterials s),
       mAllRitems := map decr (mAllRitems s),
       trace := trace s @ frame_events s c\<rparr>"

text \<open>
  What a frame needs in order to complete, apart from the wait: the next slot exists, the
  indices written and bound are inside their buffers and vectors, the device calls
  succeed, and the swap chain has a buffer.
\<close>

definition frame_ok :: "'p FrameInput \<Rightarrow> ('f, 'c, 'p) CrateApp \<Rightarrow> bool" where
  "frame_ok inp s \<longleftrightarrow>
     0 \<le> (mCurrFrameResourceIndex s + 1) smod gNumFrameResources \<and>
     frame_slot s < length (mFrameResources s) \<and>
     (\<forall>e\<in>set (mAllRitems s). dirty e \<longrightarrow>
        ObjCBIndex e < length (ObjectCB (mFrameResources s ! frame_slot s))) \<and>
     (\<forall>km\<in>set (mMaterials s). mat_dirty km \<longrightarrow>
        MatCBIndex (snd km) < length (MaterialCB (mFrameResources s ! frame_slot s))) \<and>
     0 < length (PassCB (mFrameResources s ! frame_slot s)) \<and>
     (\<forall>r\<in>set (mOpaqueRitems s). r < length (mAllRitems s) \<and>
        map_of (mMaterials s) (Mat (mAllRitems s ! r)) \<noteq> None) \<and>
     hrAllocReset inp \<and> hrCommandListReset inp \<and> hrClose inp \<and> hrPresent inp \<and>
     SwapChainBufferCount s \<noteq> 0"

text \<open>
  The outcome of the Synchronize step: the fence's completed value and the queue with
  which the thread goes on, or \<open>None\<close> when it does not go on.
\<close>

definition sync_result :: "bool \<Rightarrow> ('f, 'c, 'p) CrateApp \<Rightarrow> (64 word \<times> 64 word list) option" where
  "sync_result hr s =
     (if must_wait s then
        (if hr then WaitForSingleObject (frame_marker s) (fenceCompleted s) (queuedSignals s)
         else None)
      else Some (fenceCompleted s, queuedSignals s))"

subsection \<open>Well-formed states\<close>

text \<open>All device calls of a frame succeed.\<close>

definition device_ok :: "'p FrameInput \<Rightarrow> bool" where
  "device_ok inp \<longleftrightarrow>
     hrSetEventOnCompletion inp \<and> hrAllocReset inp \<and> hrCommandListReset inp \<and>
     hrClose inp \<and> hrPresent inp"

fun devices_ok :: "'p action list \<Rightarrow> bool" where
  "devices_ok [] = True"
| "devices_ok (Gpu # as) = devices_ok as"
| "devices_ok (Cpu inp # as) = (device_ok inp \<and> devices_ok as)"

text \<open>
  The scene as \<^verbatim>\<open>Initialize\<close> leaves it: the ring has \<open>gNumFrameResources\<close> slots and the
  ring index is inside it; every slot's buffers have the capacities they were made
  with; the constant-buffer indices of the render items are distinct and inside the
  object buffers, those of the materials inside the material buffers; the opaque items
  exist and have a material.
\<close>

definition scene_ok :: "('f, 'c, 'p) CrateApp \<Rightarrow> bool" where
  "scene_ok s \<longleftrightarrow>
     length (mFrameResources s) = nat gNumFrameResources \<and>
     0 \<le> mCurrFrameResourceIndex s \<and> mCurrFrameResourceIndex s < gNumFrameResources \<and>
     (\<forall>fr\<in>set (mFrameResources s).
        length (ObjectCB fr) = length (mAllRitems s) \<and>
        length (MaterialCB fr) = length (mMaterials s) \<and>
        length (PassCB fr) = 1) \<and>
     distinct (map ObjCBIndex (mAllRitems s)) \<and>
     (\<forall>e\<in>set (mAllRitems s). ObjCBIndex e < length (mAllRitems s)) \<and>
     (\<forall>km\<in>set (mMaterials s). MatCBIndex (snd km) < length (mMaterials s)) \<and>
     (\<forall>r\<in>set (mOpaqueRitems s). r < length (mAllRitems s) \<and>
        map_of (mMaterials s) (Mat (mAllRitems s ! r)) \<noteq> None)"

text \<open>
  The fence as the frames leave it: the completed value and the queued signals increase
  strictly, the last of them is the current fence, and no slot's marker is beyond the
  current fence.
\<close>

definition fence_ok :: "('f, 'c, 'p) CrateApp \<Rightarrow> bool" where
  "fence_ok s \<longleftrightarrow>
     sorted_wrt (<) (fenceCompleted s # queuedSignals s) \<and>
     last (fenceCompleted s # queuedSignals s) = mCurrentFence s \<and>
     (\<forall>fr\<in>set (mFrameResources s). Fence fr \<le> mCurrentFence s)"

subsection \<open>A concrete instance\<close>

text \<open>
  An instance of the application at which statements are evaluated: integers stand for
  the floats, the colour fields and the pass constants carry no data, the swap chain has
  two buffers, a constant-buffer element takes 256 bytes, and the fence starts at 0.
\<close>

definition demo_I :: "int XMFLOAT4X4" where
  "demo_I = XMFLOAT4X4 1 0 0 0  0 1 0 0  0 0 1 0  0 0 0 1"

definition demo_W :: "nat \<Rightarrow> int XMFLOAT4X4" where
  "demo_W k = XMFLOAT4X4 1 0 0 0  0 1 0 0  0 0 1 0  (int k) 2 3 1"

definition demo_app :: "(int, unit, unit) CrateApp" where
  "demo_app = Initialize 0 2 256 256
     \<lparr>MatCBIndex = 0, DiffuseSrvHeapIndex = 0, MatNumFramesDirty = 3, Shading = (),
      MatTransform = demo_I\<rparr>
     (\<lambda>_. ()) demo_I demo_W (\<lambda>_. demo_I)"

definition demo_inp :: "unit FrameInput" where
  "demo_inp = \<lparr>passConstants = (), hrSetEventOnCompletion = True, hrAllocReset = True,
     hrCommandListReset = True, hrClose = True, hrPresent = True\<rparr>"

text \<open>
  The states after the first four frames of the instance when the device executes
  nothing in between: the fourth frame returns to slot 1, whose marker 1 is not reached,
  and waits until the device has executed the first signal.
\<close>

definition demo1 :: "(int, unit, unit) CrateApp" where
  "demo1 = frame_state demo_inp 0 [] demo_app"

definition demo2 :: "(int, unit, unit) CrateApp" where
  "demo2 = frame_state demo_inp 0 [1] demo1"

definition demo3 :: "(int, unit, unit) CrateApp" where
  "demo3 = frame_state demo_inp 0 [1, 2] demo2"

definition demo4 :: "(int, unit, unit) CrateApp" where
  "demo4 = frame_state demo_inp 1 [2, 3] demo3"

text \<open>The instance after three frames, when the fourth frame has rotated to slot 1.\<close>

definition demo_rotated :: "(int, unit, unit) CrateApp" where
  "demo_rotated = demo3\<lparr>mCurrFrameResourceIndex := 1, mCurrFrameResource := Some 1,
                         trace := trace demo3 @ [EvRotate 1]\<rparr>"

text \<open>
  The instance when the fence counter is two short of \<open>2 ^ 64\<close> at the time the scene is
  built, and its states after a frame, after the device has then executed the queued
  signal, and after a second frame.
\<close>

definition wrap_app :: "(int, unit, unit) CrateApp" where
  "wrap_app = Initialize (- 2) 2 256 256
     \<lparr>MatCBIndex = 0, DiffuseSrvHeapIndex = 0, MatNumFramesDirty = 3, Shading = (),
      MatTransform = demo_I\<rparr>
     (\<lambda>_. ()) demo_I demo_W (\<lambda>_. demo_I)"

definition wrap1 :: "(int, unit, unit) CrateApp" where
  "wrap1 = frame_state demo_inp (- 2) [] wrap_app"

definition wrap2 :: "(int, unit, unit) CrateApp" where
  "wrap2 = GpuExecute wrap1"

definition wrap3 :: "(int, unit, unit) CrateApp" where
  "wrap3 = frame_state demo_inp (- 1) [] wrap2"

subsection \<open>Reading a trace\<close>

text \<open>
  An access of the CPU to a slot is safe when, at its moment, the slot's marker was 0 or
  the fence's completed value had reached it.
\<close>

fun safe_event :: "event \<Rightarrow> bool" where
  "safe_event (EvCpuTouch i a m c) = (m = 0 \<or> m \<le> c)"
| "safe_event e = True"

text \<open>The markers that the Stamp steps of a trace issued, in order.\<close>

fun stamps :: "event list \<Rightarrow> 64 word list" where
  "stamps [] = []"
| "stamps (EvStamp i m # es) = m # stamps es"
| "stamps (e # es) = stamps es"

text \<open>
  A small state in the middle of \<^verbatim>\<open>Update\<close>: slot 1 is current, the first render item
  has two frames to go, the second one has none.
\<close>

definition tiny_app :: "(int, unit, unit) CrateApp" where
  "tiny_app =
     \<lparr>mCurrentFence = 0, mCurrBackBuffer = 0, SwapChainBufferCount = 2,
      objCBByteSize = 256, matCBByteSize = 256, fenceCompleted = 0, queuedSignals = [],
      mFrameResources = replicate 3 (FrameResource_new 1 2 1),
      mCurrFrameResource = Some 1, mCurrFrameResourceIndex = 1,
      mMaterials = [(''grass'', \<lparr>MatCBIndex = 0, DiffuseSrvHeapIndex = 0, MatNumFramesDirty = 0,
                                 Shading = (), MatTransform = demo_I\<rparr>)],
      mAllRitems = [(ritem demo_I demo_W (\<lambda>_. demo_I) 0 ''grass'')\<lparr>NumFramesDirty := 2\<rparr>,
                    (ritem demo_I demo_W (\<lambda>_. demo_I) 1 ''grass'')\<lparr>NumFramesDirty := 0\<rparr>],
      mOpaqueRitems = [0, 1], trace = []\<rparr>"

text \<open>The object writes of a trace that go to the constant-buffer index \<open>k\<close>.\<close>

fun is_obj_write :: "nat \<Rightarrow> event \<Rightarrow> bool" where
  "is_obj_write k (EvCpuTouch i (ObjectCBWrite k') m c) = (k' = k)"
| "is_obj_write k e = False"

text \<open>
  The render item at position \<open>k\<close> is caught up with in a state when every slot of the
  ring either holds the item's payload at the item's index, or is one of the next
  \<open>NumFramesDirty\<close> slots that the rotation will select.
\<close>

definition caught_up :: "('f, 'c, 'p) CrateApp \<Rightarrow> nat \<Rightarrow> bool" where
  "caught_up s k \<longleftrightarrow>
     (\<forall>sl<3. ObjectCB (mFrameResources s ! sl) ! ObjCBIndex (mAllRitems s ! k) =
                Some (payload (mAllRitems s ! k)) \<or>
              (\<exists>i\<ge>1. int i \<le> NumFramesDirty (mAllRitems s ! k) \<and>
                     int sl = (mCurrFrameResourceIndex s + int i) mod gNumFrameResources))"

subsection \<open>Changing a transform\<close>

text \<open>
  Modelled from the spec: the mutation of an object's transform. No function of the two
  source files changes a world matrix once \<^verbatim>\<open>BuildRenderItems\<close> has run. The spec (data
  model and dirty propagation) and the comment on \<^verbatim>\<open>RenderItem::NumFramesDirty\<close> say
  what a caller that changes the transform of a render item does: it stores the new
  matrix and sets the item's countdown to \<open>gNumFrameResources\<close>.
\<close>

definition SetWorld :: "nat \<Rightarrow> 'f XMFLOAT4X4 \<Rightarrow> ('f, 'c, 'p) CrateApp \<Rightarrow> ('f, 'c, 'p) CrateApp" where
  "SetWorld k W s =
     s\<lparr>mAllRitems :=
         (mAllRitems s)[k := (mAllRitems s ! k)\<lparr>World := W, NumFramesDirty := gNumFrameResources\<rparr>]\<rparr>"

subsection \<open>ShapesApp\<close>

text \<open>
  \<^verbatim>\<open>ShapesApp\<close> has the frame core of \<^verbatim>\<open>CrateApp\<close> without materials: its render items
  have no texture transform and no material, its frame resources no material buffer, and
  its draw calls bind descriptor tables of the heap \<open>mCbvHeap\<close>. Its types, members and
  functions carry the names of the source with a prime. The trace, the upload buffers,
  the fence and the inputs of a frame are those of above.
\<close>

text \<open>
  \<^verbatim>\<open>struct RenderItem\<close> of ShapesApp; the geometry and the draw arguments are left out.
\<close>

record 'f RenderItem' =
  World' :: "'f XMFLOAT4X4"
  NumFramesDirty' :: int
  ObjCBIndex' :: nat

definition RenderItem_default' :: "'f XMFLOAT4X4 \<Rightarrow> 'f RenderItem'" where
  "RenderItem_default' I =
     \<lparr>World' = I, NumFramesDirty' = gNumFrameResources, ObjCBIndex' = 4294967295\<rparr>"

text \<open>\<^verbatim>\<open>struct ObjectConstants\<close> of ShapesApp's FrameResource.h: the world matrix.\<close>

datatype 'f ObjectConstants' = ObjectConstants' (oc_World': "'f XMFLOAT4X4")

text \<open>
  Modelled from the spec: \<^verbatim>\<open>struct FrameResource\<close> of ShapesApp (its FrameResource.h is not
  among the sources): a command allocator, a per-pass and a per-object constant buffer,
  and the completion marker.
\<close>

record ('f, 'p) FrameResource' =
  CmdListAllocResets' :: nat
  PassCB' :: "'p UploadBuffer"
  ObjectCB' :: "'f ObjectConstants' UploadBuffer"
  Fence' :: "64 word"

definition FrameResource_new' :: "nat \<Rightarrow> nat \<Rightarrow> ('f, 'p) FrameResource'" where
  "FrameResource_new' passCount objectCount =
     \<lparr>CmdListAllocResets' = 0, PassCB' = UploadBuffer_new passCount,
      ObjectCB' = UploadBuffer_new objectCount, Fence' = 0\<rparr>"

text \<open>
  The members of \<^verbatim>\<open>ShapesApp\<close> and of \<^verbatim>\<open>D3DApp\<close> that the frame core uses, the device's
  fence and queue, and the trace. \<open>mPassCbvOffset\<close> is a \<^verbatim>\<open>UINT\<close>.
\<close>

record ('f, 'p) ShapesApp =
  mCurrentFence' :: "64 word"
  mCurrBackBuffer' :: int
  SwapChainBufferCount' :: int
  fenceCompleted' :: "64 word"
  queuedSignals' :: "64 word list"
  mFrameResources' :: "('f, 'p) FrameResource' list"
  mCurrFrameResource' :: "nat option"
  mCurrFrameResourceIndex' :: int
  mAllRitems' :: "'f RenderItem' list"
  mOpaqueRitems' :: "nat list"
  mPassCbvOffset' :: "32 word"
  trace' :: "event list"

definition Signal' :: "64 word \<Rightarrow> ('f, 'p) ShapesApp \<Rightarrow> ('f, 'p) ShapesApp" where
  "Signal' v s = s\<lparr>queuedSignals' := queuedSignals' s @ [v]\<rparr>"

definition GpuExecute' :: "('f, 'p) ShapesApp \<Rightarrow> ('f, 'p) ShapesApp" where
  "GpuExecute' s =
     (case queuedSignals' s of
        [] \<Rightarrow> s
      | v # q \<Rightarrow> s\<lparr>fenceCompleted' := v, queuedSignals' := q\<rparr>)"

definition currFrameResource' ::
  "('f, 'p) ShapesApp \<Rightarrow> error + (nat \<times> ('f, 'p) FrameResource')" where
  "currFrameResource' s =
     (case mCurrFrameResource' s of
        None \<Rightarrow> Inl NullPointer
      | Some i \<Rightarrow>
          if i < length (mFrameResources' s) then Inr (i, mFrameResources' s ! i)
          else Inl IndexOutOfRange)"

text \<open>
  \<^verbatim>\<open>ShapesApp::OnKeyboardInput\<close> sets \<open>mIsWireframe\<close>, which selects the pipeline state
  object given to \<^verbatim>\<open>mCommandList->Reset\<close>; \<^verbatim>\<open>ShapesApp::UpdateCamera\<close> writes \<open>mEyePos\<close>
  and \<open>mView\<close>. No member of the modelled state changes.
\<close>

definition OnKeyboardInput' :: "('f, 'p) ShapesApp \<Rightarrow> ('f, 'p) ShapesApp" where
  "OnKeyboardInput' s = s"

definition UpdateCamera' :: "('f, 'p) ShapesApp \<Rightarrow> ('f, 'p) ShapesApp" where
  "UpdateCamera' s = s"

text \<open>
  Lines 238-239 of \<^verbatim>\<open>ShapesApp::Update\<close>:
  \<^verbatim>\<open>mCurrFrameResourceIndex = (mCurrFrameResourceIndex + 1) % gNumFrameResources;\<close>
  \<^verbatim>\<open>mCurrFrameResource = mFrameResources[mCurrFrameResourceIndex].get();\<close>
\<close>

definition Update_rotate' :: "('f, 'p) ShapesApp \<Rightarrow> error + ('f, 'p) ShapesApp" where
  "Update_rotate' s =
     (let i = (mCurrFrameResourceIndex' s + 1) smod gNumFrameResources in
      if 0 \<le> i \<and> nat i < length (mFrameResources' s)
      then Inr (s\<lparr>mCurrFrameResourceIndex' := i, mCurrFrameResource' := Some (nat i),
                   trace' := trace' s @ [EvRotate (nat i)]\<rparr>)
      else Inl IndexOutOfRange)"

text \<open>
  Lines 244-253:
  \<^verbatim>\<open>if (mCurrFrameResource->Fence != 0 && mFence->GetCompletedValue() < mCurrFrameResource->Fence)\<close>
  \<^verbatim>\<open>{ ... ThrowIfFailed(mFence->SetEventOnCompletion(mCurrFrameResource->Fence, eventHandle));\<close>
  \<^verbatim>\<open>  WaitForSingleObject(eventHandle, INFINITE); ... }\<close>
\<close>

definition Update_wait' :: "bool \<Rightarrow> ('f, 'p) ShapesApp \<Rightarrow> error + ('f, 'p) ShapesApp" where
  "Update_wait' hr s =
     (case currFrameResource' s of
        Inl e \<Rightarrow> Inl e
      | Inr (i, fr) \<Rightarrow>
          if Fence' fr \<noteq> 0 \<and> fenceCompleted' s < Fence' fr then
            (if hr then
               (case WaitForSingleObject (Fence' fr) (fenceCompleted' s) (queuedSignals' s) of
                  None \<Rightarrow> Inl WaitsForever
                | Some (c, q) \<Rightarrow>
                    Inr (s\<lparr>fenceCompleted' := c, queuedSignals' := q,
                           trace' := trace' s @ [EvBlocked (Fence' fr)]\<rparr>))
             else Inl DxException)
          else Inr s)"

text \<open>The loop of \<^verbatim>\<open>ShapesApp::UpdateObjectCBs\<close> over \<open>mAllRitems\<close>.\<close>

fun UpdateObjectCBs_loop' ::
  "(access \<Rightarrow> event) \<Rightarrow> 'f RenderItem' list \<Rightarrow> 'f ObjectConstants' UploadBuffer \<Rightarrow> event list \<Rightarrow>
   error + ('f RenderItem' list \<times> 'f ObjectConstants' UploadBuffer \<times> event list)" where
  "UpdateObjectCBs_loop' ev [] cb tr = Inr ([], cb, tr)"
| "UpdateObjectCBs_loop' ev (e # es) cb tr =
     (if NumFramesDirty' e > 0 then
        (case CopyData (ObjCBIndex' e) (ObjectConstants' (XMMatrixTranspose (World' e))) cb of
           Inl err \<Rightarrow> Inl err
         | Inr cb' \<Rightarrow>
             (case UpdateObjectCBs_loop' ev es cb' (tr @ [ev (ObjectCBWrite (ObjCBIndex' e))]) of
                Inl err \<Rightarrow> Inl err
              | Inr (es', cb'', tr') \<Rightarrow>
                  Inr (e\<lparr>NumFramesDirty' := NumFramesDirty' e - 1\<rparr> # es', cb'', tr')))
      else
        (case UpdateObjectCBs_loop' ev es cb tr of
           Inl err \<Rightarrow> Inl err
         | Inr (es', cb'', tr') \<Rightarrow> Inr (e # es', cb'', tr')))"

definition UpdateObjectCBs' :: "('f, 'p) ShapesApp \<Rightarrow> error + ('f, 'p) ShapesApp" where
  "UpdateObjectCBs' s =
     (case currFrameResource' s of
        Inl e \<Rightarrow> Inl e
      | Inr (i, fr) \<Rightarrow>
          (case UpdateObjectCBs_loop' (\<lambda>a. EvCpuTouch i a (Fence' fr) (fenceCompleted' s))
                  (mAllRitems' s) (ObjectCB' fr) (trace' s) of
             Inl e \<Rightarrow> Inl e
           | Inr (es, cb, tr) \<Rightarrow>
               Inr (s\<lparr>mAllRitems' := es,
                      mFrameResources' := (mFrameResources' s)[i := fr\<lparr>ObjectCB' := cb\<rparr>],
                      trace' := tr\<rparr>)))"

definition UpdateMainPassCB' :: "'p \<Rightarrow> ('f, 'p) ShapesApp \<Rightarrow> error + ('f, 'p) ShapesApp" where
  "UpdateMainPassCB' pc s =
     (case currFrameResource' s of
        Inl e \<Rightarrow> Inl e
      | Inr (i, fr) \<Rightarrow>
          (case CopyData 0 pc (PassCB' fr) of
             Inl e \<Rightarrow> Inl e
           | Inr cb \<Rightarrow>
               Inr (s\<lparr>mFrameResources' := (mFrameResources' s)[i := fr\<lparr>PassCB' := cb\<rparr>],
                      trace' := trace' s @ [EvCpuTouch i (PassCBWrite 0) (Fence' fr) (fenceCompleted' s)]\<rparr>)))"

text \<open>\<^verbatim>\<open>ShapesApp::Update\<close>, statement by statement.\<close>

definition Update' :: "'p FrameInput \<Rightarrow> ('f, 'p) ShapesApp \<Rightarrow> error + ('f, 'p) ShapesApp" where
  "Update' inp s =
     andThen (Update_rotate' (UpdateCamera' (OnKeyboardInput' s))) (\<lambda>s1.
     andThen (Update_wait' (hrSetEventOnCompletion inp) s1) (\<lambda>s2.
     andThen (UpdateObjectCBs' s2) (\<lambda>s3.
     UpdateMainPassCB' (passConstants inp) s3)))"

text \<open>
  The loop of \<^verbatim>\<open>ShapesApp::DrawRenderItems\<close>. For each item it computes
  \<^verbatim>\<open>UINT cbvIndex = mCurrFrameResourceIndex * (UINT)mOpaqueRitems.size() + ri->ObjCBIndex\<close>,
  an unsigned 32-bit sum, and binds the descriptor of the heap at this index (read as an
  \<^verbatim>\<open>int\<close> by \<^verbatim>\<open>Offset\<close>) as table 0. \<open>idx\<close> is the ring index and \<open>n\<close> the size of
  \<open>mOpaqueRitems\<close>.
\<close>

definition cbvIndex :: "int \<Rightarrow> nat \<Rightarrow> nat \<Rightarrow> 32 word" where
  "cbvIndex idx n k = word_of_int idx * word_of_nat n + word_of_nat k"

fun DrawRenderItems_loop' ::
  "int \<Rightarrow> nat \<Rightarrow> 'f RenderItem' list \<Rightarrow> nat list \<Rightarrow> event list \<Rightarrow> error + event list" where
  "DrawRenderItems_loop' idx n all [] tr = Inr tr"
| "DrawRenderItems_loop' idx n all (r # rs) tr =
     (if r < length all then
        DrawRenderItems_loop' idx n all rs
          (tr @ [EvSetDescriptorTable 0 (sint (cbvIndex idx n (ObjCBIndex' (all ! r))))])
      else Inl NullPointer)"

definition DrawRenderItems' :: "nat list \<Rightarrow> ('f, 'p) ShapesApp \<Rightarrow> error + ('f, 'p) ShapesApp" where
  "DrawRenderItems' ritems s =
     (case currFrameResource' s of
        Inl e \<Rightarrow> Inl e
      | Inr (i, fr) \<Rightarrow>
          (case DrawRenderItems_loop' (mCurrFrameResourceIndex' s) (length (mOpaqueRitems' s))
                  (mAllRitems' s) ritems (trace' s) of
             Inl e \<Rightarrow> Inl e
           | Inr tr \<Rightarrow> Inr (s\<lparr>trace' := tr\<rparr>)))"

text \<open>
  Lines 268-306 of \<^verbatim>\<open>ShapesApp::Draw\<close>: \<^verbatim>\<open>ThrowIfFailed(cmdListAlloc->Reset())\<close>,
  \<^verbatim>\<open>ThrowIfFailed(mCommandList->Reset(...))\<close> (either branch),
  \<^verbatim>\<open>int passCbvIndex = mPassCbvOffset + mCurrFrameResourceIndex\<close>, whose descriptor is bound
  as table 1, and the opaque render items are drawn.
\<close>

definition Draw_record' :: "'p FrameInput \<Rightarrow> ('f, 'p) ShapesApp \<Rightarrow> error + ('f, 'p) ShapesApp" where
  "Draw_record' inp s =
     (case currFrameResource' s of
        Inl e \<Rightarrow> Inl e
      | Inr (i, fr) \<Rightarrow>
          andThen (ThrowIfFailed (hrAllocReset inp)
                     (s\<lparr>mFrameResources' :=
                          (mFrameResources' s)[i := fr\<lparr>CmdListAllocResets' := CmdListAllocResets' fr + 1\<rparr>],
                        trace' := trace' s @ [EvCpuTouch i AllocatorReset (Fence' fr) (fenceCompleted' s)]\<rparr>)) (\<lambda>s1.
          andThen (ThrowIfFailed (hrCommandListReset inp) s1) (\<lambda>s2.
          DrawRenderItems' (mOpaqueRitems' s2)
            (s2\<lparr>trace' := trace' s2 @
                   [EvSetDescriptorTable 1
                      (sint (mPassCbvOffset' s2 + word_of_int (mCurrFrameResourceIndex' s2)))]\<rparr>))))"

text \<open>
  Lines 312-320: \<^verbatim>\<open>ThrowIfFailed(mCommandList->Close())\<close>,
  \<^verbatim>\<open>mCommandQueue->ExecuteCommandLists(...)\<close>, \<^verbatim>\<open>ThrowIfFailed(mSwapChain->Present(0, 0))\<close>,
  \<^verbatim>\<open>mCurrBackBuffer = (mCurrBackBuffer + 1) % SwapChainBufferCount\<close>.
\<close>

definition Draw_submit_present' :: "'p FrameInput \<Rightarrow> ('f, 'p) ShapesApp \<Rightarrow> error + ('f, 'p) ShapesApp" where
  "Draw_submit_present' inp s =
     andThen (ThrowIfFailed (hrClose inp) s) (\<lambda>s1.
     andThen (ThrowIfFailed (hrPresent inp) (s1\<lparr>trace' := trace' s1 @ [EvSubmit]\<rparr>)) (\<lambda>s2.
     if SwapChainBufferCount' s2 = 0 then Inl DivideByZero
     else Inr (s2\<lparr>mCurrBackBuffer' := (mCurrBackBuffer' s2 + 1) smod SwapChainBufferCount' s2,
                  trace' := trace' s2 @ [EvPresent]\<rparr>)))"

text \<open>
  Lines 330-335: \<^verbatim>\<open>mCurrFrameResource->Fence = ++mCurrentFence;\<close>
  \<^verbatim>\<open>mCommandQueue->Signal(mFence.Get(), mCurrentFence);\<close>
\<close>

definition Draw_stamp' :: "('f, 'p) ShapesApp \<Rightarrow> error + ('f, 'p) ShapesApp" where
  "Draw_stamp' s =
     (case currFrameResource' s of
        Inl e \<Rightarrow> Inl e
      | Inr (i, fr) \<Rightarrow>
          (let m = mCurrentFence' s + 1 in
           Inr (Signal' m
                  (s\<lparr>mCurrentFence' := m,
                     mFrameResources' := (mFrameResources' s)[i := fr\<lparr>Fence' := m\<rparr>],
                     trace' := trace' s @ [EvStamp i m]\<rparr>))))"

definition Draw' :: "'p FrameInput \<Rightarrow> ('f, 'p) ShapesApp \<Rightarrow> error + ('f, 'p) ShapesApp" where
  "Draw' inp s =
     andThen (Draw_record' inp s) (\<lambda>s1.
     andThen (Draw_submit_present' inp s1) Draw_stamp')"

text \<open>
  Modelled from the spec: a frame of ShapesApp is \<^verbatim>\<open>Update\<close> and then \<^verbatim>\<open>Draw\<close>, and a run
  interleaves frames with steps of the device, as for CrateApp.
\<close>

definition Frame' :: "'p FrameInput \<Rightarrow> ('f, 'p) ShapesApp \<Rightarrow> error + ('f, 'p) ShapesApp" where
  "Frame' inp s = andThen (Update' inp s) (Draw' inp)"

fun run' :: "'p action list \<Rightarrow> ('f, 'p) ShapesApp \<Rightarrow> error + ('f, 'p) ShapesApp" where
  "run' [] s = Inr s"
| "run' (Gpu # as) s = run' as (GpuExecute' s)"
| "run' (Cpu inp # as) s = (case Frame' inp s of Inl e \<Rightarrow> Inl e | Inr s' \<Rightarrow> run' as s')"

text \<open>
  One block of \<^verbatim>\<open>ShapesApp::BuildRenderItems\<close>: a default render item whose world matrix
  and constant-buffer index are assigned; \<open>W k\<close> stands for the float matrix stored into
  the item of index \<open>k\<close>.
\<close>

definition ritem' :: "'f XMFLOAT4X4 \<Rightarrow> (nat \<Rightarrow> 'f XMFLOAT4X4) \<Rightarrow> nat \<Rightarrow> 'f RenderItem'" where
  "ritem' I W k = (RenderItem_default' I)\<lparr>World' := W k, ObjCBIndex' := k\<rparr>"

text \<open>
  \<^verbatim>\<open>ShapesApp::BuildRenderItems\<close>: twenty-six items are pushed to \<open>mAllRitems\<close>, and the
  loop at the end makes all of them opaque items.
\<close>

definition BuildRenderItems' ::
  "'f XMFLOAT4X4 \<Rightarrow> (nat \<Rightarrow> 'f XMFLOAT4X4) \<Rightarrow> ('f, 'p) ShapesApp \<Rightarrow> ('f, 'p) ShapesApp" where
  "BuildRenderItems' I W s =
     (let items =
        mAllRitems' s @
        [ritem' I W 0, ritem' I W 1, ritem' I W 2, ritem' I W 3, ritem' I W 4, ritem' I W 5,
         ritem' I W 6, ritem' I W 7, ritem' I W 8, ritem' I W 9, ritem' I W 10, ritem' I W 11,
         ritem' I W 12, ritem' I W 13, ritem' I W 14, ritem' I W 15, ritem' I W 16,
         ritem' I W 17, ritem' I W 18, ritem' I W 19, ritem' I W 20, ritem' I W 21,
         ritem' I W 22, ritem' I W 23, ritem' I W 24, ritem' I W 25] in
      s\<lparr>mAllRitems' := items, mOpaqueRitems' := mOpaqueRitems' s @ [0 ..< length items]\<rparr>)"

text \<open>
  \<^verbatim>\<open>ShapesApp::BuildFrameResources\<close>: \<open>gNumFrameResources\<close> frame resources, each made
  with \<^verbatim>\<open>FrameResource(device, 1, (UINT)mAllRitems.size())\<close>.
\<close>

definition BuildFrameResources' :: "('f, 'p) ShapesApp \<Rightarrow> ('f, 'p) ShapesApp" where
  "BuildFrameResources' s =
     s\<lparr>mFrameResources' :=
         mFrameResources' s @
         replicate (nat gNumFrameResources) (FrameResource_new' 1 (length (mAllRitems' s) mod 2 ^ 32))\<rparr>"

text \<open>
  \<^verbatim>\<open>ShapesApp::BuildDescriptorHeaps\<close>:
  \<^verbatim>\<open>mPassCbvOffset = objCount * gNumFrameResources\<close> with
  \<^verbatim>\<open>UINT objCount = (UINT)mOpaqueRitems.size()\<close>. The heap itself is left out.
\<close>

definition BuildDescriptorHeaps' :: "('f, 'p) ShapesApp \<Rightarrow> ('f, 'p) ShapesApp" where
  "BuildDescriptorHeaps' s =
     s\<lparr>mPassCbvOffset' := word_of_nat (length (mOpaqueRitems' s)) * word_of_int gNumFrameResources\<rparr>"

text \<open>
  Modelled from the spec: the members of \<^verbatim>\<open>D3DApp\<close> when \<^verbatim>\<open>ShapesApp::Initialize\<close> starts
  to build the scene, as for CrateApp.
\<close>

definition ShapesApp_new :: "64 word \<Rightarrow> int \<Rightarrow> ('f, 'p) ShapesApp" where
  "ShapesApp_new c0 swapChainBufferCount =
     \<lparr>mCurrentFence' = c0, mCurrBackBuffer' = 0, SwapChainBufferCount' = swapChainBufferCount,
      fenceCompleted' = c0, queuedSignals' = [],
      mFrameResources' = [], mCurrFrameResource' = None, mCurrFrameResourceIndex' = 0,
      mAllRitems' = [], mOpaqueRitems' = [], mPassCbvOffset' = 0, trace' = []\<rparr>"

text \<open>
  \<^verbatim>\<open>ShapesApp::Initialize\<close>:
  \<^verbatim>\<open>BuildRenderItems(); BuildFrameResources(); BuildDescriptorHeaps();\<close> in this order.
\<close>

definition Initialize' ::
  "64 word \<Rightarrow> int \<Rightarrow> 'f XMFLOAT4X4 \<Rightarrow> (nat \<Rightarrow> 'f XMFLOAT4X4) \<Rightarrow> ('f, 'p) ShapesApp" where
  "Initialize' c0 n I W =
     BuildDescriptorHeaps' (BuildFrameResources' (BuildRenderItems' I W (ShapesApp_new c0 n)))"

text \<open>
  The closed forms of the sweep and of a frame of ShapesApp, as for CrateApp.
\<close>

definition dirty' :: "'f RenderItem' \<Rightarrow> bool" where
  "dirty' e = (0 < NumFramesDirty' e)"

definition decr' :: "'f RenderItem' \<Rightarrow> 'f RenderItem'" where
  "decr' e = (if 0 < NumFramesDirty' e then e\<lparr>NumFramesDirty' := NumFramesDirty' e - 1\<rparr> else e)"

definition payload' :: "'f RenderItem' \<Rightarrow> 'f ObjectConstants'" where
  "payload' e = ObjectConstants' (XMMatrixTranspose (World' e))"

definition obj_writes' :: "'f RenderItem' list \<Rightarrow> (nat \<times> 'f ObjectConstants') list" where
  "obj_writes' es = map (\<lambda>e. (ObjCBIndex' e, payload' e)) (filter dirty' es)"

definition frame_slot' :: "('f, 'p) ShapesApp \<Rightarrow> nat" where
  "frame_slot' s = nat ((mCurrFrameResourceIndex' s + 1) smod gNumFrameResources)"

definition frame_marker' :: "('f, 'p) ShapesApp \<Rightarrow> 64 word" where
  "frame_marker' s = Fence' (mFrameResources' s ! frame_slot' s)"

definition must_wait' :: "('f, 'p) ShapesApp \<Rightarrow> bool" where
  "must_wait' s = (frame_marker' s \<noteq> 0 \<and> fenceCompleted' s < frame_marker' s)"

definition Rotate_events' :: "('f, 'p) ShapesApp \<Rightarrow> event list" where
  "Rotate_events' s = [EvRotate (frame_slot' s)]"

definition Synchronize_events' :: "('f, 'p) ShapesApp \<Rightarrow> event list" where
  "Synchronize_events' s = (if must_wait' s then [EvBlocked (frame_marker' s)] else [])"

definition Update_events' :: "('f, 'p) ShapesApp \<Rightarrow> 64 word \<Rightarrow> event list" where
  "Update_events' s c =
     map (\<lambda>e. EvCpuTouch (frame_slot' s) (ObjectCBWrite (ObjCBIndex' e)) (frame_marker' s) c)
       (filter dirty' (mAllRitems' s)) @
     [EvCpuTouch (frame_slot' s) (PassCBWrite 0) (frame_marker' s) c]"

definition Record_events' :: "('f, 'p) ShapesApp \<Rightarrow> 64 word \<Rightarrow> event list" where
  "Record_events' s c =
     [EvCpuTouch (frame_slot' s) AllocatorReset (frame_marker' s) c,
      EvSetDescriptorTable 1
        (sint (mPassCbvOffset' s +
               word_of_int ((mCurrFrameResourceIndex' s + 1) smod gNumFrameResources)))] @
     map (\<lambda>r. EvSetDescriptorTable 0
                 (sint (cbvIndex ((mCurrFrameResourceIndex' s + 1) smod gNumFrameResources)
                          (length (mOpaqueRitems' s)) (ObjCBIndex' (mAllRitems' s ! r)))))
       (mOpaqueRitems' s)"

definition Stamp_events' :: "('f, 'p) ShapesApp \<Rightarrow> event list" where
  "Stamp_events' s = [EvStamp (frame_slot' s) (mCurrentFence' s + 1)]"

definition frame_events' :: "('f, 'p) ShapesApp \<Rightarrow> 64 word \<Rightarrow> event list" where
  "frame_events' s c =
     Rotate_events' s @ Synchronize_events' s @ Update_events' s c @ Record_events' s c @
     [EvSubmit] @ [EvPresent] @ Stamp_events' s"

definition frame_state' ::
  "'p FrameInput \<Rightarrow> 64 word \<Rightarrow> 64 word list \<Rightarrow> ('f, 'p) ShapesApp \<Rightarrow> ('f, 'p) ShapesApp" where
  "frame_state' inp c q s =
     s\<lparr>mCurrentFence' := mCurrentFence' s + 1,
       mCurrBackBuffer' := (mCurrBackBuffer' s + 1) smod SwapChainBufferCount' s,
       fenceCompleted' := c,
       queuedSignals' := q @ [mCurrentFence' s + 1],
       mFrameResources' :=
         (mFrameResources' s)[frame_slot' s :=
           (mFrameResources' s ! frame_slot' s)
             \<lparr>ObjectCB' := apply_writes (obj_writes' (mAllRitems' s))
                            (ObjectCB' (mFrameResources' s ! frame_slot' s)),
              PassCB' := (PassCB' (mFrameResources' s ! frame_slot' s))[0 := Some (passConstants inp)],
              CmdListAllocResets' := CmdListAllocResets' (mFrameResources' s ! frame_slot' s) + 1,
              Fence' := mCurrentFence' s + 1\<rparr>],
       mCurrFrameResource' := Some (frame_slot' s),
       mCurrFrameResourceIndex' := (mCurrFrameResourceIndex' s + 1) smod gNumFrameResources,
       mAllRitems' := map decr' (mAllRitems' s),
       trace' := trace' s @ frame_events' s c\<rparr>"

definition frame_ok' :: "'p FrameInput \<Rightarrow> ('f, 'p) ShapesApp \<Rightarrow> bool" where
  "frame_ok' inp s \<longleftrightarrow>
     0 \<le> (mCurrFrameResourceIndex' s + 1) smod gNumFrameResources \<and>
     frame_slot' s < length (mFrameResources' s) \<and>
     (\<forall>e\<in>set (mAllRitems' s). dirty' e \<longrightarrow>
        ObjCBIndex' e < length (ObjectCB' (mFrameResources' s ! frame_slot' s))) \<and>
     0 < length (PassCB' (mFrameResources' s ! frame_slot' s)) \<and>
     (\<forall>r\<in>set (mOpaqueRitems' s). r < length (mAllRitems' s)) \<and>
     hrAllocReset inp \<and> hrCommandListReset inp \<and> hrClose inp \<and> hrPresent inp \<and>
     SwapChainBufferCount' s \<noteq> 0"

definition sync_result' :: "bool \<Rightarrow> ('f, 'p) ShapesApp \<Rightarrow> (64 word \<times> 64 word list) option" where
  "sync_result' hr s =
     (if must_wait' s then
        (if hr then WaitForSingleObject (frame_marker' s) (fenceCompleted' s) (queuedSignals' s)
         else None)
      else Some (fenceCompleted' s, queuedSignals' s))"

text \<open>The well-formed states of ShapesApp.\<close>

definition scene_ok' :: "('f, 'p) ShapesApp \<Rightarrow> bool" where
  "scene_ok' s \<longleftrightarrow>
     length (mFrameResources' s) = nat gNumFrameResources \<and>
     0 \<le> mCurrFrameResourceIndex' s \<and> mCurrFrameResourceIndex' s < gNumFrameResources \<and>
     (\<forall>fr\<in>set (mFrameResources' s).
        length (ObjectCB' fr) = length (mAllRitems' s) \<and> length (PassCB' fr) = 1) \<and>
     distinct (map ObjCBIndex' (mAllRitems' s)) \<and>
     (\<forall>e\<in>set (mAllRitems' s). ObjCBIndex' e < length (mAllRitems' s)) \<and>
     (\<forall>r\<in>set (mOpaqueRitems' s). r < length (mAllRitems' s))"

definition fence_ok' :: "('f, 'p) ShapesApp \<Rightarrow> bool" where
  "fence_ok' s \<longleftrightarrow>
     sorted_wrt (<) (fenceCompleted' s # queuedSignals' s) \<and>
     last (fenceCompleted' s # queuedSignals' s) = mCurrentFence' s \<and>
     (\<forall>fr\<in>set (mFrameResources' s). Fence' fr \<le> mCurrentFence' s)"

definition caught_up' :: "('f, 'p) ShapesApp \<Rightarrow> nat \<Rightarrow> bool" where
  "caught_up' s k \<longleftrightarrow>
     (\<forall>sl<3. ObjectCB' (mFrameResources' s ! sl) ! ObjCBIndex' (mAllRitems' s ! k) =
                Some (payload' (mAllRitems' s ! k)) \<or>
              (\<exists>i\<ge>1. int i \<le> NumFramesDirty' (mAllRitems' s ! k) \<and>
                     int sl = (mCurrFrameResourceIndex' s + int i) mod gNumFrameResources))"

text \<open>An instance of ShapesApp, and its states after the first four frames.\<close>

definition demo_app' :: "(int, unit) ShapesApp" where
  "demo_app' = Initialize' 0 2 demo_I demo_W"

definition demo1' :: "(int, unit) ShapesApp" where
  "demo1' = frame_state' demo_inp 0 [] demo_app'"

definition demo2' :: "(int, unit) ShapesApp" where
  "demo2' = frame_state' demo_inp 0 [1] demo1'"

definition demo3' :: "(int, unit) ShapesApp" where
  "demo3' = frame_state' demo_inp 0 [1, 2] demo2'"

definition demo4' :: "(int, unit) ShapesApp" where
  "demo4' = frame_state' demo_inp 1 [2, 3] demo3'"

text \<open>
  Modelled from the spec: the mutation of an object's transform in ShapesApp, as for
  CrateApp.
\<close>

definition SetWorld' :: "nat \<Rightarrow> 'f XMFLOAT4X4 \<Rightarrow> ('f, 'p) ShapesApp \<Rightarrow> ('f, 'p) ShapesApp" where
  "SetWorld' k W s =
     s\<lparr>mAllRitems' :=
         (mAllRitems' s)[k := (mAllRitems' s ! k)\<lparr>World' := W, NumFramesDirty' := gNumFrameResources\<rparr>]\<rparr>"

section \<open>CrateApp: the frame and its invariants\<close>

subsection \<open>Sequencing, upload buffers and the loops\<close>

lemma andThen_simps [simp]:
  "andThen (Inl e) f = Inl e" "andThen (Inr x) f = f x"
  by (simp_all add: andThen_def)

lemma andThen_Inr_iff: "andThen r f = Inr y \<longleftrightarrow> (\<exists>x. r = Inr x \<and> f x = Inr y)"
  by (cases r) simp_all

lemma ThrowIfFailed_Inr_iff [simp]: "ThrowIfFailed hr s = Inr s' \<longleftrightarrow> hr \<and> s' = s"
  by (auto simp: ThrowIfFailed_def)

lemma length_apply_writes [simp]: "length (apply_writes ws buf) = length buf"
  unfolding apply_writes_def by (induction ws arbitrary: buf) auto

lemma apply_writes_Nil [simp]: "apply_writes [] buf = buf"
  by (simp add: apply_writes_def)

lemma apply_writes_Cons [simp]:
  "apply_writes ((k, v) # ws) buf = apply_writes ws (buf[k := Some v])"
  by (simp add: apply_writes_def)

lemma apply_writes_other:
  "k \<notin> fst ` set ws \<Longrightarrow> apply_writes ws buf ! k = buf ! k"
  by (induction ws arbitrary: buf) auto

lemma apply_writes_hit:
  "distinct (map fst ws) \<Longrightarrow> (k, v) \<in> set ws \<Longrightarrow> k < length buf \<Longrightarrow>
   apply_writes ws buf ! k = Some v"
proof (induction ws arbitrary: buf)
  case Nil
  then show ?case by simp
next
  case (Cons w ws)
  obtain k' v' where w: "w = (k', v')" by (cases w)
  show ?case
  proof (cases "(k, v) = w")
    case True
    with Cons.prems w have "k \<notin> fst ` set ws" by auto
    with True w Cons.prems show ?thesis by (simp add: apply_writes_other)
  next
    case False
    with Cons.prems w have "(k, v) \<in> set ws" "distinct (map fst ws)" by auto
    with Cons.IH [of "buf[k' := Some v']"] Cons.prems w show ?thesis by simp
  qed
qed

lemma UpdateObjectCBs_loop_eq:
  "UpdateObjectCBs_loop ev es cb tr =
     (if \<forall>e\<in>set es. dirty e \<longrightarrow> ObjCBIndex e < length cb
      then Inr (map decr es, apply_writes (obj_writes es) cb,
                tr @ map (\<lambda>e. ev (ObjectCBWrite (ObjCBIndex e))) (filter dirty es))
      else Inl IndexOutOfRange)"
proof (induction es arbitrary: cb tr)
  case Nil
  show ?case by (simp add: obj_writes_def)
next
  case (Cons e es)
  show ?case
    by (auto simp: Cons.IH CopyData_def dirty_def[symmetric] decr_def obj_writes_def payload_def)
qed

lemma UpdateMaterialCBs_loop_eq:
  "UpdateMaterialCBs_loop ev ms cb tr =
     (if \<forall>km\<in>set ms. mat_dirty km \<longrightarrow> MatCBIndex (snd km) < length cb
      then Inr (map mat_decr ms, apply_writes (mat_writes ms) cb,
                tr @ map (\<lambda>km. ev (MaterialCBWrite (MatCBIndex (snd km)))) (filter mat_dirty ms))
      else Inl IndexOutOfRange)"
proof (induction ms arbitrary: cb tr)
  case Nil
  show ?case by (simp add: mat_writes_def)
next
  case (Cons km ms)
  obtain k mat where km: "km = (k, mat)" by (cases km)
  have d: "0 < MatNumFramesDirty mat \<longleftrightarrow> mat_dirty (k, mat)" by (simp add: mat_dirty_def)
  show ?case unfolding km
    by (auto simp: Cons.IH CopyData_def d mat_decr_def mdecr_def mat_writes_def)
qed

lemma DrawRenderItems_loop_eq:
  "DrawRenderItems_loop i ob mb all mats rs tr =
     (if \<forall>r\<in>set rs. r < length all \<and> map_of mats (Mat (all ! r)) \<noteq> None
      then Inr (tr @ map (\<lambda>r. EvDrawItem i ((ObjCBIndex (all ! r) * ob) mod 2 ^ 32)
                               ((MatCBIndex (the (map_of mats (Mat (all ! r)))) * mb) mod 2 ^ 32)) rs)
      else Inl NullPointer)"
  by (induction rs arbitrary: tr) (auto split: option.splits)

lemma decr_simps [simp]:
  "ObjCBIndex (decr e) = ObjCBIndex e" "Mat (decr e) = Mat e"
  "World (decr e) = World e" "TexTransform (decr e) = TexTransform e"
  "NumFramesDirty (decr e) = (if 0 < NumFramesDirty e then NumFramesDirty e - 1 else NumFramesDirty e)"
  by (simp_all add: decr_def)

lemma payload_decr [simp]: "payload (decr e) = payload e"
  by (simp add: payload_def)

lemma mdecr_simps [simp]:
  "MatCBIndex (mdecr m) = MatCBIndex m" "DiffuseSrvHeapIndex (mdecr m) = DiffuseSrvHeapIndex m"
  "MatNumFramesDirty (mdecr m) =
     (if 0 < MatNumFramesDirty m then MatNumFramesDirty m - 1 else MatNumFramesDirty m)"
  by (simp_all add: mdecr_def)

lemma map_of_mat_decr: "map_of (map mat_decr ms) k = map_option mdecr (map_of ms k)"
  by (induction ms) (auto simp: mat_decr_def)

lemma draw_events_decr:
  assumes "\<forall>r\<in>set rs. r < length es \<and> map_of ms (Mat (es ! r)) \<noteq> None"
  shows "map (\<lambda>r. EvDrawItem i ((ObjCBIndex (map decr es ! r) * ob) mod 2 ^ 32)
                 ((MatCBIndex (the (map_of (map mat_decr ms) (Mat (map decr es ! r)))) * mb) mod 2 ^ 32)) rs =
         map (\<lambda>r. EvDrawItem i ((ObjCBIndex (es ! r) * ob) mod 2 ^ 32)
                 ((MatCBIndex (the (map_of ms (Mat (es ! r)))) * mb) mod 2 ^ 32)) rs"
  using assms by (auto simp: map_of_mat_decr)

lemma draw_ok_decr:
  "(\<forall>r\<in>set rs. r < length (map decr es) \<and>
       map_of (map mat_decr ms) (Mat (map decr es ! r)) \<noteq> None) \<longleftrightarrow>
   (\<forall>r\<in>set rs. r < length es \<and> map_of ms (Mat (es ! r)) \<noteq> None)"
  by (auto simp: map_of_mat_decr)

subsection \<open>The steps of a frame\<close>

lemma currFrameResource_Inr_iff:
  "currFrameResource s = Inr (i, fr) \<longleftrightarrow>
     mCurrFrameResource s = Some i \<and> i < length (mFrameResources s) \<and> fr = mFrameResources s ! i"
  by (auto simp: currFrameResource_def split: option.splits)

lemma Update_rotate_Inr_iff:
  "Update_rotate s = Inr s1 \<longleftrightarrow>
     0 \<le> (mCurrFrameResourceIndex s + 1) smod gNumFrameResources \<and>
     frame_slot s < length (mFrameResources s) \<and>
     s1 = s\<lparr>mCurrFrameResourceIndex := (mCurrFrameResourceIndex s + 1) smod gNumFrameResources,
            mCurrFrameResource := Some (frame_slot s),
            trace := trace s @ [EvRotate (frame_slot s)]\<rparr>"
  by (auto simp: Update_rotate_def frame_slot_def Let_def)

lemma Update_wait_Inr_iff:
  assumes "mCurrFrameResource s = Some i" "i < length (mFrameResources s)"
  shows "Update_wait hr s = Inr s2 \<longleftrightarrow>
     (if Fence (mFrameResources s ! i) \<noteq> 0 \<and> fenceCompleted s < Fence (mFrameResources s ! i)
      then hr \<and> (\<exists>c q. WaitForSingleObject (Fence (mFrameResources s ! i)) (fenceCompleted s)
                          (queuedSignals s) = Some (c, q) \<and>
                 s2 = s\<lparr>fenceCompleted := c, queuedSignals := q,
                        trace := trace s @ [EvBlocked (Fence (mFrameResources s ! i))]\<rparr>)
      else s2 = s)"
  using assms by (auto simp: Update_wait_def currFrameResource_def split: option.splits)

lemma UpdateObjectCBs_Inr_iff:
  assumes "mCurrFrameResource s = Some i" "i < length (mFrameResources s)"
  shows "UpdateObjectCBs s = Inr s3 \<longleftrightarrow>
     (\<forall>e\<in>set (mAllRitems s). dirty e \<longrightarrow> ObjCBIndex e < length (ObjectCB (mFrameResources s ! i))) \<and>
     s3 = s\<lparr>mAllRitems := map decr (mAllRitems s),
            mFrameResources := (mFrameResources s)[i := (mFrameResources s ! i)
               \<lparr>ObjectCB := apply_writes (obj_writes (mAllRitems s)) (ObjectCB (mFrameResources s ! i))\<rparr>],
            trace := trace s @
              map (\<lambda>e. EvCpuTouch i (ObjectCBWrite (ObjCBIndex e)) (Fence (mFrameResources s ! i))
                         (fenceCompleted s)) (filter dirty (mAllRitems s))\<rparr>"
  using assms by (auto simp: UpdateObjectCBs_def currFrameResource_def UpdateObjectCBs_loop_eq)

lemma UpdateMaterialCBs_Inr_iff:
  assumes "mCurrFrameResource s = Some i" "i < length (mFrameResources s)"
  shows "UpdateMaterialCBs s = Inr s4 \<longleftrightarrow>
     (\<forall>km\<in>set (mMaterials s). mat_dirty km \<longrightarrow>
        MatCBIndex (snd km) < length (MaterialCB (mFrameResources s ! i))) \<and>
     s4 = s\<lparr>mMaterials := map mat_decr (mMaterials s),
            mFrameResources := (mFrameResources s)[i := (mFrameResources s ! i)
               \<lparr>MaterialCB := apply_writes (mat_writes (mMaterials s)) (MaterialCB (mFrameResources s ! i))\<rparr>],
            trace := trace s @
              map (\<lambda>km. EvCpuTouch i (MaterialCBWrite (MatCBIndex (snd km)))
                          (Fence (mFrameResources s ! i)) (fenceCompleted s))
                (filter mat_dirty (mMaterials s))\<rparr>"
  using assms by (auto simp: UpdateMaterialCBs_def currFrameResource_def UpdateMaterialCBs_loop_eq)

lemma UpdateMainPassCB_Inr_iff:
  assumes "mCurrFrameResource s = Some i" "i < length (mFrameResources s)"
  shows "UpdateMainPassCB pc s = Inr s5 \<longleftrightarrow>
     0 < length (PassCB (mFrameResources s ! i)) \<and>
     s5 = s\<lparr>mFrameResources := (mFrameResources s)[i := (mFrameResources s ! i)
               \<lparr>PassCB := (PassCB (mFrameResources s ! i))[0 := Some pc]\<rparr>],
            trace := trace s @
              [EvCpuTouch i (PassCBWrite 0) (Fence (mFrameResources s ! i)) (fenceCompleted s)]\<rparr>"
  using assms by (auto simp: UpdateMainPassCB_def currFrameResource_def CopyData_def)

lemma Draw_record_Inr_iff:
  assumes "mCurrFrameResource s = Some i" "i < length (mFrameResources s)"
  shows "Draw_record inp s = Inr s6 \<longleftrightarrow>
     hrAllocReset inp \<and> hrCommandListReset inp \<and>
     (\<forall>r\<in>set (mOpaqueRitems s). r < length (mAllRitems s) \<and>
        map_of (mMaterials s) (Mat (mAllRitems s ! r)) \<noteq> None) \<and>
     s6 = s\<lparr>mFrameResources := (mFrameResources s)[i := (mFrameResources s ! i)
               \<lparr>CmdListAllocResets := CmdListAllocResets (mFrameResources s ! i) + 1\<rparr>],
            trace := trace s @
              [EvCpuTouch i AllocatorReset (Fence (mFrameResources s ! i)) (fenceCompleted s),
               EvBindPassCB i] @
              map (\<lambda>r. EvDrawItem i ((ObjCBIndex (mAllRitems s ! r) * objCBByteSize s) mod 2 ^ 32)
                         ((MatCBIndex (the (map_of (mMaterials s) (Mat (mAllRitems s ! r)))) *
                           matCBByteSize s) mod 2 ^ 32)) (mOpaqueRitems s)\<rparr>"
  using assms
  by (auto simp: Draw_record_def DrawRenderItems_def currFrameResource_def DrawRenderItems_loop_eq
      andThen_Inr_iff)

lemma Draw_submit_present_Inr_iff:
  "Draw_submit_present inp s = Inr s7 \<longleftrightarrow>
     hrClose inp \<and> hrPresent inp \<and> SwapChainBufferCount s \<noteq> 0 \<and>
     s7 = s\<lparr>mCurrBackBuffer := (mCurrBackBuffer s + 1) smod SwapChainBufferCount s,
            trace := trace s @ [EvSubmit, EvPresent]\<rparr>"
  by (auto simp: Draw_submit_present_def andThen_Inr_iff)

lemma Draw_stamp_Inr_iff:
  assumes "mCurrFrameResource s = Some i" "i < length (mFrameResources s)"
  shows "Draw_stamp s = Inr s8 \<longleftrightarrow>
     s8 = s\<lparr>mCurrentFence := mCurrentFence s + 1,
            queuedSignals := queuedSignals s @ [mCurrentFence s + 1],
            mFrameResources := (mFrameResources s)[i := (mFrameResources s ! i)
               \<lparr>Fence := mCurrentFence s + 1\<rparr>],
            trace := trace s @ [EvStamp i (mCurrentFence s + 1)]\<rparr>"
  using assms by (auto simp: Draw_stamp_def currFrameResource_def Signal_def Let_def)


lemma Frame_Inr_D:
  assumes F: "Frame inp s = Inr s'"
  shows "frame_ok inp s \<and>
     (\<exists>c q. sync_result (hrSetEventOnCompletion inp) s = Some (c, q) \<and> s' = frame_state inp c q s)"
proof -
  from F obtain s1 s2 s3 s4 s5 s6 s7 where
    1: "Update_rotate s = Inr s1" and
    2: "Update_wait (hrSetEventOnCompletion inp) s1 = Inr s2" and
    3: "UpdateObjectCBs s2 = Inr s3" and
    4: "UpdateMaterialCBs s3 = Inr s4" and
    5: "UpdateMainPassCB (passConstants inp) s4 = Inr s5" and
    6: "Draw_record inp s5 = Inr s6" and
    7: "Draw_submit_present inp s6 = Inr s7" and
    8: "Draw_stamp s7 = Inr s'"
    unfolding Frame_def Update_def Draw_def OnKeyboardInput_def UpdateCamera_def
      AnimateMaterials_def andThen_Inr_iff by blast
  let ?i = "frame_slot s"
  let ?fr = "mFrameResources s ! ?i"
  from 1 have i0: "0 \<le> (mCurrFrameResourceIndex s + 1) smod gNumFrameResources"
    and il: "?i < length (mFrameResources s)"
    and e1: "s1 = s\<lparr>mCurrFrameResourceIndex := (mCurrFrameResourceIndex s + 1) smod gNumFrameResources,
            mCurrFrameResource := Some ?i, trace := trace s @ [EvRotate ?i]\<rparr>"
    unfolding Update_rotate_Inr_iff by simp_all
  have p1: "mCurrFrameResource s1 = Some ?i" "?i < length (mFrameResources s1)"
    using e1 il by simp_all
  from 2 e1 il obtain c q where
    sy: "sync_result (hrSetEventOnCompletion inp) s = Some (c, q)" and
    e2: "s2 = s1\<lparr>fenceCompleted := c, queuedSignals := q,
                 trace := trace s1 @ Synchronize_events s\<rparr>"
    unfolding Update_wait_Inr_iff [OF p1]
    by (auto simp: sync_result_def must_wait_def frame_marker_def Synchronize_events_def
        split: if_splits)
  have p2: "mCurrFrameResource s2 = Some ?i" "?i < length (mFrameResources s2)"
    using e1 e2 il by simp_all
  have e3: "s3 = s2\<lparr>mAllRitems := map decr (mAllRitems s),
            mFrameResources := (mFrameResources s)[?i := ?fr
               \<lparr>ObjectCB := apply_writes (obj_writes (mAllRitems s)) (ObjectCB ?fr)\<rparr>],
            trace := trace s2 @
              map (\<lambda>e. EvCpuTouch ?i (ObjectCBWrite (ObjCBIndex e)) (Fence ?fr) c)
                (filter dirty (mAllRitems s))\<rparr>"
    and o3: "\<forall>e\<in>set (mAllRitems s). dirty e \<longrightarrow> ObjCBIndex e < length (ObjectCB ?fr)"
    using 3 unfolding UpdateObjectCBs_Inr_iff [OF p2] by (simp_all add: e1 e2)
  have p3: "mCurrFrameResource s3 = Some ?i" "?i < length (mFrameResources s3)"
    using e1 e2 e3 il by simp_all
  have e4: "s4 = s3\<lparr>mMaterials := map mat_decr (mMaterials s),
            mFrameResources := (mFrameResources s)[?i := ?fr
               \<lparr>ObjectCB := apply_writes (obj_writes (mAllRitems s)) (ObjectCB ?fr),
                MaterialCB := apply_writes (mat_writes (mMaterials s)) (MaterialCB ?fr)\<rparr>],
            trace := trace s3 @
              map (\<lambda>km. EvCpuTouch ?i (MaterialCBWrite (MatCBIndex (snd km))) (Fence ?fr) c)
                (filter mat_dirty (mMaterials s))\<rparr>"
    and o4: "\<forall>km\<in>set (mMaterials s). mat_dirty km \<longrightarrow> MatCBIndex (snd km) < length (MaterialCB ?fr)"
    using 4 il unfolding UpdateMaterialCBs_Inr_iff [OF p3] by (simp_all add: e1 e2 e3)
  have p4: "mCurrFrameResource s4 = Some ?i" "?i < length (mFrameResources s4)"
    using e1 e2 e3 e4 il by simp_all
  have e5: "s5 = s4\<lparr>mFrameResources := (mFrameResources s)[?i := ?fr
               \<lparr>ObjectCB := apply_writes (obj_writes (mAllRitems s)) (ObjectCB ?fr),
                MaterialCB := apply_writes (mat_writes (mMaterials s)) (MaterialCB ?fr),
                PassCB := (PassCB ?fr)[0 := Some (passConstants inp)]\<rparr>],
            trace := trace s4 @ [EvCpuTouch ?i (PassCBWrite 0) (Fence ?fr) c]\<rparr>"
    and o5: "0 < length (PassCB ?fr)"
    using 5 il unfolding UpdateMainPassCB_Inr_iff [OF p4] by (simp_all add: e1 e2 e3 e4)
  have p5: "mCurrFrameResource s5 = Some ?i" "?i < length (mFrameResources s5)"
    using e1 e2 e3 e4 e5 il by simp_all
  have q5: "mAllRitems s5 = map decr (mAllRitems s)" "mMaterials s5 = map mat_decr (mMaterials s)"
    "mOpaqueRitems s5 = mOpaqueRitems s" "objCBByteSize s5 = objCBByteSize s"
    "matCBByteSize s5 = matCBByteSize s" "fenceCompleted s5 = c"
    using e1 e2 e3 e4 e5 by simp_all
  have o6: "hrAllocReset inp" "hrCommandListReset inp"
      "\<forall>r\<in>set (mOpaqueRitems s). r < length (mAllRitems s) \<and>
         map_of (mMaterials s) (Mat (mAllRitems s ! r)) \<noteq> None"
    using 6 unfolding Draw_record_Inr_iff [OF p5] q5 draw_ok_decr by simp_all
  have e6: "s6 = s5\<lparr>mFrameResources := (mFrameResources s)[?i := ?fr
               \<lparr>ObjectCB := apply_writes (obj_writes (mAllRitems s)) (ObjectCB ?fr),
                MaterialCB := apply_writes (mat_writes (mMaterials s)) (MaterialCB ?fr),
                PassCB := (PassCB ?fr)[0 := Some (passConstants inp)],
                CmdListAllocResets := CmdListAllocResets ?fr + 1\<rparr>],
            trace := trace s5 @ Record_events s c\<rparr>"
    using 6 il unfolding Draw_record_Inr_iff [OF p5] q5 draw_ok_decr draw_events_decr [OF o6(3)]
    by (simp add: e1 e2 e3 e4 e5 Record_events_def frame_marker_def)
  have e7: "s7 = s6\<lparr>mCurrBackBuffer := (mCurrBackBuffer s + 1) smod SwapChainBufferCount s,
            trace := trace s6 @ [EvSubmit, EvPresent]\<rparr>"
    and o7: "hrClose inp" "hrPresent inp" "SwapChainBufferCount s \<noteq> 0"
    using 7 unfolding Draw_submit_present_Inr_iff by (simp_all add: e1 e2 e3 e4 e5 e6)
  have p7: "mCurrFrameResource s7 = Some ?i" "?i < length (mFrameResources s7)"
    using e1 e2 e3 e4 e5 e6 e7 il by simp_all
  have e8: "s' = s7\<lparr>mCurrentFence := mCurrentFence s + 1,
            queuedSignals := q @ [mCurrentFence s + 1],
            mFrameResources := (mFrameResources s)[?i := ?fr
               \<lparr>ObjectCB := apply_writes (obj_writes (mAllRitems s)) (ObjectCB ?fr),
                MaterialCB := apply_writes (mat_writes (mMaterials s)) (MaterialCB ?fr),
                PassCB := (PassCB ?fr)[0 := Some (passConstants inp)],
                CmdListAllocResets := CmdListAllocResets ?fr + 1,
                Fence := mCurrentFence s + 1\<rparr>],
            trace := trace s7 @ Stamp_events s\<rparr>"
    using 8 il unfolding Draw_stamp_Inr_iff [OF p7]
    by (simp add: e1 e2 e3 e4 e5 e6 e7 Stamp_events_def)
  have ok: "frame_ok inp s"
    unfolding frame_ok_def using i0 il o3 o4 o5 o6 o7 by simp
  have "s' = frame_state inp c q s"
    unfolding e8 e7 e6 e5 e4 e3 e2 e1
    by (cases s)
      (simp add: frame_state_def frame_events_def Rotate_events_def Update_events_def
        frame_marker_def)
  with ok sy show ?thesis by blast
qed

lemma Frame_Inr_I:
  assumes ok: "frame_ok inp s"
    and sy: "sync_result (hrSetEventOnCompletion inp) s = Some (c, q)"
  shows "Frame inp s = Inr (frame_state inp c q s)"
proof -
  let ?i = "frame_slot s"
  let ?fr = "mFrameResources s ! ?i"
  from ok have i0: "0 \<le> (mCurrFrameResourceIndex s + 1) smod gNumFrameResources"
    and il: "?i < length (mFrameResources s)"
    and o3: "\<forall>e\<in>set (mAllRitems s). dirty e \<longrightarrow> ObjCBIndex e < length (ObjectCB ?fr)"
    and o4: "\<forall>km\<in>set (mMaterials s). mat_dirty km \<longrightarrow> MatCBIndex (snd km) < length (MaterialCB ?fr)"
    and o5: "0 < length (PassCB ?fr)"
    and o6: "\<forall>r\<in>set (mOpaqueRitems s). r < length (mAllRitems s) \<and>
         map_of (mMaterials s) (Mat (mAllRitems s ! r)) \<noteq> None"
    and hr: "hrAllocReset inp" "hrCommandListReset inp" "hrClose inp" "hrPresent inp"
    and sc: "SwapChainBufferCount s \<noteq> 0"
    unfolding frame_ok_def by simp_all
  define s1 where "s1 = s\<lparr>mCurrFrameResourceIndex := (mCurrFrameResourceIndex s + 1) smod gNumFrameResources,
            mCurrFrameResource := Some ?i, trace := trace s @ [EvRotate ?i]\<rparr>"
  define s2 where "s2 = s1\<lparr>fenceCompleted := c, queuedSignals := q,
                 trace := trace s1 @ Synchronize_events s\<rparr>"
  define s3 where "s3 = s2\<lparr>mAllRitems := map decr (mAllRitems s),
            mFrameResources := (mFrameResources s)[?i := ?fr
               \<lparr>ObjectCB := apply_writes (obj_writes (mAllRitems s)) (ObjectCB ?fr)\<rparr>],
            trace := trace s2 @
              map (\<lambda>e. EvCpuTouch ?i (ObjectCBWrite (ObjCBIndex e)) (Fence ?fr) c)
                (filter dirty (mAllRitems s))\<rparr>"
  define s4 where "s4 = s3\<lparr>mMaterials := map mat_decr (mMaterials s),
            mFrameResources := (mFrameResources s)[?i := ?fr
               \<lparr>ObjectCB := apply_writes (obj_writes (mAllRitems s)) (ObjectCB ?fr),
                MaterialCB := apply_writes (mat_writes (mMaterials s)) (MaterialCB ?fr)\<rparr>],
            trace := trace s3 @
              map (\<lambda>km. EvCpuTouch ?i (MaterialCBWrite (MatCBIndex (snd km))) (Fence ?fr) c)
                (filter mat_dirty (mMaterials s))\<rparr>"
  define s5 where "s5 = s4\<lparr>mFrameResources := (mFrameResources s)[?i := ?fr
               \<lparr>ObjectCB := apply_writes (obj_writes (mAllRitems s)) (ObjectCB ?fr),
                MaterialCB := apply_writes (mat_writes (mMaterials s)) (MaterialCB ?fr),
                PassCB := (PassCB ?fr)[0 := Some (passConstants inp)]\<rparr>],
            trace := trace s4 @ [EvCpuTouch ?i (PassCBWrite 0) (Fence ?fr) c]\<rparr>"
  define s6 where "s6 = s5\<lparr>mFrameResources := (mFrameResources s)[?i := ?fr
               \<lparr>ObjectCB := apply_writes (obj_writes (mAllRitems s)) (ObjectCB ?fr),
                MaterialCB := apply_writes (mat_writes (mMaterials s)) (MaterialCB ?fr),
                PassCB := (PassCB ?fr)[0 := Some (passConstants inp)],
                CmdListAllocResets := CmdListAllocResets ?fr + 1\<rparr>],
            trace := trace s5 @ Record_events s c\<rparr>"
  define s7 where "s7 = s6\<lparr>mCurrBackBuffer := (mCurrBackBuffer s + 1) smod SwapChainBufferCount s,
            trace := trace s6 @ [EvSubmit, EvPresent]\<rparr>"
  have 1: "Update_rotate s = Inr s1"
    unfolding Update_rotate_Inr_iff s1_def using i0 il by simp
  have p1: "mCurrFrameResource s1 = Some ?i" "?i < length (mFrameResources s1)"
    using il by (simp_all add: s1_def)
  have 2: "Update_wait (hrSetEventOnCompletion inp) s1 = Inr s2"
    unfolding Update_wait_Inr_iff [OF p1] using sy
    by (auto simp: s1_def s2_def sync_result_def must_wait_def frame_marker_def
        Synchronize_events_def split: if_splits)
  have p2: "mCurrFrameResource s2 = Some ?i" "?i < length (mFrameResources s2)"
    using il by (simp_all add: s1_def s2_def)
  have 3: "UpdateObjectCBs s2 = Inr s3"
    unfolding UpdateObjectCBs_Inr_iff [OF p2] using o3 by (simp add: s1_def s2_def s3_def)
  have p3: "mCurrFrameResource s3 = Some ?i" "?i < length (mFrameResources s3)"
    using il by (simp_all add: s1_def s2_def s3_def)
  have 4: "UpdateMaterialCBs s3 = Inr s4"
    unfolding UpdateMaterialCBs_Inr_iff [OF p3] using o4 il by (simp add: s1_def s2_def s3_def s4_def)
  have p4: "mCurrFrameResource s4 = Some ?i" "?i < length (mFrameResources s4)"
    using il by (simp_all add: s1_def s2_def s3_def s4_def)
  have 5: "UpdateMainPassCB (passConstants inp) s4 = Inr s5"
    unfolding UpdateMainPassCB_Inr_iff [OF p4] using o5 il
    by (simp add: s1_def s2_def s3_def s4_def s5_def)
  have p5: "mCurrFrameResource s5 = Some ?i" "?i < length (mFrameResources s5)"
    using il by (simp_all add: s1_def s2_def s3_def s4_def s5_def)
  have q5: "mAllRitems s5 = map decr (mAllRitems s)" "mMaterials s5 = map mat_decr (mMaterials s)"
    "mOpaqueRitems s5 = mOpaqueRitems s" "objCBByteSize s5 = objCBByteSize s"
    "matCBByteSize s5 = matCBByteSize s" "fenceCompleted s5 = c"
    by (simp_all add: s1_def s2_def s3_def s4_def s5_def)
  have 6: "Draw_record inp s5 = Inr s6"
    unfolding Draw_record_Inr_iff [OF p5] q5 draw_ok_decr draw_events_decr [OF o6]
    using o6 hr il
    by (simp add: s1_def s2_def s3_def s4_def s5_def s6_def Record_events_def frame_marker_def)
  have 7: "Draw_submit_present inp s6 = Inr s7"
    unfolding Draw_submit_present_Inr_iff using hr sc
    by (simp add: s1_def s2_def s3_def s4_def s5_def s6_def s7_def)
  have p7: "mCurrFrameResource s7 = Some ?i" "?i < length (mFrameResources s7)"
    using il by (simp_all add: s1_def s2_def s3_def s4_def s5_def s6_def s7_def)
  have 8: "Draw_stamp s7 = Inr (frame_state inp c q s)"
    unfolding Draw_stamp_Inr_iff [OF p7] using il
    unfolding s7_def s6_def s5_def s4_def s3_def s2_def s1_def
    by (cases s)
      (simp add: frame_state_def frame_events_def Rotate_events_def Update_events_def
        Stamp_events_def frame_marker_def)
  show ?thesis
    unfolding Frame_def Update_def Draw_def OnKeyboardInput_def UpdateCamera_def
      AnimateMaterials_def
    by (simp add: 1 2 3 4 5 6 7 8)
qed

lemma Frame_Inr_iff:
  "Frame inp s = Inr s' \<longleftrightarrow>
     frame_ok inp s \<and>
     (\<exists>c q. sync_result (hrSetEventOnCompletion inp) s = Some (c, q) \<and> s' = frame_state inp c q s)"
  using Frame_Inr_D [of inp s s'] Frame_Inr_I [of inp s] by blast

subsection \<open>The wait\<close>

lemma WaitForSingleObject_Some_D:
  "WaitForSingleObject f c q = Some (c', q') \<Longrightarrow> f \<le> c' \<and> (\<exists>pre. c # q = pre @ c' # q')"
proof (induction q arbitrary: c)
  case Nil
  then show ?case by (auto split: if_splits)
next
  case (Cons v q)
  show ?case
  proof (cases "f \<le> c")
    case True
    with Cons.prems show ?thesis by auto
  next
    case False
    with Cons.prems have "WaitForSingleObject f v q = Some (c', q')" by simp
    from Cons.IH [OF this] obtain pre where "f \<le> c'" "v # q = pre @ c' # q'" by blast
    then have "c # v # q = (c # pre) @ c' # q'" by simp
    with \<open>f \<le> c'\<close> show ?thesis by blast
  qed
qed

lemma WaitForSingleObject_Some_I:
  "\<exists>v\<in>set (c # q). f \<le> v \<Longrightarrow> \<exists>c' q'. WaitForSingleObject f c q = Some (c', q')"
  by (induction q arbitrary: c) auto

lemma WaitForSingleObject_skip:
  "f \<le> c \<Longrightarrow> WaitForSingleObject f c q = Some (c, q)"
  by (cases q) simp_all

lemma sync_result_D:
  assumes "sync_result hr s = Some (c, q)"
  shows "(frame_marker s = 0 \<or> frame_marker s \<le> c) \<and>
         (\<exists>pre. fenceCompleted s # queuedSignals s = pre @ c # q) \<and>
         (\<not> must_wait s \<longrightarrow> c = fenceCompleted s \<and> q = queuedSignals s)"
proof (cases "must_wait s")
  case True
  with assms have "WaitForSingleObject (frame_marker s) (fenceCompleted s) (queuedSignals s) = Some (c, q)"
    by (simp add: sync_result_def split: if_splits)
  from WaitForSingleObject_Some_D [OF this] True show ?thesis by simp
next
  case False
  with assms have "c = fenceCompleted s" "q = queuedSignals s"
    by (simp_all add: sync_result_def)
  with False show ?thesis by (auto simp: must_wait_def)
qed

subsection \<open>Well-formed states are kept\<close>

lemma smod_3: "0 \<le> (i::int) \<Longrightarrow> i smod 3 = i mod 3"
  by (simp add: signed_modulo_int_def sgn_if)

lemma frame_slot_less:
  "0 \<le> mCurrFrameResourceIndex s \<Longrightarrow> frame_slot s < 3"
  by (simp add: frame_slot_def gNumFrameResources_def smod_3)

lemma frame_slot_eq:
  "0 \<le> mCurrFrameResourceIndex s \<Longrightarrow>
   int (frame_slot s) = (mCurrFrameResourceIndex s + 1) mod 3"
  by (simp add: frame_slot_def gNumFrameResources_def smod_3)

lemma frame_ok_if_scene_ok:
  assumes "scene_ok s" "device_ok inp" "SwapChainBufferCount s \<noteq> 0"
  shows "frame_ok inp s"
proof -
  from assms(1) have i: "0 \<le> mCurrFrameResourceIndex s" and l: "length (mFrameResources s) = 3"
    by (simp_all add: scene_ok_def gNumFrameResources_def)
  from i l have sl: "frame_slot s < length (mFrameResources s)"
    using frame_slot_less [of s] by simp
  then have mem: "mFrameResources s ! frame_slot s \<in> set (mFrameResources s)" by simp
  from i have "0 \<le> (mCurrFrameResourceIndex s + 1) smod gNumFrameResources"
    by (simp add: gNumFrameResources_def smod_3)
  with assms sl mem show ?thesis
    unfolding frame_ok_def scene_ok_def device_ok_def by auto
qed

lemma scene_ok_frame_state:
  assumes "scene_ok s"
  shows "scene_ok (frame_state inp c q s)"
proof -
  from assms have i: "0 \<le> mCurrFrameResourceIndex s" and l: "length (mFrameResources s) = 3"
    by (simp_all add: scene_ok_def gNumFrameResources_def)
  from i l have sl: "frame_slot s < length (mFrameResources s)"
    using frame_slot_less [of s] by simp
  then have mem: "mFrameResources s ! frame_slot s \<in> set (mFrameResources s)" by simp
  have idx: "0 \<le> (mCurrFrameResourceIndex s + 1) smod gNumFrameResources"
    "(mCurrFrameResourceIndex s + 1) smod gNumFrameResources < gNumFrameResources"
    using i by (simp_all add: gNumFrameResources_def smod_3)
  have o: "map ObjCBIndex (map decr (mAllRitems s)) = map ObjCBIndex (mAllRitems s)"
    by simp
  have fr: "\<forall>fr\<in>set (mFrameResources (frame_state inp c q s)).
        length (ObjectCB fr) = length (mAllRitems s) \<and>
        length (MaterialCB fr) = length (mMaterials s) \<and>
        length (PassCB fr) = 1"
  proof
    fix fr assume "fr \<in> set (mFrameResources (frame_state inp c q s))"
    then have "fr \<in> set ((mFrameResources s)[frame_slot s :=
           (mFrameResources s ! frame_slot s)
             \<lparr>ObjectCB := apply_writes (obj_writes (mAllRitems s))
                            (ObjectCB (mFrameResources s ! frame_slot s)),
              MaterialCB := apply_writes (mat_writes (mMaterials s))
                              (MaterialCB (mFrameResources s ! frame_slot s)),
              PassCB := (PassCB (mFrameResources s ! frame_slot s))[0 := Some (passConstants inp)],
              CmdListAllocResets := CmdListAllocResets (mFrameResources s ! frame_slot s) + 1,
              Fence := mCurrentFence s + 1\<rparr>])"
      by (simp add: frame_state_def)
    then show "length (ObjectCB fr) = length (mAllRitems s) \<and>
        length (MaterialCB fr) = length (mMaterials s) \<and> length (PassCB fr) = 1"
      using assms mem by (auto simp: scene_ok_def dest!: set_update_subset_insert [THEN subsetD])
  qed
  show ?thesis
    unfolding scene_ok_def
    using assms idx fr
    by (simp add: frame_state_def scene_ok_def o mat_decr_def map_of_mat_decr del: map_map)
qed

lemma scene_ok_GpuExecute: "scene_ok s \<Longrightarrow> scene_ok (GpuExecute s)"
  by (auto simp: scene_ok_def GpuExecute_def split: list.splits)

lemma word64_less_Suc: "(x :: 64 word) + 1 \<noteq> 0 \<Longrightarrow> x < x + 1"
  using unatSuc [of x] by (simp add: word_less_nat_alt add.commute)

lemma sorted_wrt_less_last:
  "sorted_wrt (<) (xs :: 64 word list) \<Longrightarrow> x \<in> set xs \<Longrightarrow> x \<le> last xs"
proof (induction xs)
  case Nil
  then show ?case by simp
next
  case (Cons a xs)
  show ?case
  proof (cases "xs = []")
    case True
    with Cons.prems show ?thesis by simp
  next
    case False
    then have l: "last xs \<in> set xs" by simp
    from Cons.prems have "x = a \<or> x \<in> set xs" by auto
    then show ?thesis
    proof
      assume "x = a"
      with Cons.prems l False show ?thesis by (auto simp: less_imp_le)
    next
      assume "x \<in> set xs"
      with Cons False show ?thesis by simp
    qed
  qed
qed

lemma fence_ok_frame_state:
  assumes f: "fence_ok s" and sy: "sync_result hr s = Some (c, q)"
    and nw: "mCurrentFence s + 1 \<noteq> 0"
  shows "fence_ok (frame_state inp c q s)"
proof -
  let ?m = "mCurrentFence s"
  from sync_result_D [OF sy] obtain pre where
    pre: "fenceCompleted s # queuedSignals s = pre @ c # q" by blast
  from f have so: "sorted_wrt (<) (pre @ c # q)" and la: "last (pre @ c # q) = ?m"
    and fe: "\<forall>fr\<in>set (mFrameResources s). Fence fr \<le> ?m"
    by (simp_all add: fence_ok_def pre)
  from so have so': "sorted_wrt (<) (c # q)" by (simp add: sorted_wrt_append)
  from la have la': "last (c # q) = ?m" by simp
  have le: "\<forall>x\<in>set (c # q). x \<le> ?m"
    using sorted_wrt_less_last [OF so'] la' by auto
  have lt: "?m < ?m + 1" using nw by (rule word64_less_Suc)
  have 1: "sorted_wrt (<) (c # q @ [?m + 1])"
    using so' le lt by (auto simp: sorted_wrt_append)
  have 2: "\<forall>fr\<in>set (mFrameResources (frame_state inp c q s)). Fence fr \<le> ?m + 1"
  proof
    fix fr assume "fr \<in> set (mFrameResources (frame_state inp c q s))"
    then have "Fence fr = ?m + 1 \<or> fr \<in> set (mFrameResources s)"
      by (auto simp: frame_state_def dest!: set_update_subset_insert [THEN subsetD])
    with fe lt show "Fence fr \<le> ?m + 1" by (auto simp: less_imp_le intro: order_trans)
  qed
  show ?thesis
    unfolding fence_ok_def using 1 2 by (simp add: frame_state_def)
qed

lemma fence_ok_GpuExecute: "fence_ok s \<Longrightarrow> fence_ok (GpuExecute s)"
  by (auto simp: fence_ok_def GpuExecute_def split: list.splits)

lemma sync_result_exists:
  assumes f: "fence_ok s" and l: "frame_slot s < length (mFrameResources s)" and hr: "hr"
  shows "\<exists>c q. sync_result hr s = Some (c, q)"
proof (cases "must_wait s")
  case False
  then show ?thesis by (simp add: sync_result_def)
next
  case True
  from l have "mFrameResources s ! frame_slot s \<in> set (mFrameResources s)" by simp
  with f have "frame_marker s \<le> last (fenceCompleted s # queuedSignals s)"
    unfolding fence_ok_def frame_marker_def by metis
  moreover have "last (fenceCompleted s # queuedSignals s) \<in> set (fenceCompleted s # queuedSignals s)"
    by (rule last_in_set) simp
  ultimately have "\<exists>v\<in>set (fenceCompleted s # queuedSignals s). frame_marker s \<le> v" by blast
  from WaitForSingleObject_Some_I [OF this] True hr show ?thesis
    by (simp add: sync_result_def)
qed

lemma Frame_completes:
  assumes "scene_ok s" "fence_ok s" "device_ok inp" "SwapChainBufferCount s \<noteq> 0"
  shows "\<exists>c q. sync_result (hrSetEventOnCompletion inp) s = Some (c, q) \<and>
               Frame inp s = Inr (frame_state inp c q s)"
proof -
  from assms(1) have "frame_slot s < length (mFrameResources s)"
    using frame_slot_less [of s] by (simp add: scene_ok_def gNumFrameResources_def)
  from sync_result_exists [OF assms(2) this, of "hrSetEventOnCompletion inp"] assms(3)
  obtain c q where sy: "sync_result (hrSetEventOnCompletion inp) s = Some (c, q)"
    by (auto simp: device_ok_def)
  from Frame_Inr_I [OF frame_ok_if_scene_ok [OF assms(1,3,4)] sy] sy show ?thesis by blast
qed

subsection \<open>Runs\<close>

lemma frame_state_mCurrentFence [simp]:
  "mCurrentFence (frame_state inp c q s) = mCurrentFence s + 1"
  by (simp add: frame_state_def)

lemma GpuExecute_simps [simp]:
  "mCurrentFence (GpuExecute s) = mCurrentFence s"
  "mCurrFrameResourceIndex (GpuExecute s) = mCurrFrameResourceIndex s"
  "mCurrFrameResource (GpuExecute s) = mCurrFrameResource s"
  "mFrameResources (GpuExecute s) = mFrameResources s"
  "mAllRitems (GpuExecute s) = mAllRitems s"
  "mMaterials (GpuExecute s) = mMaterials s"
  "mOpaqueRitems (GpuExecute s) = mOpaqueRitems s"
  "mCurrBackBuffer (GpuExecute s) = mCurrBackBuffer s"
  "SwapChainBufferCount (GpuExecute s) = SwapChainBufferCount s"
  "objCBByteSize (GpuExecute s) = objCBByteSize s"
  "matCBByteSize (GpuExecute s) = matCBByteSize s"
  "trace (GpuExecute s) = trace s"
  by (simp_all add: GpuExecute_def split: list.splits)

lemma run_invariant:
  assumes "run acts s = Inr s'" and "P s"
    and gpu: "\<And>s. P s \<Longrightarrow> P (GpuExecute s)"
    and cpu: "\<And>inp c q s. P s \<Longrightarrow> frame_ok inp s \<Longrightarrow>
              sync_result (hrSetEventOnCompletion inp) s = Some (c, q) \<Longrightarrow> P (frame_state inp c q s)"
  shows "P s'"
  using assms(1,2)
proof (induction acts arbitrary: s)
  case Nil
  then show ?case by simp
next
  case (Cons a acts)
  show ?case
  proof (cases a)
    case Gpu
    with Cons.prems have "run acts (GpuExecute s) = Inr s'" by simp
    from Cons.IH [OF this gpu [OF Cons.prems(2)]] show ?thesis .
  next
    case (Cpu inp)
    with Cons.prems obtain s1 where F: "Frame inp s = Inr s1" and r: "run acts s1 = Inr s'"
      by (auto split: sum.splits)
    from Frame_Inr_D [OF F] obtain c q where
      "frame_ok inp s" "sync_result (hrSetEventOnCompletion inp) s = Some (c, q)"
      "s1 = frame_state inp c q s" by blast
    with cpu [OF Cons.prems(2)] have "P s1" by blast
    from Cons.IH [OF r this] show ?thesis .
  qed
qed

lemma run_scene_ok: "run acts s = Inr s' \<Longrightarrow> scene_ok s \<Longrightarrow> scene_ok s'"
  by (erule run_invariant) (auto intro: scene_ok_GpuExecute scene_ok_frame_state)

lemma unat_fence_step:
  assumes "unat (x :: 64 word) + Suc n < 2 ^ 64"
  shows "x + 1 \<noteq> 0 \<and> unat (x + 1) + n < 2 ^ 64"
proof -
  from assms have "unat x + unat (1 :: 64 word) < 2 ^ LENGTH(64)" by simp
  then have u: "unat (x + 1) = unat x + 1"
    by (simp add: unat_add_lem [THEN iffD1])
  then have "unat (x + 1) \<noteq> 0" by simp
  then have "x + 1 \<noteq> 0" by (metis unat_0)
  with assms u show ?thesis by simp
qed

lemma run_fence_ok:
  assumes "run acts s = Inr s'" "fence_ok s" "unat (mCurrentFence s) + frames acts < 2 ^ 64"
  shows "fence_ok s' \<and> mCurrentFence s' = mCurrentFence s + of_nat (frames acts)"
  using assms
proof (induction acts arbitrary: s)
  case Nil
  then show ?case by simp
next
  case (Cons a acts)
  show ?case
  proof (cases a)
    case Gpu
    with Cons.prems have "run acts (GpuExecute s) = Inr s'" by simp
    from Cons.IH [OF this fence_ok_GpuExecute [OF Cons.prems(2)]] Cons.prems(3) Gpu
    show ?thesis by simp
  next
    case (Cpu inp)
    with Cons.prems obtain s1 where F: "Frame inp s = Inr s1" and r: "run acts s1 = Inr s'"
      by (auto split: sum.splits)
    from Frame_Inr_D [OF F] obtain c q where
      sy: "sync_result (hrSetEventOnCompletion inp) s = Some (c, q)" and
      s1: "s1 = frame_state inp c q s" by blast
    from Cons.prems(3) Cpu have "unat (mCurrentFence s) + Suc (frames acts) < 2 ^ 64" by simp
    from unat_fence_step [OF this] have nw: "mCurrentFence s + 1 \<noteq> 0"
      and b: "unat (mCurrentFence s + 1) + frames acts < 2 ^ 64" by simp_all
    have f1: "fence_ok s1" unfolding s1 by (rule fence_ok_frame_state [OF Cons.prems(2) sy nw])
    from Cons.IH [OF r f1] b s1 Cpu show ?thesis by (simp add: add.assoc)
  qed
qed

lemma run_completes:
  assumes "scene_ok s" "fence_ok s" "devices_ok acts"
    "unat (mCurrentFence s) + frames acts < 2 ^ 64" "SwapChainBufferCount s \<noteq> 0"
  shows "\<exists>s'. run acts s = Inr s'"
  using assms
proof (induction acts arbitrary: s)
  case Nil
  then show ?case by simp
next
  case (Cons a acts)
  show ?case
  proof (cases a)
    case Gpu
    with Cons.IH [OF scene_ok_GpuExecute [OF Cons.prems(1)] fence_ok_GpuExecute [OF Cons.prems(2)]]
      Cons.prems(3,4,5)
    show ?thesis by simp
  next
    case (Cpu inp)
    with Cons.prems(3) have d: "device_ok inp" and ds: "devices_ok acts" by simp_all
    from Frame_completes [OF Cons.prems(1,2) d Cons.prems(5)] obtain c q where
      sy: "sync_result (hrSetEventOnCompletion inp) s = Some (c, q)" and
      F: "Frame inp s = Inr (frame_state inp c q s)" by blast
    from Cons.prems(4) Cpu have "unat (mCurrentFence s) + Suc (frames acts) < 2 ^ 64" by simp
    from unat_fence_step [OF this] have nw: "mCurrentFence s + 1 \<noteq> 0"
      and b: "unat (mCurrentFence (frame_state inp c q s)) + frames acts < 2 ^ 64" by simp_all
    have sc: "SwapChainBufferCount (frame_state inp c q s) \<noteq> 0"
      using Cons.prems(5) by (simp add: frame_state_def)
    from Cons.IH [OF scene_ok_frame_state [OF Cons.prems(1)]
        fence_ok_frame_state [OF Cons.prems(2) sy nw] ds b sc] F Cpu
    show ?thesis by simp
  qed
qed

subsection \<open>The initial state\<close>

lemma Initialize_fields:
  "mCurrentFence (Initialize c0 n ob mb dflt shade I W T) = c0"
  "fenceCompleted (Initialize c0 n ob mb dflt shade I W T) = c0"
  "queuedSignals (Initialize c0 n ob mb dflt shade I W T) = []"
  "mCurrFrameResourceIndex (Initialize c0 n ob mb dflt shade I W T) = 0"
  "mCurrFrameResource (Initialize c0 n ob mb dflt shade I W T) = None"
  "mCurrBackBuffer (Initialize c0 n ob mb dflt shade I W T) = 0"
  "SwapChainBufferCount (Initialize c0 n ob mb dflt shade I W T) = n"
  "objCBByteSize (Initialize c0 n ob mb dflt shade I W T) = ob"
  "matCBByteSize (Initialize c0 n ob mb dflt shade I W T) = mb"
  "trace (Initialize c0 n ob mb dflt shade I W T) = []"
  "length (mAllRitems (Initialize c0 n ob mb dflt shade I W T)) = 27"
  "length (mMaterials (Initialize c0 n ob mb dflt shade I W T)) = 5"
  "mFrameResources (Initialize c0 n ob mb dflt shade I W T) = replicate 3 (FrameResource_new 1 27 5)"
  by (simp_all add: Initialize_def BuildFrameResources_def BuildRenderItems_def BuildMaterials_def
      CrateApp_new_def gNumFrameResources_def Let_def)

lemma Initialize_ObjCBIndex:
  "map ObjCBIndex (mAllRitems (Initialize c0 n ob mb dflt shade I W T)) =
     [0, 1, 2, 3, 4, 5, 6, 7, 8, 9, 10, 11, 12, 13, 14, 15, 16, 17, 18, 19, 20, 21, 22, 23, 24, 25, 26]"
  by (simp add: Initialize_def BuildFrameResources_def BuildRenderItems_def BuildMaterials_def
      CrateApp_new_def Let_def ritem_def RenderItem_default_def)

lemma Initialize_NumFramesDirty:
  "\<forall>e\<in>set (mAllRitems (Initialize c0 n ob mb dflt shade I W T)). NumFramesDirty e = gNumFrameResources"
  by (simp add: Initialize_def BuildFrameResources_def BuildRenderItems_def BuildMaterials_def
      CrateApp_new_def Let_def ritem_def RenderItem_default_def)

lemma scene_ok_Initialize: "scene_ok (Initialize c0 n ob mb dflt shade I W T)"
  by (simp add: scene_ok_def Initialize_def BuildFrameResources_def BuildRenderItems_def
      BuildMaterials_def CrateApp_new_def gNumFrameResources_def ritem_def RenderItem_default_def
      FrameResource_new_def UploadBuffer_new_def Let_def)

lemma fence_ok_Initialize: "fence_ok (Initialize c0 n ob mb dflt shade I W T)"
  by (simp add: fence_ok_def Initialize_fields FrameResource_new_def)

subsection \<open>The fields of the state after a frame\<close>

lemma frame_state_simps [simp]:
  "mCurrBackBuffer (frame_state inp c q s) = (mCurrBackBuffer s + 1) smod SwapChainBufferCount s"
  "SwapChainBufferCount (frame_state inp c q s) = SwapChainBufferCount s"
  "objCBByteSize (frame_state inp c q s) = objCBByteSize s"
  "matCBByteSize (frame_state inp c q s) = matCBByteSize s"
  "fenceCompleted (frame_state inp c q s) = c"
  "queuedSignals (frame_state inp c q s) = q @ [mCurrentFence s + 1]"
  "mCurrFrameResource (frame_state inp c q s) = Some (frame_slot s)"
  "mCurrFrameResourceIndex (frame_state inp c q s) =
     (mCurrFrameResourceIndex s + 1) smod gNumFrameResources"
  "mMaterials (frame_state inp c q s) = map mat_decr (mMaterials s)"
  "mAllRitems (frame_state inp c q s) = map decr (mAllRitems s)"
  "mOpaqueRitems (frame_state inp c q s) = mOpaqueRitems s"
  "trace (frame_state inp c q s) = trace s @ frame_events s c"
  "length (mFrameResources (frame_state inp c q s)) = length (mFrameResources s)"
  by (simp_all add: frame_state_def)

lemma frame_state_slot:
  assumes "frame_slot s < length (mFrameResources s)"
  shows "Fence (mFrameResources (frame_state inp c q s) ! frame_slot s) = mCurrentFence s + 1"
    and "ObjectCB (mFrameResources (frame_state inp c q s) ! frame_slot s) =
           apply_writes (obj_writes (mAllRitems s)) (ObjectCB (mFrameResources s ! frame_slot s))"
    and "MaterialCB (mFrameResources (frame_state inp c q s) ! frame_slot s) =
           apply_writes (mat_writes (mMaterials s)) (MaterialCB (mFrameResources s ! frame_slot s))"
    and "PassCB (mFrameResources (frame_state inp c q s) ! frame_slot s) =
           (PassCB (mFrameResources s ! frame_slot s))[0 := Some (passConstants inp)]"
    and "CmdListAllocResets (mFrameResources (frame_state inp c q s) ! frame_slot s) =
           CmdListAllocResets (mFrameResources s ! frame_slot s) + 1"
  using assms by (simp_all add: frame_state_def)

lemma frame_state_other_slot:
  "j \<noteq> frame_slot s \<Longrightarrow>
   mFrameResources (frame_state inp c q s) ! j = mFrameResources s ! j"
  by (simp add: frame_state_def)

lemma run_index:
  assumes "run acts s = Inr s'" "0 \<le> mCurrFrameResourceIndex s"
  shows "mCurrFrameResourceIndex s' =
     (if frames acts = 0 then mCurrFrameResourceIndex s
      else (mCurrFrameResourceIndex s + int (frames acts)) mod gNumFrameResources)"
  using assms
proof (induction acts arbitrary: s)
  case Nil
  then show ?case by simp
next
  case (Cons a acts)
  show ?case
  proof (cases a)
    case Gpu
    with Cons.prems have "run acts (GpuExecute s) = Inr s'" by simp
    from Cons.IH [OF this] Cons.prems(2) Gpu show ?thesis by simp
  next
    case (Cpu inp)
    with Cons.prems obtain s1 where F: "Frame inp s = Inr s1" and r: "run acts s1 = Inr s'"
      by (auto split: sum.splits)
    from Frame_Inr_D [OF F] obtain c q where s1: "s1 = frame_state inp c q s" by blast
    have i1: "mCurrFrameResourceIndex s1 = (mCurrFrameResourceIndex s + 1) mod 3"
      using Cons.prems(2) by (simp add: s1 gNumFrameResources_def smod_3)
    then have "0 \<le> mCurrFrameResourceIndex s1" by simp
    from Cons.IH [OF r this] i1 Cpu show ?thesis
      by (simp add: gNumFrameResources_def mod_simps ac_simps)
  qed
qed

subsection \<open>The first four frames of the instance\<close>

lemma device_ok_demo [simp]: "device_ok demo_inp" "hrSetEventOnCompletion demo_inp"
  by (simp_all add: device_ok_def demo_inp_def)

lemma scene_ok_demo: "scene_ok demo_app" "scene_ok demo1" "scene_ok demo2" "scene_ok demo3"
  "scene_ok demo4"
  unfolding demo1_def demo2_def demo3_def demo4_def
  by (simp_all add: scene_ok_frame_state scene_ok_Initialize demo_app_def)

lemma demo_swap_chain:
  "SwapChainBufferCount demo_app \<noteq> 0" "SwapChainBufferCount demo1 \<noteq> 0"
  "SwapChainBufferCount demo2 \<noteq> 0" "SwapChainBufferCount demo3 \<noteq> 0"
  by (simp_all add: demo1_def demo2_def demo3_def frame_state_def)
    (simp_all add: demo_app_def Initialize_fields)

lemma demo_index:
  "mCurrFrameResourceIndex demo_app = 0" "mCurrFrameResourceIndex demo1 = 1"
  "mCurrFrameResourceIndex demo2 = 2" "mCurrFrameResourceIndex demo3 = 0"
  "mCurrFrameResourceIndex demo4 = 1"
  by (simp_all add: demo1_def demo2_def demo3_def demo4_def demo_app_def Initialize_fields
      gNumFrameResources_def smod_3)

lemma demo_slot:
  "frame_slot demo_app = 1" "frame_slot demo1 = 2" "frame_slot demo2 = 0" "frame_slot demo3 = 1"
  by (simp_all add: frame_slot_def demo_index gNumFrameResources_def smod_3)

lemma demo_fence:
  "mCurrentFence demo_app = 0" "mCurrentFence demo1 = 1" "mCurrentFence demo2 = 2"
  "mCurrentFence demo3 = 3" "mCurrentFence demo4 = 4"
  by (simp_all add: demo1_def demo2_def demo3_def demo4_def demo_app_def Initialize_fields)

lemma demo_gpu:
  "fenceCompleted demo_app = 0" "queuedSignals demo_app = []"
  "fenceCompleted demo1 = 0" "queuedSignals demo1 = [1]"
  "fenceCompleted demo2 = 0" "queuedSignals demo2 = [1, 2]"
  "fenceCompleted demo3 = 0" "queuedSignals demo3 = [1, 2, 3]"
  "fenceCompleted demo4 = 1" "queuedSignals demo4 = [2, 3, 4]"
  by (simp_all add: demo1_def demo2_def demo3_def demo4_def demo_fence)
    (simp_all add: demo_app_def Initialize_fields)

lemma demo_length:
  "length (mFrameResources demo_app) = 3" "length (mFrameResources demo1) = 3"
  "length (mFrameResources demo2) = 3" "length (mFrameResources demo3) = 3"
  by (simp_all add: demo1_def demo2_def demo3_def)
    (simp_all add: demo_app_def Initialize_fields)

lemma demo_marker:
  "frame_marker demo_app = 0" "frame_marker demo1 = 0" "frame_marker demo2 = 0"
  "frame_marker demo3 = 1"
proof -
  have a: "Fence (mFrameResources demo_app ! j) = 0" if "j < 3" for j
    using that by (simp add: demo_app_def Initialize_fields FrameResource_new_def)
  show "frame_marker demo_app = 0" by (simp add: frame_marker_def demo_slot a)
  have "Fence (mFrameResources (frame_state demo_inp 0 [] demo_app) ! frame_slot demo_app) =
      mCurrentFence demo_app + 1"
    by (rule frame_state_slot(1)) (simp add: demo_slot demo_length)
  then have b1: "Fence (mFrameResources demo1 ! Suc 0) = 1"
    by (simp add: demo1_def demo_slot demo_fence)
  have b2: "Fence (mFrameResources demo1 ! 2) = 0" "Fence (mFrameResources demo1 ! 0) = 0"
    by (simp_all add: demo1_def frame_state_other_slot demo_slot a)
  show "frame_marker demo1 = 0" by (simp add: frame_marker_def demo_slot b2)
  have c: "Fence (mFrameResources demo2 ! 0) = 0" "Fence (mFrameResources demo2 ! Suc 0) = 1"
    by (simp_all add: demo2_def frame_state_other_slot demo_slot b1 b2)
  show "frame_marker demo2 = 0" by (simp add: frame_marker_def demo_slot c)
  have d: "Fence (mFrameResources demo3 ! Suc 0) = 1"
    by (simp add: demo3_def frame_state_other_slot demo_slot c)
  show "frame_marker demo3 = 1" by (simp add: frame_marker_def demo_slot d)
qed

lemma demo_sync:
  "sync_result True demo_app = Some (0, [])"
  "sync_result True demo1 = Some (0, [1])"
  "sync_result True demo2 = Some (0, [1, 2])"
  "sync_result True demo3 = Some (1, [2, 3])"
  by (simp_all add: sync_result_def must_wait_def demo_marker demo_gpu)

lemma demo_Frame:
  "Frame demo_inp demo_app = Inr demo1"
  "Frame demo_inp demo1 = Inr demo2"
  "Frame demo_inp demo2 = Inr demo3"
  "Frame demo_inp demo3 = Inr demo4"
proof -
  have "Frame demo_inp demo_app = Inr (frame_state demo_inp 0 [] demo_app)"
    by (rule Frame_Inr_I [OF frame_ok_if_scene_ok [OF scene_ok_demo(1) device_ok_demo(1) demo_swap_chain(1)]])
      (simp add: demo_sync)
  then show "Frame demo_inp demo_app = Inr demo1" by (simp add: demo1_def)
  have "Frame demo_inp demo1 = Inr (frame_state demo_inp 0 [1] demo1)"
    by (rule Frame_Inr_I [OF frame_ok_if_scene_ok [OF scene_ok_demo(2) device_ok_demo(1) demo_swap_chain(2)]])
      (simp add: demo_sync)
  then show "Frame demo_inp demo1 = Inr demo2" by (simp add: demo2_def)
  have "Frame demo_inp demo2 = Inr (frame_state demo_inp 0 [1, 2] demo2)"
    by (rule Frame_Inr_I [OF frame_ok_if_scene_ok [OF scene_ok_demo(3) device_ok_demo(1) demo_swap_chain(3)]])
      (simp add: demo_sync)
  then show "Frame demo_inp demo2 = Inr demo3" by (simp add: demo3_def)
  have "Frame demo_inp demo3 = Inr (frame_state demo_inp 1 [2, 3] demo3)"
    by (rule Frame_Inr_I [OF frame_ok_if_scene_ok [OF scene_ok_demo(4) device_ok_demo(1) demo_swap_chain(4)]])
      (simp add: demo_sync)
  then show "Frame demo_inp demo3 = Inr demo4" by (simp add: demo4_def)
qed

lemma demo_run:
  "run [] demo_app = Inr demo_app"
  "run [Cpu demo_inp] demo_app = Inr demo1"
  "run [Cpu demo_inp, Cpu demo_inp] demo_app = Inr demo2"
  "run [Cpu demo_inp, Cpu demo_inp, Cpu demo_inp] demo_app = Inr demo3"
  "run [Cpu demo_inp, Cpu demo_inp, Cpu demo_inp, Cpu demo_inp] demo_app = Inr demo4"
  by (simp_all add: demo_Frame)

section \<open>CrateApp: the properties of the frame pipeline\<close>

subsection \<open>C4: ring rotation\<close>

lemma no_rotate_in_rest:
  "\<forall>e\<in>set (Synchronize_events s @ Update_events s c @ Record_events s c @ [EvSubmit] @ [EvPresent] @ Stamp_events s). \<forall>i. e \<noteq> EvRotate i"
  by (auto simp: Synchronize_events_def Update_events_def Record_events_def Stamp_events_def)

text \<open>
  C4. Ring rotation. Let \<open>s\<close> be the state that a run of \<open>F - 1\<close> frames (with any steps of
  the device in between) reaches from the state \<^verbatim>\<open>Initialize\<close> builds, and let the \<open>F\<close>-th
  frame take \<open>s\<close> to \<open>s'\<close>. Then the frame has advanced the ring index by exactly 1 modulo
  \<open>gNumFrameResources = 3\<close>; the index, and the slot the frame selected, is \<open>F mod 3\<close>,
  frames being counted from 1 (the index starts at 0 and is incremented before its first
  use); and the one rotation of the frame is the first thing the frame does: its trace
  starts with the rotation and holds no other.
\<close>

theorem ring_rotation:
  assumes "run acts (Initialize c0 n ob mb dflt shade I W T) = Inr s" and "Frame inp s = Inr s'"
  shows "mCurrFrameResourceIndex s' = (mCurrFrameResourceIndex s + 1) mod gNumFrameResources \<and>
         mCurrFrameResourceIndex s' = int (Suc (frames acts)) mod gNumFrameResources \<and>
         mCurrFrameResource s' = Some (Suc (frames acts) mod 3) \<and>
         (\<exists>rest. trace s' = trace s @ EvRotate (Suc (frames acts) mod 3) # rest \<and>
                 (\<forall>e\<in>set rest. \<forall>i. e \<noteq> EvRotate i))"
proof -
  let ?s0 = "Initialize c0 n ob mb dflt shade I W T"
  have i0: "mCurrFrameResourceIndex ?s0 = 0" by (simp add: Initialize_fields)
  have ix: "mCurrFrameResourceIndex s = int (frames acts) mod 3"
    using run_index [OF assms(1)] unfolding i0
    by (cases "frames acts = 0") (simp_all add: gNumFrameResources_def)
  then have nn: "0 \<le> mCurrFrameResourceIndex s" by simp
  from Frame_Inr_D [OF assms(2)] obtain c q where s': "s' = frame_state inp c q s" by blast
  have 1: "mCurrFrameResourceIndex s' = (mCurrFrameResourceIndex s + 1) mod gNumFrameResources"
    using nn by (simp add: s' gNumFrameResources_def smod_3)
  have 2: "mCurrFrameResourceIndex s' = int (Suc (frames acts)) mod gNumFrameResources"
    unfolding 1 ix by (simp add: gNumFrameResources_def mod_simps ac_simps)
  have sl: "frame_slot s = Suc (frames acts) mod 3"
  proof -
    have "int (frame_slot s) = int (Suc (frames acts) mod 3)"
      using frame_slot_eq [OF nn] ix by (simp add: mod_simps ac_simps zmod_int)
    then show ?thesis by simp
  qed
  have 3: "mCurrFrameResource s' = Some (Suc (frames acts) mod 3)"
    by (simp add: s' sl)
  have 4: "trace s' = trace s @ EvRotate (Suc (frames acts) mod 3) #
      (Synchronize_events s @ Update_events s c @ Record_events s c @ [EvSubmit] @ [EvPresent] @
       Stamp_events s)"
    by (simp add: s' frame_events_def Rotate_events_def sl)
  from 1 2 3 4 no_rotate_in_rest [of s c] show ?thesis by blast
qed

theorem ring_rotation_witness:
  "run [Cpu demo_inp, Cpu demo_inp, Cpu demo_inp] demo_app = Inr demo3 \<and>
   Frame demo_inp demo3 = Inr demo4 \<and>
   mCurrFrameResourceIndex demo3 = 0 \<and>
   mCurrFrameResourceIndex demo4 = 1 \<and>
   mCurrFrameResource demo4 = Some 1"
  using ring_rotation [OF demo_run(4) [unfolded demo_app_def] demo_Frame(4)]
  by (simp add: demo_run demo_Frame demo_index)

subsection \<open>C2: the guard of the wait\<close>

text \<open>
  C2. Synchronize guard. With the new current slot selected, the wait of \<^verbatim>\<open>Update\<close> (lines
  268-274) is skipped, that is, the step returns at once and leaves the state as it is,
  if and only if the slot's marker is 0 or the fence's completed value has reached the
  marker. Whenever the step returns, the marker is 0 or the completed value has reached
  it, and the frame resources with their markers, the ring index, the current slot, the
  render items with their dirty countdowns, the materials and the current fence are the
  same as before. When the device call succeeds and a queued signal reaches the marker,
  the step returns.
\<close>

theorem synchronize_guard:
  assumes "mCurrFrameResource s = Some i" and "i < length (mFrameResources s)"
  shows "(Update_wait hr s = Inr s \<longleftrightarrow>
            Fence (mFrameResources s ! i) = 0 \<or> Fence (mFrameResources s ! i) \<le> fenceCompleted s) \<and>
         (\<forall>s'. Update_wait hr s = Inr s' \<longrightarrow>
            (Fence (mFrameResources s ! i) = 0 \<or> Fence (mFrameResources s ! i) \<le> fenceCompleted s') \<and>
            mFrameResources s' = mFrameResources s \<and>
            mCurrFrameResourceIndex s' = mCurrFrameResourceIndex s \<and>
            mCurrFrameResource s' = mCurrFrameResource s \<and>
            mAllRitems s' = mAllRitems s \<and> mMaterials s' = mMaterials s \<and>
            mCurrentFence s' = mCurrentFence s) \<and>
         (hr \<and> (\<exists>v\<in>set (queuedSignals s). Fence (mFrameResources s ! i) \<le> v) \<longrightarrow>
            (\<exists>s'. Update_wait hr s = Inr s'))"
proof -
  let ?f = "Fence (mFrameResources s ! i)"
  have neq: "s\<lparr>fenceCompleted := c, queuedSignals := q, trace := trace s @ [EvBlocked ?f]\<rparr> \<noteq> s"
    for c q
  proof
    assume "s\<lparr>fenceCompleted := c, queuedSignals := q, trace := trace s @ [EvBlocked ?f]\<rparr> = s"
    then have "trace (s\<lparr>fenceCompleted := c, queuedSignals := q,
        trace := trace s @ [EvBlocked ?f]\<rparr>) = trace s" by simp
    then show False by simp
  qed
  have 1: "Update_wait hr s = Inr s \<longleftrightarrow> ?f = 0 \<or> ?f \<le> fenceCompleted s"
    unfolding Update_wait_Inr_iff [OF assms] using neq neq [symmetric] by (auto simp: not_less)
  have 2: "(?f = 0 \<or> ?f \<le> fenceCompleted s') \<and>
            mFrameResources s' = mFrameResources s \<and>
            mCurrFrameResourceIndex s' = mCurrFrameResourceIndex s \<and>
            mCurrFrameResource s' = mCurrFrameResource s \<and>
            mAllRitems s' = mAllRitems s \<and> mMaterials s' = mMaterials s \<and>
            mCurrentFence s' = mCurrentFence s"
    if "Update_wait hr s = Inr s'" for s'
    using that unfolding Update_wait_Inr_iff [OF assms]
    by (auto simp: not_less split: if_splits dest: WaitForSingleObject_Some_D)
  have 3: "\<exists>s'. Update_wait hr s = Inr s'"
    if "hr" "\<exists>v\<in>set (queuedSignals s). ?f \<le> v"
  proof -
    from that(2) have "\<exists>v\<in>set (fenceCompleted s # queuedSignals s). ?f \<le> v" by auto
    from WaitForSingleObject_Some_I [OF this] that(1) show ?thesis
      unfolding Update_wait_Inr_iff [OF assms] by auto
  qed
  from 1 2 3 show ?thesis by blast
qed

lemma demo_rotated_simps:
  "mCurrFrameResource demo_rotated = Some 1" "length (mFrameResources demo_rotated) = 3"
  "Fence (mFrameResources demo_rotated ! 1) = 1" "fenceCompleted demo_rotated = 0"
  "queuedSignals demo_rotated = [1, 2, 3]" "Fence (mFrameResources demo_rotated ! Suc 0) = 1"
  using demo_marker(4)
  by (simp_all add: demo_rotated_def demo_gpu demo_length frame_marker_def demo_slot)

theorem synchronize_guard_witness:
  "mCurrFrameResource demo_rotated = Some 1 \<and> 1 < length (mFrameResources demo_rotated) \<and>
   Fence (mFrameResources demo_rotated ! 1) = 1 \<and> fenceCompleted demo_rotated = 0 \<and>
   Update_wait True demo_rotated \<noteq> Inr demo_rotated \<and>
   Update_wait True demo_rotated =
     Inr (demo_rotated\<lparr>fenceCompleted := 1, queuedSignals := [2, 3],
                        trace := trace demo_rotated @ [EvBlocked 1]\<rparr>)"
proof -
  have a: "mCurrFrameResource demo_rotated = Some 1" "1 < length (mFrameResources demo_rotated)"
    by (simp_all add: demo_rotated_simps)
  have w: "Update_wait True demo_rotated =
     Inr (demo_rotated\<lparr>fenceCompleted := 1, queuedSignals := [2, 3],
                        trace := trace demo_rotated @ [EvBlocked 1]\<rparr>)"
    unfolding Update_wait_Inr_iff [OF a] by (simp add: demo_rotated_simps)
  from synchronize_guard [OF a, of True] a w show ?thesis
    by (simp add: demo_rotated_simps)
qed

subsection \<open>C1: no premature reuse\<close>

lemma frame_events_touch:
  assumes "EvCpuTouch j a m c' \<in> set (frame_events s c)"
  shows "j = frame_slot s \<and> m = frame_marker s \<and> c' = c"
  using assms
  by (auto simp: frame_events_def Rotate_events_def Synchronize_events_def Update_events_def
      Record_events_def Stamp_events_def split: if_splits)

lemma frame_events_safe:
  assumes "frame_marker s = 0 \<or> frame_marker s \<le> c"
  shows "\<forall>e\<in>set (frame_events s c). safe_event e"
proof
  fix e assume e: "e \<in> set (frame_events s c)"
  show "safe_event e"
  proof (cases e)
    case (EvCpuTouch j a m c')
    with e frame_events_touch [of j a m c' s c] assms show ?thesis by auto
  qed simp_all
qed

lemma run_trace_safe:
  assumes "run acts s = Inr s'"
  shows "\<exists>new. trace s' = trace s @ new \<and> (\<forall>e\<in>set new. safe_event e)"
  using assms
proof (induction acts arbitrary: s)
  case Nil
  then show ?case by simp
next
  case (Cons a acts)
  show ?case
  proof (cases a)
    case Gpu
    with Cons.prems have "run acts (GpuExecute s) = Inr s'" by simp
    from Cons.IH [OF this] show ?thesis by simp
  next
    case (Cpu inp)
    with Cons.prems obtain s1 where F: "Frame inp s = Inr s1" and r: "run acts s1 = Inr s'"
      by (auto split: sum.splits)
    from Frame_Inr_D [OF F] obtain c q where
      sy: "sync_result (hrSetEventOnCompletion inp) s = Some (c, q)" and
      s1: "s1 = frame_state inp c q s" by blast
    from sync_result_D [OF sy] have "frame_marker s = 0 \<or> frame_marker s \<le> c" by blast
    from frame_events_safe [OF this] have a: "\<forall>e\<in>set (frame_events s c). safe_event e" .
    from Cons.IH [OF r] obtain new where
      n: "trace s' = trace s1 @ new" "\<forall>e\<in>set new. safe_event e" by blast
    from n(1) have "trace s' = trace s @ (frame_events s c @ new)" by (simp add: s1)
    moreover from a n(2) have "\<forall>e\<in>set (frame_events s c @ new). safe_event e" by auto
    ultimately show ?thesis by blast
  qed
qed

text \<open>
  C1. No premature reuse. Take any state \<open>s\<close> that a run reaches from a state \<open>s0\<close>, and a
  frame that takes \<open>s\<close> to \<open>s'\<close>. The slot the frame selects has the marker
  \<open>frame_marker s\<close> when the frame synchronises. When the wait of \<^verbatim>\<open>Update\<close> is over, this
  marker is 0 or the fence's completed value has reached it. Every access of the CPU that
  the frame makes (a write to the object, material or pass constant buffer, the reset of
  the command allocator) goes to the selected slot and is made with that marker and that
  completed value; no other slot is accessed. So all accesses of the frame, and all
  accesses of the whole run, are made while the completed value is not below the
  accessed slot's marker, or the marker is 0.
\<close>

theorem no_premature_reuse:
  assumes "run acts s0 = Inr s" and "Frame inp s = Inr s'"
  shows "(frame_marker s = 0 \<or> frame_marker s \<le> fenceCompleted s') \<and>
         trace s' = trace s @ frame_events s (fenceCompleted s') \<and>
         (\<forall>j a m c. EvCpuTouch j a m c \<in> set (frame_events s (fenceCompleted s')) \<longrightarrow>
            j = frame_slot s \<and> m = frame_marker s \<and> c = fenceCompleted s' \<and> (m = 0 \<or> m \<le> c)) \<and>
         (\<exists>new. trace s' = trace s0 @ new \<and> (\<forall>e\<in>set new. safe_event e))"
proof -
  from Frame_Inr_D [OF assms(2)] obtain c q where
    sy: "sync_result (hrSetEventOnCompletion inp) s = Some (c, q)" and
    s': "s' = frame_state inp c q s" by blast
  have c: "fenceCompleted s' = c" by (simp add: s')
  from sync_result_D [OF sy] have 1: "frame_marker s = 0 \<or> frame_marker s \<le> c" by blast
  have 2: "trace s' = trace s @ frame_events s c" by (simp add: s')
  have 3: "\<forall>j a m c'. EvCpuTouch j a m c' \<in> set (frame_events s c) \<longrightarrow>
            j = frame_slot s \<and> m = frame_marker s \<and> c' = c \<and> (m = 0 \<or> m \<le> c')"
    using frame_events_touch [of _ _ _ _ s c] 1 by blast
  have "run (acts @ [Cpu inp]) s0 = Inr s'"
    using assms
  proof (induction acts arbitrary: s0)
    case Nil
    then show ?case by simp
  next
    case (Cons a acts)
    then show ?case by (cases a) (auto split: sum.splits)
  qed
  from run_trace_safe [OF this] have 4:
    "\<exists>new. trace s' = trace s0 @ new \<and> (\<forall>e\<in>set new. safe_event e)" .
  from 1 2 3 4 show ?thesis unfolding c by blast
qed

theorem no_premature_reuse_witness:
  "run [Cpu demo_inp, Cpu demo_inp, Cpu demo_inp] demo_app = Inr demo3 \<and>
   Frame demo_inp demo3 = Inr demo4 \<and>
   frame_slot demo3 = 1 \<and> frame_marker demo3 = 1 \<and>
   fenceCompleted demo3 = 0 \<and> fenceCompleted demo4 = 1 \<and>
   trace demo4 = trace demo3 @ frame_events demo3 1 \<and>
   EvCpuTouch 1 (PassCBWrite 0) 1 1 \<in> set (frame_events demo3 1)"
proof -
  have "EvCpuTouch 1 (PassCBWrite 0) 1 1 \<in> set (Update_events demo3 1)"
    unfolding Update_events_def demo_slot demo_marker by simp
  then have m: "EvCpuTouch 1 (PassCBWrite 0) 1 1 \<in> set (frame_events demo3 1)"
    unfolding frame_events_def by simp
  have t: "trace demo4 = trace demo3 @ frame_events demo3 1"
    using no_premature_reuse [OF demo_run(4) demo_Frame(4), THEN conjunct2, THEN conjunct1]
    unfolding demo_gpu .
  show ?thesis
    using m t demo_run(4) demo_Frame(4) demo_slot(4) demo_marker(4) demo_gpu(7) demo_gpu(9)
    by blast
qed

subsection \<open>C3: the markers increase\<close>

lemma stamps_append [simp]: "stamps (xs @ ys) = stamps xs @ stamps ys"
  by (induction xs rule: stamps.induct) simp_all

lemma stamps_map_touch [simp]: "stamps (map (\<lambda>x. EvCpuTouch (i x) (a x) (m x) (c x)) xs) = []"
  by (induction xs) simp_all

lemma stamps_map_draw [simp]: "stamps (map (\<lambda>x. EvDrawItem (i x) (a x) (b x)) xs) = []"
  by (induction xs) simp_all

lemma stamps_frame_events [simp]: "stamps (frame_events s c) = [mCurrentFence s + 1]"
  by (simp add: frame_events_def Rotate_events_def Synchronize_events_def Update_events_def
      Record_events_def Stamp_events_def)

text \<open>
  The markers issued so far, behind the value \<open>c0\<close> the counter started from, increase
  strictly and end with the current fence.
\<close>

lemma run_stamps:
  assumes "run acts s = Inr s'" "fence_ok s"
    "sorted_wrt (<) (c0 # stamps (trace s))" "last (c0 # stamps (trace s)) = mCurrentFence s"
    "unat (mCurrentFence s) + frames acts < 2 ^ 64"
  shows "fence_ok s' \<and> sorted_wrt (<) (c0 # stamps (trace s')) \<and>
         last (c0 # stamps (trace s')) = mCurrentFence s'"
  using assms
proof (induction acts arbitrary: s)
  case Nil
  then show ?case by simp
next
  case (Cons a acts)
  show ?case
  proof (cases a)
    case Gpu
    with Cons.prems have "run acts (GpuExecute s) = Inr s'" by simp
    from Cons.IH [OF this fence_ok_GpuExecute [OF Cons.prems(2)]] Cons.prems(3,4,5) Gpu
    show ?thesis by simp
  next
    case (Cpu inp)
    with Cons.prems obtain s1 where F: "Frame inp s = Inr s1" and r: "run acts s1 = Inr s'"
      by (auto split: sum.splits)
    from Frame_Inr_D [OF F] obtain c q where
      sy: "sync_result (hrSetEventOnCompletion inp) s = Some (c, q)" and
      s1: "s1 = frame_state inp c q s" by blast
    from Cons.prems(5) Cpu have "unat (mCurrentFence s) + Suc (frames acts) < 2 ^ 64" by simp
    from unat_fence_step [OF this] have nw: "mCurrentFence s + 1 \<noteq> 0"
      and b: "unat (mCurrentFence s + 1) + frames acts < 2 ^ 64" by simp_all
    have f1: "fence_ok s1" unfolding s1 by (rule fence_ok_frame_state [OF Cons.prems(2) sy nw])
    have le: "\<forall>x\<in>set (c0 # stamps (trace s)). x \<le> mCurrentFence s"
      using sorted_wrt_less_last [OF Cons.prems(3)] Cons.prems(4) by auto
    have lt: "mCurrentFence s < mCurrentFence s + 1" using nw by (rule word64_less_Suc)
    have so: "sorted_wrt (<) (c0 # stamps (trace s1))"
      using Cons.prems(3) le lt by (auto simp: s1 sorted_wrt_append)
    have la: "last (c0 # stamps (trace s1)) = mCurrentFence s1" by (simp add: s1)
    from Cons.IH [OF r f1 so la] b s1 show ?thesis by simp
  qed
qed

lemma fence_ok_completed_le:
  assumes "fence_ok t"
  shows "fenceCompleted t \<le> mCurrentFence t"
proof -
  from assms have "sorted_wrt (<) (fenceCompleted t # queuedSignals t)"
    "last (fenceCompleted t # queuedSignals t) = mCurrentFence t"
    by (simp_all add: fence_ok_def)
  with sorted_wrt_less_last [of "fenceCompleted t # queuedSignals t" "fenceCompleted t"]
  show ?thesis by simp
qed

lemma run_snoc:
  assumes "run acts s0 = Inr s" "Frame inp s = Inr s'"
  shows "run (acts @ [Cpu inp]) s0 = Inr s'"
  using assms
proof (induction acts arbitrary: s0)
  case Nil
  then show ?case by simp
next
  case (Cons a acts)
  then show ?case by (cases a) (auto split: sum.splits)
qed

lemma frames_snoc [simp]: "frames (acts @ [Cpu inp]) = Suc (frames acts)"
proof (induction acts)
  case Nil
  show ?case by simp
next
  case (Cons a acts)
  then show ?case by (cases a) simp_all
qed

text \<open>
  C3. Marker monotonicity. Take a run from the state \<^verbatim>\<open>Initialize\<close> builds (the counter is
  \<open>c0\<close>, the fence has completed \<open>c0\<close>) to a state \<open>s\<close>, and a frame from \<open>s\<close> to \<open>s'\<close>, the
  \<^verbatim>\<open>UINT64\<close> counter not wrapping around within these frames. The Stamp step of the frame
  increments the current-fence counter and stores the new value as the marker of the slot
  the frame used; it is the one marker the frame issues and it is greater than every
  marker issued before. The markers issued by the whole run increase strictly. In \<open>s\<close> and
  in \<open>s'\<close> the fence's completed value is at most the current-fence counter, which is the
  highest marker issued.
\<close>

theorem marker_monotonicity:
  assumes "run acts (Initialize c0 n ob mb dflt shade I W T) = Inr s"
    and "Frame inp s = Inr s'"
    and "unat c0 + Suc (frames acts) < 2 ^ 64"
  shows "mCurrentFence s' = mCurrentFence s + 1 \<and>
         Fence (mFrameResources s' ! frame_slot s) = mCurrentFence s' \<and>
         stamps (trace s') = stamps (trace s) @ [mCurrentFence s'] \<and>
         (\<forall>m\<in>set (stamps (trace s)). m < mCurrentFence s') \<and>
         sorted_wrt (<) (stamps (trace s')) \<and>
         last (c0 # stamps (trace s)) = mCurrentFence s \<and>
         last (c0 # stamps (trace s')) = mCurrentFence s' \<and>
         fenceCompleted s \<le> mCurrentFence s \<and>
         fenceCompleted s' \<le> mCurrentFence s'"
proof -
  let ?s0 = "Initialize c0 n ob mb dflt shade I W T"
  have f0: "fence_ok ?s0" by (rule fence_ok_Initialize)
  have i0: "sorted_wrt (<) (c0 # stamps (trace ?s0))"
    "last (c0 # stamps (trace ?s0)) = mCurrentFence ?s0"
    by (simp_all add: Initialize_fields)
  have b: "unat (mCurrentFence ?s0) + frames acts < 2 ^ 64"
    "unat (mCurrentFence ?s0) + frames (acts @ [Cpu inp]) < 2 ^ 64"
    using assms(3) by (simp_all add: Initialize_fields)
  from run_stamps [OF assms(1) f0 i0 b(1)] have
    fs: "fence_ok s" and ss: "sorted_wrt (<) (c0 # stamps (trace s))"
    and ls: "last (c0 # stamps (trace s)) = mCurrentFence s" by simp_all
  from run_stamps [OF run_snoc [OF assms(1,2)] f0 i0 b(2)] have
    fs': "fence_ok s'" and ss': "sorted_wrt (<) (c0 # stamps (trace s'))"
    and ls': "last (c0 # stamps (trace s')) = mCurrentFence s'" by simp_all
  from Frame_Inr_D [OF assms(2)] obtain c q where
    ok: "frame_ok inp s" and s': "s' = frame_state inp c q s" by blast
  from ok have sl: "frame_slot s < length (mFrameResources s)" by (simp add: frame_ok_def)
  have 1: "mCurrentFence s' = mCurrentFence s + 1" by (simp add: s')
  have 2: "Fence (mFrameResources s' ! frame_slot s) = mCurrentFence s'"
    unfolding s' using frame_state_slot(1) [OF sl] by simp
  have 3: "stamps (trace s') = stamps (trace s) @ [mCurrentFence s']" by (simp add: s')
  have 4: "\<forall>m\<in>set (stamps (trace s)). m < mCurrentFence s'"
    using ss' unfolding 3 by (auto simp: sorted_wrt_append)
  have 5: "sorted_wrt (<) (stamps (trace s'))" using ss' by simp
  from 1 2 3 4 5 ls ls' fence_ok_completed_le [OF fs] fence_ok_completed_le [OF fs']
  show ?thesis by blast
qed

theorem marker_monotonicity_witness:
  "run [Cpu demo_inp, Cpu demo_inp, Cpu demo_inp] demo_app = Inr demo3 \<and>
   Frame demo_inp demo3 = Inr demo4 \<and>
   unat (0 :: 64 word) + Suc (frames [Cpu demo_inp, Cpu demo_inp, Cpu demo_inp :: unit action]) < 2 ^ 64 \<and>
   mCurrentFence demo3 = 3 \<and> mCurrentFence demo4 = 4 \<and>
   Fence (mFrameResources demo4 ! 1) = 4 \<and>
   stamps (trace demo4) = stamps (trace demo3) @ [4] \<and>
   fenceCompleted demo4 = 1"
proof -
  have b: "unat (0 :: 64 word) + Suc (frames [Cpu demo_inp, Cpu demo_inp, Cpu demo_inp :: unit action])
      < 2 ^ 64" by simp
  note m = marker_monotonicity [OF demo_run(4) [unfolded demo_app_def] demo_Frame(4) b]
  have 2: "Fence (mFrameResources demo4 ! 1) = 4"
    using m [THEN conjunct2, THEN conjunct1] unfolding demo_slot demo_fence .
  have 3: "stamps (trace demo4) = stamps (trace demo3) @ [4]"
    using m [THEN conjunct2, THEN conjunct2, THEN conjunct1] unfolding demo_fence .
  show ?thesis
    using b 2 3 demo_run(4) demo_Frame(4) demo_fence(4) demo_fence(5) demo_gpu(9) by blast
qed

lemma wrap_scene_ok: "scene_ok wrap_app" "scene_ok wrap1" "scene_ok wrap2"
  unfolding wrap1_def wrap2_def
  by (simp_all add: scene_ok_GpuExecute scene_ok_frame_state scene_ok_Initialize wrap_app_def)

lemma wrap_fields:
  "mCurrentFence wrap_app = - 2" "fenceCompleted wrap_app = - 2" "queuedSignals wrap_app = []"
  "mCurrFrameResourceIndex wrap_app = 0" "SwapChainBufferCount wrap_app = 2"
  "trace wrap_app = []" "length (mFrameResources wrap_app) = 3"
  "mCurrentFence wrap1 = - 1" "fenceCompleted wrap1 = - 2" "queuedSignals wrap1 = [- 1]"
  "mCurrFrameResourceIndex wrap1 = 1" "SwapChainBufferCount wrap1 = 2"
  "length (mFrameResources wrap1) = 3"
  "mCurrentFence wrap2 = - 1" "fenceCompleted wrap2 = - 1" "queuedSignals wrap2 = []"
  "mCurrFrameResourceIndex wrap2 = 1" "SwapChainBufferCount wrap2 = 2"
  "length (mFrameResources wrap2) = 3"
  "mCurrentFence wrap3 = 0" "fenceCompleted wrap3 = - 1"
  by (simp_all add: wrap3_def wrap2_def wrap1_def GpuExecute_def wrap_app_def Initialize_fields
      gNumFrameResources_def smod_3)

lemma wrap_slot: "frame_slot wrap_app = 1" "frame_slot wrap2 = 2"
  by (simp_all add: frame_slot_def wrap_fields gNumFrameResources_def smod_3)

lemma wrap_marker: "frame_marker wrap_app = 0" "frame_marker wrap2 = 0"
proof -
  have a: "Fence (mFrameResources wrap_app ! j) = 0" if "j < 3" for j
    using that by (simp add: wrap_app_def Initialize_fields FrameResource_new_def)
  show "frame_marker wrap_app = 0" by (simp add: frame_marker_def wrap_slot a)
  have "mFrameResources wrap2 ! 2 = mFrameResources wrap_app ! 2"
    by (simp add: wrap2_def wrap1_def frame_state_other_slot wrap_slot)
  then show "frame_marker wrap2 = 0" by (simp add: frame_marker_def wrap_slot a)
qed

lemma wrap_Frame: "Frame demo_inp wrap_app = Inr wrap1" "Frame demo_inp wrap2 = Inr wrap3"
proof -
  have "Frame demo_inp wrap_app = Inr (frame_state demo_inp (- 2) [] wrap_app)"
    by (rule Frame_Inr_I [OF frame_ok_if_scene_ok [OF wrap_scene_ok(1) device_ok_demo(1)]])
      (simp_all add: wrap_fields sync_result_def must_wait_def wrap_marker)
  then show "Frame demo_inp wrap_app = Inr wrap1" by (simp add: wrap1_def)
  have "Frame demo_inp wrap2 = Inr (frame_state demo_inp (- 1) [] wrap2)"
    by (rule Frame_Inr_I [OF frame_ok_if_scene_ok [OF wrap_scene_ok(3) device_ok_demo(1)]])
      (simp_all add: wrap_fields sync_result_def must_wait_def wrap_marker)
  then show "Frame demo_inp wrap2 = Inr wrap3" by (simp add: wrap3_def)
qed

lemma wrap_stamps: "stamps (trace wrap2) = [- 1]" "stamps (trace wrap3) = [- 1, 0]"
proof -
  show a: "stamps (trace wrap2) = [- 1]"
    by (simp add: wrap2_def wrap1_def wrap_fields)
  show "stamps (trace wrap3) = [- 1, 0]"
    by (simp add: wrap3_def a wrap_fields)
qed

text \<open>
  Where the counter wraps, the markers do not increase and the completed value exceeds
  the counter. The instance starts with the counter at \<open>2 ^ 64 - 2\<close>: the first frame
  issues the marker \<open>2 ^ 64 - 1\<close>, the device completes it, and the second frame issues
  the marker 0, which is less than the one before, while the fence has completed
  \<open>2 ^ 64 - 1\<close>.
\<close>

theorem marker_monotonicity_counterexample:
  "run [Cpu demo_inp, Gpu] wrap_app = Inr wrap2 \<and> Frame demo_inp wrap2 = Inr wrap3 \<and>
   unat (- 2 :: 64 word) + Suc (frames [Cpu demo_inp, Gpu :: unit action]) = 2 ^ 64 \<and>
   stamps (trace wrap2) = [18446744073709551615] \<and>
   stamps (trace wrap3) = [18446744073709551615, 0] \<and>
   mCurrentFence wrap2 = 18446744073709551615 \<and> mCurrentFence wrap3 = 0 \<and>
   \<not> (18446744073709551615 :: 64 word) < mCurrentFence wrap3 \<and>
   \<not> sorted_wrt (<) (stamps (trace wrap3)) \<and>
   fenceCompleted wrap3 = 18446744073709551615 \<and>
   \<not> fenceCompleted wrap3 \<le> mCurrentFence wrap3"
proof -
  have m: "(- 1 :: 64 word) = 18446744073709551615" by simp
  have r: "run [Cpu demo_inp, Gpu] wrap_app = Inr wrap2"
    by (simp add: wrap_Frame wrap2_def)
  have u: "unat (- 2 :: 64 word) + Suc (frames [Cpu demo_inp, Gpu :: unit action]) = 2 ^ 64"
  proof -
    have "(- 2 :: 64 word) = 18446744073709551614" by simp
    then have "unat (- 2 :: 64 word) = 18446744073709551614" by simp
    then show ?thesis by simp
  qed
  have s: "stamps (trace wrap2) = [18446744073709551615]"
    "stamps (trace wrap3) = [18446744073709551615, 0]"
    "mCurrentFence wrap2 = 18446744073709551615" "fenceCompleted wrap3 = 18446744073709551615"
    unfolding m [symmetric] by (simp_all add: wrap_stamps wrap_fields)
  have n: "\<not> (18446744073709551615 :: 64 word) < mCurrentFence wrap3"
    "\<not> sorted_wrt (<) (stamps (trace wrap3))"
    "\<not> fenceCompleted wrap3 \<le> mCurrentFence wrap3"
    by (simp_all add: s wrap_fields(20))
  from r wrap_Frame(2) u s(1,2,3) wrap_fields(20) n(1,2) s(4) n(3) show ?thesis by blast
qed

subsection \<open>C5: one sweep of the dirty propagation\<close>

lemma obj_writes_fst: "map fst (obj_writes es) = map ObjCBIndex (filter dirty es)"
  by (simp add: obj_writes_def comp_def)

lemma distinct_obj_writes:
  "distinct (map ObjCBIndex es) \<Longrightarrow> distinct (map fst (obj_writes es))"
  unfolding obj_writes_fst by (rule distinct_map_filter)

lemma obj_writes_hit:
  assumes "distinct (map ObjCBIndex es)" "e \<in> set es" "dirty e" "ObjCBIndex e < length buf"
  shows "apply_writes (obj_writes es) buf ! ObjCBIndex e = Some (payload e)"
proof -
  from assms(2,3) have "(ObjCBIndex e, payload e) \<in> set (obj_writes es)"
    by (auto simp: obj_writes_def)
  from apply_writes_hit [OF distinct_obj_writes [OF assms(1)] this assms(4)] show ?thesis .
qed

lemma obj_writes_miss:
  assumes "distinct (map ObjCBIndex es)" "e \<in> set es" "\<not> dirty e"
  shows "apply_writes (obj_writes es) buf ! ObjCBIndex e = buf ! ObjCBIndex e"
proof -
  have "ObjCBIndex e \<notin> fst ` set (obj_writes es)"
  proof
    assume "ObjCBIndex e \<in> fst ` set (obj_writes es)"
    then obtain e' where e': "e' \<in> set es" "dirty e'" "ObjCBIndex e' = ObjCBIndex e"
      by (auto simp: obj_writes_def)
    with assms(1,2) have "e' = e" by (auto simp: distinct_map inj_on_def)
    with e'(2) assms(3) show False by simp
  qed
  then show ?thesis by (rule apply_writes_other)
qed

text \<open>
  C5. Dirty propagation step. Let \<^verbatim>\<open>UpdateObjectCBs\<close> take \<open>s\<close> to \<open>s'\<close>, with slot \<open>i\<close>
  current and the constant-buffer indices of the render items distinct. For every render
  item whose countdown is positive, the object buffer of slot \<open>i\<close> holds, at exactly the
  item's \<open>ObjCBIndex\<close>, the object constants made of the transposed world matrix and the
  transposed texture transform of the item, and the item's countdown is one less, the
  item being otherwise the same. Every item whose countdown is not positive is the same
  as before, and so is the buffer element at its index. The writes made, in the order of
  the items, are those of the items with a positive countdown and no others. The other
  slots, and the other members of slot \<open>i\<close>, are the same as before.
\<close>

theorem dirty_propagation_step:
  assumes "UpdateObjectCBs s = Inr s'" and "mCurrFrameResource s = Some i"
    and "distinct (map ObjCBIndex (mAllRitems s))"
  shows "length (mAllRitems s') = length (mAllRitems s) \<and>
    (\<forall>k<length (mAllRitems s).
       (0 < NumFramesDirty (mAllRitems s ! k) \<longrightarrow>
          ObjectCB (mFrameResources s' ! i) ! ObjCBIndex (mAllRitems s ! k) =
            Some (ObjectConstants (XMMatrixTranspose (World (mAllRitems s ! k)))
                                  (XMMatrixTranspose (TexTransform (mAllRitems s ! k)))) \<and>
          mAllRitems s' ! k =
            (mAllRitems s ! k)\<lparr>NumFramesDirty := NumFramesDirty (mAllRitems s ! k) - 1\<rparr>) \<and>
       (\<not> 0 < NumFramesDirty (mAllRitems s ! k) \<longrightarrow>
          mAllRitems s' ! k = mAllRitems s ! k \<and>
          ObjectCB (mFrameResources s' ! i) ! ObjCBIndex (mAllRitems s ! k) =
            ObjectCB (mFrameResources s ! i) ! ObjCBIndex (mAllRitems s ! k))) \<and>
    trace s' = trace s @
      map (\<lambda>e. EvCpuTouch i (ObjectCBWrite (ObjCBIndex e)) (Fence (mFrameResources s ! i))
                 (fenceCompleted s))
        (filter (\<lambda>e. 0 < NumFramesDirty e) (mAllRitems s)) \<and>
    (\<forall>j. j \<noteq> i \<longrightarrow> mFrameResources s' ! j = mFrameResources s ! j) \<and>
    PassCB (mFrameResources s' ! i) = PassCB (mFrameResources s ! i) \<and>
    MaterialCB (mFrameResources s' ! i) = MaterialCB (mFrameResources s ! i) \<and>
    Fence (mFrameResources s' ! i) = Fence (mFrameResources s ! i) \<and>
    mMaterials s' = mMaterials s"
proof -
  from assms(1,2) have il: "i < length (mFrameResources s)"
    by (auto simp: UpdateObjectCBs_def currFrameResource_def split: if_splits)
  let ?fr = "mFrameResources s ! i"
  from assms(1) have
    rng: "\<forall>e\<in>set (mAllRitems s). dirty e \<longrightarrow> ObjCBIndex e < length (ObjectCB ?fr)" and
    s': "s' = s\<lparr>mAllRitems := map decr (mAllRitems s),
            mFrameResources := (mFrameResources s)[i := ?fr
               \<lparr>ObjectCB := apply_writes (obj_writes (mAllRitems s)) (ObjectCB ?fr)\<rparr>],
            trace := trace s @
              map (\<lambda>e. EvCpuTouch i (ObjectCBWrite (ObjCBIndex e)) (Fence ?fr) (fenceCompleted s))
                (filter dirty (mAllRitems s))\<rparr>"
    unfolding UpdateObjectCBs_Inr_iff [OF assms(2) il] by simp_all
  have cb: "ObjectCB (mFrameResources s' ! i) = apply_writes (obj_writes (mAllRitems s)) (ObjectCB ?fr)"
    using il by (simp add: s')
  have d: "dirty = (\<lambda>e :: 'a RenderItem. 0 < NumFramesDirty e)"
    by (rule ext) (simp add: dirty_def)
  have 1: "length (mAllRitems s') = length (mAllRitems s)" by (simp add: s')
  have 2: "(0 < NumFramesDirty (mAllRitems s ! k) \<longrightarrow>
          ObjectCB (mFrameResources s' ! i) ! ObjCBIndex (mAllRitems s ! k) =
            Some (ObjectConstants (XMMatrixTranspose (World (mAllRitems s ! k)))
                                  (XMMatrixTranspose (TexTransform (mAllRitems s ! k)))) \<and>
          mAllRitems s' ! k =
            (mAllRitems s ! k)\<lparr>NumFramesDirty := NumFramesDirty (mAllRitems s ! k) - 1\<rparr>) \<and>
       (\<not> 0 < NumFramesDirty (mAllRitems s ! k) \<longrightarrow>
          mAllRitems s' ! k = mAllRitems s ! k \<and>
          ObjectCB (mFrameResources s' ! i) ! ObjCBIndex (mAllRitems s ! k) =
            ObjectCB (mFrameResources s ! i) ! ObjCBIndex (mAllRitems s ! k))"
    if k: "k < length (mAllRitems s)" for k
  proof -
    let ?e = "mAllRitems s ! k"
    from k have mem: "?e \<in> set (mAllRitems s)" by simp
    have it: "mAllRitems s' ! k = decr ?e" using k by (simp add: s')
    show ?thesis
    proof (cases "dirty ?e")
      case True
      with rng mem have "ObjCBIndex ?e < length (ObjectCB ?fr)" by blast
      from obj_writes_hit [OF assms(3) mem True this] True it show ?thesis
        by (simp add: cb payload_def dirty_def decr_def)
    next
      case False
      from obj_writes_miss [OF assms(3) mem False] False it show ?thesis
        by (simp add: cb dirty_def decr_def)
    qed
  qed
  have 3: "trace s' = trace s @
      map (\<lambda>e. EvCpuTouch i (ObjectCBWrite (ObjCBIndex e)) (Fence ?fr) (fenceCompleted s))
        (filter (\<lambda>e. 0 < NumFramesDirty e) (mAllRitems s))"
    by (simp add: s' d)
  have 4: "\<forall>j. j \<noteq> i \<longrightarrow> mFrameResources s' ! j = mFrameResources s ! j"
    by (simp add: s')
  have 5: "PassCB (mFrameResources s' ! i) = PassCB ?fr"
    "MaterialCB (mFrameResources s' ! i) = MaterialCB ?fr"
    "Fence (mFrameResources s' ! i) = Fence ?fr" "mMaterials s' = mMaterials s"
    using il by (simp_all add: s')
  from 1 2 3 4 5 show ?thesis by blast
qed

theorem dirty_propagation_step_witness:
  "\<exists>s'. UpdateObjectCBs tiny_app = Inr s' \<and> mCurrFrameResource tiny_app = Some 1 \<and>
     distinct (map ObjCBIndex (mAllRitems tiny_app)) \<and>
     NumFramesDirty (mAllRitems tiny_app ! 0) = 2 \<and> NumFramesDirty (mAllRitems s' ! 0) = 1 \<and>
     ObjectCB (mFrameResources s' ! 1) ! 0 =
       Some (ObjectConstants (XMFLOAT4X4 1 0 0 0  0 1 0 2  0 0 1 3  0 0 0 1) demo_I) \<and>
     NumFramesDirty (mAllRitems tiny_app ! 1) = 0 \<and> mAllRitems s' ! 1 = mAllRitems tiny_app ! 1 \<and>
     ObjectCB (mFrameResources s' ! 1) ! 1 = None \<and>
     trace s' = [EvCpuTouch 1 (ObjectCBWrite 0) 0 0]"
proof -
  have c: "mCurrFrameResource tiny_app = Some 1" "1 < length (mFrameResources tiny_app)"
    by (simp_all add: tiny_app_def)
  have r: "\<forall>e\<in>set (mAllRitems tiny_app). dirty e \<longrightarrow>
      ObjCBIndex e < length (ObjectCB (mFrameResources tiny_app ! 1))"
    by (simp add: tiny_app_def ritem_def RenderItem_default_def FrameResource_new_def
        UploadBuffer_new_def)
  from r obtain s' where u: "UpdateObjectCBs tiny_app = Inr s'"
    unfolding UpdateObjectCBs_Inr_iff [OF c] by blast
  have d: "distinct (map ObjCBIndex (mAllRitems tiny_app))"
    by (simp add: tiny_app_def ritem_def RenderItem_default_def)
  have v: "NumFramesDirty (mAllRitems tiny_app ! 0) = 2" "NumFramesDirty (mAllRitems tiny_app ! 1) = 0"
    "ObjCBIndex (mAllRitems tiny_app ! 0) = 0" "ObjCBIndex (mAllRitems tiny_app ! 1) = 1"
    "World (mAllRitems tiny_app ! 0) = demo_W 0" "TexTransform (mAllRitems tiny_app ! 0) = demo_I"
    "length (mAllRitems tiny_app) = 2" "trace tiny_app = []" "fenceCompleted tiny_app = 0"
    "Fence (mFrameResources tiny_app ! 1) = 0"
    "ObjectCB (mFrameResources tiny_app ! 1) ! 1 = None"
    by (simp_all add: tiny_app_def ritem_def RenderItem_default_def FrameResource_new_def
        UploadBuffer_new_def)
  have f: "filter (\<lambda>e. 0 < NumFramesDirty e) (mAllRitems tiny_app) = [mAllRitems tiny_app ! 0]"
    by (simp add: tiny_app_def ritem_def RenderItem_default_def)
  note t = dirty_propagation_step [OF u c(1) d]
  have k0: "NumFramesDirty (mAllRitems s' ! 0) = 1 \<and>
     ObjectCB (mFrameResources s' ! 1) ! 0 =
       Some (ObjectConstants (XMFLOAT4X4 1 0 0 0  0 1 0 2  0 0 1 3  0 0 0 1) demo_I)"
    using t [THEN conjunct2, THEN conjunct1, rule_format, of 0]
    by (simp add: v demo_W_def demo_I_def del: One_nat_def)
  have k1: "mAllRitems s' ! 1 = mAllRitems tiny_app ! 1 \<and>
     ObjectCB (mFrameResources s' ! 1) ! 1 = None"
    using t [THEN conjunct2, THEN conjunct1, rule_format, of 1]
    by (simp add: v del: One_nat_def)
  have tr: "trace s' = [EvCpuTouch 1 (ObjectCBWrite 0) 0 0]"
    using t [THEN conjunct2, THEN conjunct2, THEN conjunct1] unfolding f
    by (simp add: v del: One_nat_def)
  from u c(1) d v(1,2) k0 k1 tr show ?thesis by blast
qed

subsection \<open>C8: the bounds of the dirty countdown\<close>

lemma run_mAllRitems_bounds:
  assumes "run acts s = Inr s'"
    and "\<forall>e\<in>set (mAllRitems s). 0 \<le> NumFramesDirty e \<and> NumFramesDirty e \<le> gNumFrameResources"
  shows "\<forall>e\<in>set (mAllRitems s'). 0 \<le> NumFramesDirty e \<and> NumFramesDirty e \<le> gNumFrameResources"
  using assms by (rule run_invariant) auto

lemma map_ObjCBIndex_decr [simp]: "map ObjCBIndex (map decr es) = map ObjCBIndex es"
  by (induction es) simp_all

lemma obj_write_in_frame_events:
  assumes "distinct (map ObjCBIndex (mAllRitems s))" "e \<in> set (mAllRitems s)"
  shows "(\<exists>j m c'. EvCpuTouch j (ObjectCBWrite (ObjCBIndex e)) m c' \<in> set (frame_events s c)) \<longleftrightarrow>
         0 < NumFramesDirty e"
proof
  assume "\<exists>j m c'. EvCpuTouch j (ObjectCBWrite (ObjCBIndex e)) m c' \<in> set (frame_events s c)"
  then obtain e' where e': "e' \<in> set (mAllRitems s)" "dirty e'" "ObjCBIndex e' = ObjCBIndex e"
    by (auto simp: frame_events_def Rotate_events_def Synchronize_events_def Update_events_def
        Record_events_def Stamp_events_def split: if_splits)
  with assms have "e' = e" by (auto simp: distinct_map inj_on_def)
  with e'(2) show "0 < NumFramesDirty e" by (simp add: dirty_def)
next
  assume "0 < NumFramesDirty e"
  with assms(2) have
    "EvCpuTouch (frame_slot s) (ObjectCBWrite (ObjCBIndex e)) (frame_marker s) c
       \<in> set (Update_events s c)"
    by (auto simp: Update_events_def dirty_def)
  then show "\<exists>j m c'. EvCpuTouch j (ObjectCBWrite (ObjCBIndex e)) m c' \<in> set (frame_events s c)"
    unfolding frame_events_def by auto
qed

text \<open>
  C8. Bounds of the dirty countdown. Every render item that \<^verbatim>\<open>Initialize\<close> builds starts
  with the countdown \<open>gNumFrameResources\<close>. In every state \<open>s\<close> that a run of frames and
  device steps reaches from there, and in the state \<open>s'\<close> after one more frame, every
  countdown lies between 0 and \<open>gNumFrameResources\<close>. The frame writes the object
  constants of an item exactly when the item's countdown is positive, lowers the
  countdown of exactly these items by 1 and leaves the other countdowns as they are; no
  step of a run raises a countdown.
\<close>

theorem dirty_countdown_bounds:
  assumes "run acts (Initialize c0 n ob mb dflt shade I W T) = Inr s"
    and "Frame inp s = Inr s'"
  shows "(\<forall>e\<in>set (mAllRitems (Initialize c0 n ob mb dflt shade I W T)).
            NumFramesDirty e = gNumFrameResources) \<and>
         (\<forall>e\<in>set (mAllRitems s). 0 \<le> NumFramesDirty e \<and> NumFramesDirty e \<le> gNumFrameResources) \<and>
         (\<forall>e\<in>set (mAllRitems s'). 0 \<le> NumFramesDirty e \<and> NumFramesDirty e \<le> gNumFrameResources) \<and>
         length (mAllRitems s') = length (mAllRitems s) \<and>
         (\<forall>k<length (mAllRitems s).
            NumFramesDirty (mAllRitems s' ! k) =
              (if 0 < NumFramesDirty (mAllRitems s ! k) then NumFramesDirty (mAllRitems s ! k) - 1
               else NumFramesDirty (mAllRitems s ! k)) \<and>
            ((\<exists>j m c. EvCpuTouch j (ObjectCBWrite (ObjCBIndex (mAllRitems s ! k))) m c
                        \<in> set (frame_events s (fenceCompleted s'))) \<longleftrightarrow>
             0 < NumFramesDirty (mAllRitems s ! k))) \<and>
         trace s' = trace s @ frame_events s (fenceCompleted s')"
proof -
  let ?s0 = "Initialize c0 n ob mb dflt shade I W T"
  have 1: "\<forall>e\<in>set (mAllRitems ?s0). NumFramesDirty e = gNumFrameResources"
    by (rule Initialize_NumFramesDirty)
  then have b0: "\<forall>e\<in>set (mAllRitems ?s0).
      0 \<le> NumFramesDirty e \<and> NumFramesDirty e \<le> gNumFrameResources"
    by (auto simp: gNumFrameResources_def)
  from run_mAllRitems_bounds [OF assms(1) b0] have 2:
    "\<forall>e\<in>set (mAllRitems s). 0 \<le> NumFramesDirty e \<and> NumFramesDirty e \<le> gNumFrameResources" .
  from run_mAllRitems_bounds [OF run_snoc [OF assms] b0] have 3:
    "\<forall>e\<in>set (mAllRitems s'). 0 \<le> NumFramesDirty e \<and> NumFramesDirty e \<le> gNumFrameResources" .
  from Frame_Inr_D [OF assms(2)] obtain c q where s': "s' = frame_state inp c q s" by blast
  have d: "distinct (map ObjCBIndex (mAllRitems ?s0))"
    unfolding Initialize_ObjCBIndex by simp
  have "distinct (map ObjCBIndex (mAllRitems s))"
    using assms(1) d by (rule run_invariant) (simp_all del: map_map)
  note w = obj_write_in_frame_events [OF this]
  have 4: "length (mAllRitems s') = length (mAllRitems s)" by (simp add: s')
  have 5: "\<forall>k<length (mAllRitems s).
            NumFramesDirty (mAllRitems s' ! k) =
              (if 0 < NumFramesDirty (mAllRitems s ! k) then NumFramesDirty (mAllRitems s ! k) - 1
               else NumFramesDirty (mAllRitems s ! k)) \<and>
            ((\<exists>j m c. EvCpuTouch j (ObjectCBWrite (ObjCBIndex (mAllRitems s ! k))) m c
                        \<in> set (frame_events s (fenceCompleted s'))) \<longleftrightarrow>
             0 < NumFramesDirty (mAllRitems s ! k))"
    using w by (simp add: s')
  have 6: "trace s' = trace s @ frame_events s (fenceCompleted s')" by (simp add: s')
  from 1 2 3 4 5 6 show ?thesis by blast
qed

theorem dirty_countdown_bounds_witness:
  "run [Cpu demo_inp] demo_app = Inr demo1 \<and> Frame demo_inp demo1 = Inr demo2 \<and>
   length (mAllRitems demo1) = 27 \<and>
   NumFramesDirty (mAllRitems demo_app ! 0) = 3 \<and>
   NumFramesDirty (mAllRitems demo1 ! 0) = 2 \<and>
   NumFramesDirty (mAllRitems demo2 ! 0) = 1"
proof -
  note t = dirty_countdown_bounds [OF demo_run(2) [unfolded demo_app_def] demo_Frame(2)]
  have l: "length (mAllRitems demo_app) = 27" "length (mAllRitems demo1) = 27"
    by (simp_all add: demo1_def) (simp_all add: demo_app_def Initialize_fields)
  have mem: "mAllRitems demo_app ! 0 \<in> set (mAllRitems demo_app)"
    using l by (intro nth_mem) simp
  have 0: "NumFramesDirty (mAllRitems demo_app ! 0) = 3"
    using t [THEN conjunct1] mem unfolding demo_app_def gNumFrameResources_def by blast
  then have 1: "NumFramesDirty (mAllRitems demo1 ! 0) = 2"
    using l by (simp add: demo1_def)
  have 2: "NumFramesDirty (mAllRitems demo2 ! 0) = 1"
    using t [THEN conjunct2, THEN conjunct2, THEN conjunct2, THEN conjunct2, THEN conjunct1,
        rule_format, of 0, THEN conjunct1] l 1 by simp
  from demo_run(2) demo_Frame(2) l(2) 0 1 2 show ?thesis by blast
qed

subsection \<open>C10: the constant-buffer indices stay inside the object buffers\<close>

text \<open>
  What a run keeps about the object buffers and their use: the scene stays well formed,
  and every object write and every draw call of the trace stays inside a buffer of
  \<open>cap\<close> elements of \<open>ob\<close> bytes.
\<close>

lemma apply_mod_le: "(k * ob) mod 2 ^ 32 + ob \<le> cap * ob" if "k < cap" for k ob cap :: nat
proof -
  have "(k * ob) mod 2 ^ 32 \<le> k * ob" by simp
  moreover from that have "k * ob + ob \<le> cap * ob"
    by (metis Suc_leI mult_Suc mult_le_mono1 add.commute)
  ultimately show ?thesis by linarith
qed

lemma frame_events_obj_write:
  assumes "EvCpuTouch j (ObjectCBWrite k) m c' \<in> set (frame_events s c)"
  shows "\<exists>e\<in>set (mAllRitems s). k = ObjCBIndex e"
  using assms
  by (auto simp: frame_events_def Rotate_events_def Synchronize_events_def Update_events_def
      Record_events_def Stamp_events_def split: if_splits)

lemma frame_events_draw:
  assumes "EvDrawItem j x y \<in> set (frame_events s c)"
  shows "\<exists>r\<in>set (mOpaqueRitems s). x = (ObjCBIndex (mAllRitems s ! r) * objCBByteSize s) mod 2 ^ 32"
  using assms
  by (auto simp: frame_events_def Rotate_events_def Synchronize_events_def Update_events_def
      Record_events_def Stamp_events_def split: if_splits)

lemma run_object_buffers:
  assumes "run acts s = Inr s'" "scene_ok s"
    "\<forall>j k m c. EvCpuTouch j (ObjectCBWrite k) m c \<in> set (trace s) \<longrightarrow> k < length (mAllRitems s)"
    "\<forall>j x y. EvDrawItem j x y \<in> set (trace s) \<longrightarrow>
       x + objCBByteSize s \<le> length (mAllRitems s) * objCBByteSize s"
  shows "scene_ok s' \<and> length (mAllRitems s') = length (mAllRitems s) \<and>
    objCBByteSize s' = objCBByteSize s \<and>
    (\<forall>j k m c. EvCpuTouch j (ObjectCBWrite k) m c \<in> set (trace s') \<longrightarrow> k < length (mAllRitems s)) \<and>
    (\<forall>j x y. EvDrawItem j x y \<in> set (trace s') \<longrightarrow>
       x + objCBByteSize s \<le> length (mAllRitems s) * objCBByteSize s)"
proof -
  let ?n = "length (mAllRitems s)"
  let ?ob = "objCBByteSize s"
  let ?P = "\<lambda>t. scene_ok t \<and> length (mAllRitems t) = ?n \<and> objCBByteSize t = ?ob \<and>
    (\<forall>j k m c. EvCpuTouch j (ObjectCBWrite k) m c \<in> set (trace t) \<longrightarrow> k < ?n) \<and>
    (\<forall>j x y. EvDrawItem j x y \<in> set (trace t) \<longrightarrow> x + ?ob \<le> ?n * ?ob)"
  have "?P s'"
    using assms(1)
  proof (rule run_invariant)
    show "?P s" using assms(2,3,4) by simp
  next
    fix t :: "('a, 'b, 'c) CrateApp"
    assume "?P t"
    then show "?P (GpuExecute t)" by (simp add: scene_ok_GpuExecute)
  next
    fix inp c q and t :: "('a, 'b, 'c) CrateApp"
    assume P: "?P t" and ok: "frame_ok inp t"
    from P have sc: "scene_ok t" and n: "length (mAllRitems t) = ?n"
      and ob: "objCBByteSize t = ?ob" by simp_all
    from sc n have rng: "\<forall>e\<in>set (mAllRitems t). ObjCBIndex e < ?n"
      by (simp add: scene_ok_def)
    have w: "k < ?n" if "EvCpuTouch j (ObjectCBWrite k) m c' \<in> set (frame_events t c)"
      for j k m c'
      using frame_events_obj_write [OF that] rng by auto
    have d: "x + ?ob \<le> ?n * ?ob" if "EvDrawItem j x y \<in> set (frame_events t c)" for j x y
    proof -
      from frame_events_draw [OF that] obtain r where
        r: "r \<in> set (mOpaqueRitems t)"
        "x = (ObjCBIndex (mAllRitems t ! r) * objCBByteSize t) mod 2 ^ 32" by blast
      from ok r(1) have "r < length (mAllRitems t)" by (simp add: frame_ok_def)
      then have "mAllRitems t ! r \<in> set (mAllRitems t)" by simp
      with rng have "ObjCBIndex (mAllRitems t ! r) < ?n" by blast
      from apply_mod_le [OF this] r(2) ob show ?thesis by simp
    qed
    from P w d show "?P (frame_state inp c q t)"
      by (auto simp: scene_ok_frame_state)
  qed
  then show ?thesis by simp
qed

text \<open>
  C10. In the state \<^verbatim>\<open>Initialize\<close> builds, and in every state \<open>s\<close> that a run reaches from
  it, there are 27 render items and 3 frame resources; the object buffer of each frame
  resource has the capacity 27, the render-item count it was constructed with; the
  \<open>ObjCBIndex\<close> values of the render items are distinct (they are 0 to 26 in the order of
  the items) and less than this capacity. Every object write \<^verbatim>\<open>CopyData\<close> made during
  the run has its element index below the capacity, and every draw call binds an object
  constant-buffer range of \<open>ob\<close> bytes that ends inside the \<open>27 * ob\<close> bytes of the buffer.
\<close>

theorem objcb_index_in_range:
  assumes "run acts (Initialize c0 n ob mb dflt shade I W T) = Inr s"
  shows "map ObjCBIndex (mAllRitems s) =
           [0, 1, 2, 3, 4, 5, 6, 7, 8, 9, 10, 11, 12, 13, 14, 15, 16, 17, 18, 19, 20, 21, 22, 23,
            24, 25, 26] \<and>
         distinct (map ObjCBIndex (mAllRitems s)) \<and>
         length (mAllRitems s) = 27 \<and> length (mFrameResources s) = 3 \<and>
         (\<forall>fr\<in>set (mFrameResources s). length (ObjectCB fr) = 27) \<and>
         (\<forall>e\<in>set (mAllRitems s). \<forall>fr\<in>set (mFrameResources s). ObjCBIndex e < length (ObjectCB fr)) \<and>
         (\<forall>j k m c. EvCpuTouch j (ObjectCBWrite k) m c \<in> set (trace s) \<longrightarrow> k < 27) \<and>
         (\<forall>j x y. EvDrawItem j x y \<in> set (trace s) \<longrightarrow> x + ob \<le> 27 * ob)"
proof -
  let ?s0 = "Initialize c0 n ob mb dflt shade I W T"
  have t0: "\<forall>j k m c. EvCpuTouch j (ObjectCBWrite k) m c \<in> set (trace ?s0) \<longrightarrow>
      k < length (mAllRitems ?s0)"
    "\<forall>j x y. EvDrawItem j x y \<in> set (trace ?s0) \<longrightarrow>
       x + objCBByteSize ?s0 \<le> length (mAllRitems ?s0) * objCBByteSize ?s0"
    by (simp_all add: Initialize_fields)
  from run_object_buffers [OF assms scene_ok_Initialize t0]
  have sc: "scene_ok s" and l: "length (mAllRitems s) = 27"
    and w: "\<forall>j k m c. EvCpuTouch j (ObjectCBWrite k) m c \<in> set (trace s) \<longrightarrow> k < 27"
    and d: "\<forall>j x y. EvDrawItem j x y \<in> set (trace s) \<longrightarrow> x + ob \<le> 27 * ob"
    by (simp_all add: Initialize_fields)
  have 1: "map ObjCBIndex (mAllRitems s) =
           [0, 1, 2, 3, 4, 5, 6, 7, 8, 9, 10, 11, 12, 13, 14, 15, 16, 17, 18, 19, 20, 21, 22, 23,
            24, 25, 26]"
    using assms
  proof (rule run_invariant)
    show "map ObjCBIndex (mAllRitems (Initialize c0 n ob mb dflt shade I W T)) =
           [0, 1, 2, 3, 4, 5, 6, 7, 8, 9, 10, 11, 12, 13, 14, 15, 16, 17, 18, 19, 20, 21, 22, 23,
            24, 25, 26]"
      by (rule Initialize_ObjCBIndex)
  qed (simp_all del: map_map)
  from sc l have 2: "distinct (map ObjCBIndex (mAllRitems s))"
    "length (mFrameResources s) = 3"
    "\<forall>fr\<in>set (mFrameResources s). length (ObjectCB fr) = 27"
    "\<forall>e\<in>set (mAllRitems s). \<forall>fr\<in>set (mFrameResources s). ObjCBIndex e < length (ObjectCB fr)"
    by (simp_all add: scene_ok_def gNumFrameResources_def)
  from 1 2 l w d show ?thesis by blast
qed

theorem objcb_index_in_range_witness:
  "run [Cpu demo_inp, Cpu demo_inp] demo_app = Inr demo2 \<and>
   length (mAllRitems demo2) = 27 \<and> length (mFrameResources demo2) = 3 \<and>
   ObjCBIndex (mAllRitems demo2 ! 26) = 26 \<and>
   length (ObjectCB (mFrameResources demo2 ! 0)) = 27 \<and>
   EvCpuTouch 1 (ObjectCBWrite 26) 0 0 \<in> set (trace demo1)"
proof -
  note t = objcb_index_in_range [OF demo_run(3) [unfolded demo_app_def]]
  from t have l: "length (mAllRitems demo2) = 27" "length (mFrameResources demo2) = 3" by blast+
  have "map ObjCBIndex (mAllRitems demo2) ! 26 = 26"
    unfolding t [THEN conjunct1] by simp
  then have i: "ObjCBIndex (mAllRitems demo2 ! 26) = 26" using l by simp
  have "mFrameResources demo2 ! 0 \<in> set (mFrameResources demo2)"
    using l by (intro nth_mem) simp
  with t have c: "length (ObjectCB (mFrameResources demo2 ! 0)) = 27" by blast
  have e: "mAllRitems demo_app ! 26 \<in> set (mAllRitems demo_app)"
    by (intro nth_mem) (simp add: demo_app_def Initialize_fields)
  have "map ObjCBIndex (mAllRitems demo_app) ! 26 = 26"
    unfolding demo_app_def Initialize_ObjCBIndex by simp
  then have "ObjCBIndex (mAllRitems demo_app ! 26) = 26"
    by (simp add: demo_app_def Initialize_fields)
  moreover have "dirty (mAllRitems demo_app ! 26)"
    using e Initialize_NumFramesDirty [of 0 2 256 256 _ _ demo_I demo_W "\<lambda>_. demo_I"]
    unfolding demo_app_def dirty_def gNumFrameResources_def by fastforce
  ultimately have "EvCpuTouch 1 (ObjectCBWrite 26) 0 0 \<in> set (Update_events demo_app 0)"
    using e unfolding Update_events_def demo_slot demo_marker by force
  then have "EvCpuTouch 1 (ObjectCBWrite 26) 0 0 \<in> set (trace demo1)"
    by (simp add: demo1_def frame_events_def)
  with demo_run(3) l i c show ?thesis by blast
qed

subsection \<open>C9: the order of the steps of a frame\<close>

lemma smod_nonneg: "0 \<le> (a::int) \<Longrightarrow> 0 < b \<Longrightarrow> a smod b = a mod b"
  by (simp add: signed_modulo_int_def sgn_if)

lemma mat_writes_fst: "map fst (mat_writes ms) = map (\<lambda>km. MatCBIndex (snd km)) (filter mat_dirty ms)"
  by (simp add: mat_writes_def comp_def)

lemma distinct_mat_writes:
  "distinct (map (\<lambda>km. MatCBIndex (snd km)) ms) \<Longrightarrow> distinct (map fst (mat_writes ms))"
  unfolding mat_writes_fst by (rule distinct_map_filter)

lemma mat_writes_hit:
  assumes "distinct (map (\<lambda>km. MatCBIndex (snd km)) ms)" "km \<in> set ms" "mat_dirty km"
    "MatCBIndex (snd km) < length buf"
  shows "apply_writes (mat_writes ms) buf ! MatCBIndex (snd km) =
           Some (MaterialConstants (Shading (snd km)) (XMMatrixTranspose (MatTransform (snd km))))"
proof -
  from assms(2,3) have
    "(MatCBIndex (snd km),
      MaterialConstants (Shading (snd km)) (XMMatrixTranspose (MatTransform (snd km))))
       \<in> set (mat_writes ms)"
    by (auto simp: mat_writes_def)
  from apply_writes_hit [OF distinct_mat_writes [OF assms(1)] this assms(4)] show ?thesis .
qed

lemma mat_writes_miss:
  assumes "distinct (map (\<lambda>km. MatCBIndex (snd km)) ms)" "km \<in> set ms" "\<not> mat_dirty km"
  shows "apply_writes (mat_writes ms) buf ! MatCBIndex (snd km) = buf ! MatCBIndex (snd km)"
proof -
  have "MatCBIndex (snd km) \<notin> fst ` set (mat_writes ms)"
  proof
    assume "MatCBIndex (snd km) \<in> fst ` set (mat_writes ms)"
    then obtain km' where km': "km' \<in> set ms" "mat_dirty km'"
      "MatCBIndex (snd km') = MatCBIndex (snd km)"
      by (auto simp: mat_writes_def)
    with assms(1,2) have "km' = km" by (auto simp: distinct_map inj_on_def)
    with km'(2) assms(3) show False by simp
  qed
  then show ?thesis by (rule apply_writes_other)
qed

text \<open>
  C9. Per-frame driver ordering. A frame that takes \<open>s\<close> to \<open>s'\<close> does, in this order and
  once each: the rotation to the next slot; the wait, which is the only step that can
  block (it blocks when \<open>must_wait s\<close>, and nothing else in the trace is a block); the
  update sweep, all of whose writes go to the buffers of the new current slot; the reset
  of that slot's command allocator and the recording, which binds the pass constants and
  the object constants of that slot only; the submission; the presentation, which
  advances the back-buffer index by 1 modulo the swap-chain buffer count; and the stamp,
  which stores the incremented fence counter as the marker of the slot just used.

  The steps leave their effects in the state. After the wait the marker of the new slot
  is 0 or reached. The sweep lowers the countdown of every dirty render item and of every
  dirty material by 1 and leaves the others as they are; in the new slot it stores the
  transposed transforms of the dirty items at their indices (the indices being distinct),
  the constants of the dirty materials at theirs, and the pass constants at element 0.
  The recording has reset the allocator of the new slot once. The other slots are
  untouched. The submission has queued the signal of the new marker last. All in all
  \<open>s'\<close> is \<open>frame_state\<close> of \<open>s\<close>.
\<close>

theorem frame_driver_ordering:
  assumes "Frame inp s = Inr s'"
  shows "trace s' = trace s @
           [EvRotate (frame_slot s)] @
           Synchronize_events s @
           Update_events s (fenceCompleted s') @
           Record_events s (fenceCompleted s') @
           [EvSubmit] @ [EvPresent] @ [EvStamp (frame_slot s) (mCurrentFence s + 1)] \<and>
         Synchronize_events s = (if must_wait s then [EvBlocked (frame_marker s)] else []) \<and>
         (\<forall>m. EvBlocked m \<notin> set (Update_events s (fenceCompleted s') @
                                  Record_events s (fenceCompleted s'))) \<and>
         (\<forall>e\<in>set (Update_events s (fenceCompleted s')).
            \<exists>a. e = EvCpuTouch (frame_slot s) a (frame_marker s) (fenceCompleted s') \<and>
                a \<noteq> AllocatorReset) \<and>
         (\<exists>draws. Record_events s (fenceCompleted s') =
            [EvCpuTouch (frame_slot s) AllocatorReset (frame_marker s) (fenceCompleted s'),
             EvBindPassCB (frame_slot s)] @ draws \<and>
            length draws = length (mOpaqueRitems s) \<and>
            (\<forall>e\<in>set draws. \<exists>x y. e = EvDrawItem (frame_slot s) x y)) \<and>
         mCurrFrameResource s' = Some (frame_slot s) \<and>
         mCurrBackBuffer s' = (mCurrBackBuffer s + 1) smod SwapChainBufferCount s \<and>
         (0 \<le> mCurrBackBuffer s \<and> 0 < SwapChainBufferCount s \<longrightarrow>
            mCurrBackBuffer s' = (mCurrBackBuffer s + 1) mod SwapChainBufferCount s) \<and>
         mCurrentFence s' = mCurrentFence s + 1 \<and>
         Fence (mFrameResources s' ! frame_slot s) = mCurrentFence s + 1 \<and>
         (frame_marker s = 0 \<or> frame_marker s \<le> fenceCompleted s') \<and>
         (\<not> must_wait s \<longrightarrow>
            fenceCompleted s' = fenceCompleted s \<and>
            queuedSignals s' = queuedSignals s @ [mCurrentFence s + 1]) \<and>
         length (mAllRitems s') = length (mAllRitems s) \<and>
         (\<forall>k<length (mAllRitems s).
            mAllRitems s' ! k =
              (if 0 < NumFramesDirty (mAllRitems s ! k)
               then (mAllRitems s ! k)\<lparr>NumFramesDirty := NumFramesDirty (mAllRitems s ! k) - 1\<rparr>
               else mAllRitems s ! k)) \<and>
         (distinct (map ObjCBIndex (mAllRitems s)) \<longrightarrow>
            (\<forall>k<length (mAllRitems s).
               ObjectCB (mFrameResources s' ! frame_slot s) ! ObjCBIndex (mAllRitems s ! k) =
                 (if 0 < NumFramesDirty (mAllRitems s ! k)
                  then Some (ObjectConstants (XMMatrixTranspose (World (mAllRitems s ! k)))
                                             (XMMatrixTranspose (TexTransform (mAllRitems s ! k))))
                  else ObjectCB (mFrameResources s ! frame_slot s) ! ObjCBIndex (mAllRitems s ! k)))) \<and>
         map fst (mMaterials s') = map fst (mMaterials s) \<and>
         (\<forall>i<length (mMaterials s).
            snd (mMaterials s' ! i) =
              (if 0 < MatNumFramesDirty (snd (mMaterials s ! i))
               then (snd (mMaterials s ! i))
                      \<lparr>MatNumFramesDirty := MatNumFramesDirty (snd (mMaterials s ! i)) - 1\<rparr>
               else snd (mMaterials s ! i))) \<and>
         (distinct (map (\<lambda>km. MatCBIndex (snd km)) (mMaterials s)) \<longrightarrow>
            (\<forall>i<length (mMaterials s).
               MaterialCB (mFrameResources s' ! frame_slot s) ! MatCBIndex (snd (mMaterials s ! i)) =
                 (if 0 < MatNumFramesDirty (snd (mMaterials s ! i))
                  then Some (MaterialConstants (Shading (snd (mMaterials s ! i)))
                               (XMMatrixTranspose (MatTransform (snd (mMaterials s ! i)))))
                  else MaterialCB (mFrameResources s ! frame_slot s) !
                         MatCBIndex (snd (mMaterials s ! i))))) \<and>
         PassCB (mFrameResources s' ! frame_slot s) ! 0 = Some (passConstants inp) \<and>
         CmdListAllocResets (mFrameResources s' ! frame_slot s) =
           CmdListAllocResets (mFrameResources s ! frame_slot s) + 1 \<and>
         (\<forall>j. j \<noteq> frame_slot s \<longrightarrow> mFrameResources s' ! j = mFrameResources s ! j) \<and>
         queuedSignals s' \<noteq> [] \<and> last (queuedSignals s') = mCurrentFence s + 1 \<and>
         s' = frame_state inp (fenceCompleted s') (butlast (queuedSignals s')) s"
proof -
  from Frame_Inr_D [OF assms] obtain c q where
    ok: "frame_ok inp s" and sy: "sync_result (hrSetEventOnCompletion inp) s = Some (c, q)"
    and s': "s' = frame_state inp c q s" by blast
  let ?i = "frame_slot s"
  let ?fr = "mFrameResources s ! ?i"
  from ok have sl: "?i < length (mFrameResources s)"
    and orng: "\<forall>e\<in>set (mAllRitems s). dirty e \<longrightarrow> ObjCBIndex e < length (ObjectCB ?fr)"
    and mrng: "\<forall>km\<in>set (mMaterials s). mat_dirty km \<longrightarrow> MatCBIndex (snd km) < length (MaterialCB ?fr)"
    and prng: "0 < length (PassCB ?fr)"
    by (simp_all add: frame_ok_def)
  have c: "fenceCompleted s' = c" by (simp add: s')
  have qs: "queuedSignals s' = q @ [mCurrentFence s + 1]" by (simp add: s')
  have 1: "trace s' = trace s @
           [EvRotate (frame_slot s)] @ Synchronize_events s @ Update_events s c @
           Record_events s c @
           [EvSubmit] @ [EvPresent] @ [EvStamp (frame_slot s) (mCurrentFence s + 1)]"
    by (simp add: s' frame_events_def Rotate_events_def Stamp_events_def)
  have 2: "Synchronize_events s = (if must_wait s then [EvBlocked (frame_marker s)] else [])"
    by (simp add: Synchronize_events_def)
  have 3: "\<forall>m. EvBlocked m \<notin> set (Update_events s c @ Record_events s c)"
    by (auto simp: Update_events_def Record_events_def)
  have 4: "\<forall>e\<in>set (Update_events s c).
            \<exists>a. e = EvCpuTouch (frame_slot s) a (frame_marker s) c \<and> a \<noteq> AllocatorReset"
    by (auto simp: Update_events_def)
  have 5: "\<exists>draws. Record_events s c =
            [EvCpuTouch (frame_slot s) AllocatorReset (frame_marker s) c,
             EvBindPassCB (frame_slot s)] @ draws \<and>
            length draws = length (mOpaqueRitems s) \<and>
            (\<forall>e\<in>set draws. \<exists>x y. e = EvDrawItem (frame_slot s) x y)"
    unfolding Record_events_def
    by (intro exI conjI) (rule refl, auto)
  have 6: "mCurrFrameResource s' = Some (frame_slot s)"
    "mCurrBackBuffer s' = (mCurrBackBuffer s + 1) smod SwapChainBufferCount s"
    "mCurrentFence s' = mCurrentFence s + 1"
    by (simp_all add: s')
  have 7: "0 \<le> mCurrBackBuffer s \<and> 0 < SwapChainBufferCount s \<longrightarrow>
            mCurrBackBuffer s' = (mCurrBackBuffer s + 1) mod SwapChainBufferCount s"
    unfolding 6(2) by (simp add: smod_nonneg)
  have 8: "Fence (mFrameResources s' ! frame_slot s) = mCurrentFence s + 1"
    unfolding s' by (rule frame_state_slot(1) [OF sl])
  from sync_result_D [OF sy] have 9: "frame_marker s = 0 \<or> frame_marker s \<le> c"
    and nw: "\<not> must_wait s \<longrightarrow> c = fenceCompleted s \<and> q = queuedSignals s" by blast+
  from nw have 10: "\<not> must_wait s \<longrightarrow>
      c = fenceCompleted s \<and> queuedSignals s' = queuedSignals s @ [mCurrentFence s + 1]"
    by (simp add: qs)
  have 11: "length (mAllRitems s') = length (mAllRitems s)" by (simp add: s')
  have 12: "\<forall>k<length (mAllRitems s).
            mAllRitems s' ! k =
              (if 0 < NumFramesDirty (mAllRitems s ! k)
               then (mAllRitems s ! k)\<lparr>NumFramesDirty := NumFramesDirty (mAllRitems s ! k) - 1\<rparr>
               else mAllRitems s ! k)"
    by (simp add: s' decr_def)
  have ocb: "ObjectCB (mFrameResources s' ! ?i) = apply_writes (obj_writes (mAllRitems s)) (ObjectCB ?fr)"
    and mcb: "MaterialCB (mFrameResources s' ! ?i) = apply_writes (mat_writes (mMaterials s)) (MaterialCB ?fr)"
    and pcb: "PassCB (mFrameResources s' ! ?i) = (PassCB ?fr)[0 := Some (passConstants inp)]"
    and 17: "CmdListAllocResets (mFrameResources s' ! ?i) = CmdListAllocResets ?fr + 1"
    unfolding s' by (rule frame_state_slot [OF sl])+
  have 13: "ObjectCB (mFrameResources s' ! ?i) ! ObjCBIndex (mAllRitems s ! k) =
                 (if 0 < NumFramesDirty (mAllRitems s ! k)
                  then Some (ObjectConstants (XMMatrixTranspose (World (mAllRitems s ! k)))
                                             (XMMatrixTranspose (TexTransform (mAllRitems s ! k))))
                  else ObjectCB ?fr ! ObjCBIndex (mAllRitems s ! k))"
    if d: "distinct (map ObjCBIndex (mAllRitems s))" and k: "k < length (mAllRitems s)" for k
  proof -
    let ?e = "mAllRitems s ! k"
    from k have mem: "?e \<in> set (mAllRitems s)" by simp
    show ?thesis
    proof (cases "dirty ?e")
      case True
      with orng mem have "ObjCBIndex ?e < length (ObjectCB ?fr)" by blast
      from obj_writes_hit [OF d mem True this] True show ?thesis
        by (simp add: ocb payload_def dirty_def)
    next
      case False
      from obj_writes_miss [OF d mem False] False show ?thesis
        by (simp add: ocb dirty_def)
    qed
  qed
  have 14: "map fst (mMaterials s') = map fst (mMaterials s)"
    by (simp add: s' mat_decr_def comp_def)
  have 15: "\<forall>i<length (mMaterials s).
            snd (mMaterials s' ! i) =
              (if 0 < MatNumFramesDirty (snd (mMaterials s ! i))
               then (snd (mMaterials s ! i))
                      \<lparr>MatNumFramesDirty := MatNumFramesDirty (snd (mMaterials s ! i)) - 1\<rparr>
               else snd (mMaterials s ! i))"
    by (simp add: s' mat_decr_def mdecr_def)
  have 16: "MaterialCB (mFrameResources s' ! ?i) ! MatCBIndex (snd (mMaterials s ! i)) =
                 (if 0 < MatNumFramesDirty (snd (mMaterials s ! i))
                  then Some (MaterialConstants (Shading (snd (mMaterials s ! i)))
                               (XMMatrixTranspose (MatTransform (snd (mMaterials s ! i)))))
                  else MaterialCB ?fr ! MatCBIndex (snd (mMaterials s ! i)))"
    if d: "distinct (map (\<lambda>km. MatCBIndex (snd km)) (mMaterials s))"
      and i: "i < length (mMaterials s)" for i
  proof -
    let ?km = "mMaterials s ! i"
    from i have mem: "?km \<in> set (mMaterials s)" by simp
    show ?thesis
    proof (cases "mat_dirty ?km")
      case True
      with mrng mem have "MatCBIndex (snd ?km) < length (MaterialCB ?fr)" by blast
      from mat_writes_hit [OF d mem True this] True show ?thesis
        by (simp add: mcb mat_dirty_def)
    next
      case False
      from mat_writes_miss [OF d mem False] False show ?thesis
        by (simp add: mcb mat_dirty_def)
    qed
  qed
  have 18: "PassCB (mFrameResources s' ! ?i) ! 0 = Some (passConstants inp)"
    using prng by (simp add: pcb)
  have 19: "\<forall>j. j \<noteq> ?i \<longrightarrow> mFrameResources s' ! j = mFrameResources s ! j"
    unfolding s' by (simp add: frame_state_other_slot)
  have 20: "queuedSignals s' \<noteq> []" "last (queuedSignals s') = mCurrentFence s + 1"
    by (simp_all add: qs)
  have "butlast (queuedSignals s') = q" by (simp add: qs)
  then have 21: "s' = frame_state inp c (butlast (queuedSignals s')) s"
    using s' by (simp only:)
  from 1 2 3 4 5 6 7 8 9 10 11 12 13 14 15 16 17 18 19 20 21 show ?thesis
    unfolding c by blast
qed

theorem frame_driver_ordering_witness:
  "Frame demo_inp demo3 = Inr demo4 \<and>
   frame_slot demo3 = 1 \<and> must_wait demo3 \<and>
   Synchronize_events demo3 = [EvBlocked 1] \<and>
   mCurrBackBuffer demo3 = 1 \<and> mCurrBackBuffer demo4 = 0 \<and>
   mCurrentFence demo4 = 4 \<and> Fence (mFrameResources demo4 ! 1) = 4 \<and>
   trace demo4 = trace demo3 @
           [EvRotate 1] @ [EvBlocked 1] @ Update_events demo3 1 @ Record_events demo3 1 @
           [EvSubmit] @ [EvPresent] @ [EvStamp 1 4] \<and>
   Frame demo_inp demo_app = Inr demo1 \<and>
   frame_slot demo_app = 1 \<and> \<not> must_wait demo_app \<and>
   distinct (map ObjCBIndex (mAllRitems demo_app)) \<and>
   distinct (map (\<lambda>km. MatCBIndex (snd km)) (mMaterials demo_app)) \<and>
   NumFramesDirty (mAllRitems demo_app ! 0) = 3 \<and>
   NumFramesDirty (mAllRitems demo1 ! 0) = 2 \<and>
   ObjCBIndex (mAllRitems demo_app ! 0) = 0 \<and>
   ObjectCB (mFrameResources demo_app ! 1) ! 0 = None \<and>
   ObjectCB (mFrameResources demo1 ! 1) ! 0 =
     Some (ObjectConstants (XMFLOAT4X4 1 0 0 0  0 1 0 2  0 0 1 3  0 0 0 1) demo_I) \<and>
   MatNumFramesDirty (snd (mMaterials demo_app ! 0)) = 3 \<and>
   MatNumFramesDirty (snd (mMaterials demo1 ! 0)) = 2 \<and>
   MatCBIndex (snd (mMaterials demo_app ! 0)) = 1 \<and>
   MaterialCB (mFrameResources demo1 ! 1) ! 1 = Some (MaterialConstants () demo_I) \<and>
   PassCB (mFrameResources demo1 ! 1) ! 0 = Some () \<and>
   CmdListAllocResets (mFrameResources demo1 ! 1) = 1 \<and>
   mFrameResources demo1 ! 0 = mFrameResources demo_app ! 0 \<and>
   mFrameResources demo1 ! 2 = mFrameResources demo_app ! 2 \<and>
   fenceCompleted demo1 = 0 \<and> queuedSignals demo1 = [1]"
proof -
  note t = frame_driver_ordering [OF demo_Frame(4)]
  have w: "must_wait demo3" by (simp add: must_wait_def demo_marker demo_gpu)
  then have sy: "Synchronize_events demo3 = [EvBlocked 1]"
    by (simp add: Synchronize_events_def demo_marker)
  have b: "mCurrBackBuffer demo_app = 0" "SwapChainBufferCount demo_app = 2"
    by (simp_all add: demo_app_def Initialize_fields)
  have b3: "mCurrBackBuffer demo3 = 1"
    by (simp add: demo3_def demo2_def demo1_def b signed_modulo_int_def)
  have b4: "mCurrBackBuffer demo4 = 0"
    by (simp add: demo4_def b3) (simp add: demo3_def demo2_def demo1_def b signed_modulo_int_def)
  have f: "Fence (mFrameResources demo4 ! 1) = 4"
    using t [THEN conjunct2, THEN conjunct2, THEN conjunct2, THEN conjunct2, THEN conjunct2,
        THEN conjunct2, THEN conjunct2, THEN conjunct2, THEN conjunct2, THEN conjunct1]
    unfolding demo_slot demo_fence by simp
  have tr: "trace demo4 = trace demo3 @
           [EvRotate 1] @ [EvBlocked 1] @ Update_events demo3 1 @ Record_events demo3 1 @
           [EvSubmit] @ [EvPresent] @ [EvStamp 1 4]"
    using t [THEN conjunct1] unfolding demo_slot demo_fence demo_gpu sy by simp
  note t0 = frame_driver_ordering [OF demo_Frame(1)]
  from t0 have c12: "\<forall>k<length (mAllRitems demo_app).
            mAllRitems demo1 ! k =
              (if 0 < NumFramesDirty (mAllRitems demo_app ! k)
               then (mAllRitems demo_app ! k)\<lparr>NumFramesDirty := NumFramesDirty (mAllRitems demo_app ! k) - 1\<rparr>
               else mAllRitems demo_app ! k)"
    by blast
  from t0 have c13: "distinct (map ObjCBIndex (mAllRitems demo_app)) \<longrightarrow>
            (\<forall>k<length (mAllRitems demo_app).
               ObjectCB (mFrameResources demo1 ! frame_slot demo_app) ! ObjCBIndex (mAllRitems demo_app ! k) =
                 (if 0 < NumFramesDirty (mAllRitems demo_app ! k)
                  then Some (ObjectConstants (XMMatrixTranspose (World (mAllRitems demo_app ! k)))
                                             (XMMatrixTranspose (TexTransform (mAllRitems demo_app ! k))))
                  else ObjectCB (mFrameResources demo_app ! frame_slot demo_app) ! ObjCBIndex (mAllRitems demo_app ! k)))"
    by blast
  from t0 have c15: "\<forall>i<length (mMaterials demo_app).
            snd (mMaterials demo1 ! i) =
              (if 0 < MatNumFramesDirty (snd (mMaterials demo_app ! i))
               then (snd (mMaterials demo_app ! i))
                      \<lparr>MatNumFramesDirty := MatNumFramesDirty (snd (mMaterials demo_app ! i)) - 1\<rparr>
               else snd (mMaterials demo_app ! i))"
    by blast
  from t0 have c16: "distinct (map (\<lambda>km. MatCBIndex (snd km)) (mMaterials demo_app)) \<longrightarrow>
            (\<forall>i<length (mMaterials demo_app).
               MaterialCB (mFrameResources demo1 ! frame_slot demo_app) ! MatCBIndex (snd (mMaterials demo_app ! i)) =
                 (if 0 < MatNumFramesDirty (snd (mMaterials demo_app ! i))
                  then Some (MaterialConstants (Shading (snd (mMaterials demo_app ! i)))
                               (XMMatrixTranspose (MatTransform (snd (mMaterials demo_app ! i)))))
                  else MaterialCB (mFrameResources demo_app ! frame_slot demo_app) !
                         MatCBIndex (snd (mMaterials demo_app ! i))))"
    by blast
  from t0 have c18: "PassCB (mFrameResources demo1 ! frame_slot demo_app) ! 0 = Some (passConstants demo_inp)"
    by blast
  from t0 have c17: "CmdListAllocResets (mFrameResources demo1 ! frame_slot demo_app) =
           CmdListAllocResets (mFrameResources demo_app ! frame_slot demo_app) + 1"
    by blast
  from t0 have c19: "\<forall>j. j \<noteq> frame_slot demo_app \<longrightarrow> mFrameResources demo1 ! j = mFrameResources demo_app ! j"
    by blast
  from t0 have c10: "\<not> must_wait demo_app \<longrightarrow>
            fenceCompleted demo1 = fenceCompleted demo_app \<and>
            queuedSignals demo1 = queuedSignals demo_app @ [mCurrentFence demo_app + 1]"
    by blast
  have sl: "frame_slot demo_app = 1" by (simp add: demo_slot)
  have nw: "\<not> must_wait demo_app" by (simp add: must_wait_def demo_marker)
  have d: "distinct (map ObjCBIndex (mAllRitems demo_app))"
    using scene_ok_demo(1) by (simp add: scene_ok_def)
  have ms: "mMaterials demo_app =
      [(''bricks'', \<lparr>MatCBIndex = 1, DiffuseSrvHeapIndex = 1, MatNumFramesDirty = 3, Shading = (),
                      MatTransform = demo_I\<rparr>),
       (''woodCrate'', \<lparr>MatCBIndex = 0, DiffuseSrvHeapIndex = 0, MatNumFramesDirty = 3, Shading = (),
                         MatTransform = demo_I\<rparr>),
       (''grass'', \<lparr>MatCBIndex = 2, DiffuseSrvHeapIndex = 2, MatNumFramesDirty = 3, Shading = (),
                     MatTransform = demo_I\<rparr>),
       (''marble'', \<lparr>MatCBIndex = 3, DiffuseSrvHeapIndex = 3, MatNumFramesDirty = 3, Shading = (),
                      MatTransform = demo_I\<rparr>),
       (''treeSprites'', \<lparr>MatCBIndex = 4, DiffuseSrvHeapIndex = 4, MatNumFramesDirty = 3,
                           Shading = (), MatTransform = demo_I\<rparr>)]"
    by (simp add: demo_app_def Initialize_def BuildFrameResources_def BuildRenderItems_def
        BuildMaterials_def CrateApp_new_def Let_def)
  have dm: "distinct (map (\<lambda>km. MatCBIndex (snd km)) (mMaterials demo_app))"
    by (simp add: ms)
  have l0: "0 < length (mAllRitems demo_app)" by (simp add: demo_app_def Initialize_fields)
  then have mem: "mAllRitems demo_app ! 0 \<in> set (mAllRitems demo_app)" by (rule nth_mem)
  have n0: "NumFramesDirty (mAllRitems demo_app ! 0) = 3"
    using Initialize_NumFramesDirty [of 0 2 256 256 _ _ demo_I demo_W "\<lambda>_. demo_I"] mem
    unfolding demo_app_def gNumFrameResources_def by blast
  have "map ObjCBIndex (mAllRitems demo_app) ! 0 = 0"
    unfolding demo_app_def Initialize_ObjCBIndex by simp
  then have oi0: "ObjCBIndex (mAllRitems demo_app ! 0) = 0" using l0 by simp
  have wt: "World (mAllRitems demo_app ! 0) = demo_W 0"
    "TexTransform (mAllRitems demo_app ! 0) = demo_I"
    by (simp_all add: demo_app_def Initialize_def BuildFrameResources_def BuildRenderItems_def
        BuildMaterials_def CrateApp_new_def Let_def ritem_def RenderItem_default_def)
  have fr0: "mFrameResources demo_app ! Suc 0 = FrameResource_new 1 27 5"
    by (simp add: demo_app_def Initialize_fields)
  have o0: "ObjectCB (mFrameResources demo_app ! 1) ! 0 = None"
    by (simp add: fr0 FrameResource_new_def UploadBuffer_new_def)
  have a0: "CmdListAllocResets (mFrameResources demo_app ! 1) = 0"
    by (simp add: fr0 FrameResource_new_def)
  from c12 l0 have "mAllRitems demo1 ! 0 =
      (if 0 < NumFramesDirty (mAllRitems demo_app ! 0)
       then (mAllRitems demo_app ! 0)\<lparr>NumFramesDirty := NumFramesDirty (mAllRitems demo_app ! 0) - 1\<rparr>
       else mAllRitems demo_app ! 0)" by blast
  then have n1: "NumFramesDirty (mAllRitems demo1 ! 0) = 2" by (simp add: n0)
  from c13 d l0 have "ObjectCB (mFrameResources demo1 ! frame_slot demo_app) !
        ObjCBIndex (mAllRitems demo_app ! 0) =
      (if 0 < NumFramesDirty (mAllRitems demo_app ! 0)
       then Some (ObjectConstants (XMMatrixTranspose (World (mAllRitems demo_app ! 0)))
                                  (XMMatrixTranspose (TexTransform (mAllRitems demo_app ! 0))))
       else ObjectCB (mFrameResources demo_app ! frame_slot demo_app) !
              ObjCBIndex (mAllRitems demo_app ! 0))" by blast
  then have o1: "ObjectCB (mFrameResources demo1 ! 1) ! 0 =
     Some (ObjectConstants (XMFLOAT4X4 1 0 0 0  0 1 0 2  0 0 1 3  0 0 0 1) demo_I)"
    by (simp add: sl n0 oi0 wt demo_W_def demo_I_def)
  have lm: "0 < length (mMaterials demo_app)" by (simp add: ms)
  have m0: "MatNumFramesDirty (snd (mMaterials demo_app ! 0)) = 3"
    "MatCBIndex (snd (mMaterials demo_app ! 0)) = 1"
    "Shading (snd (mMaterials demo_app ! 0)) = ()"
    "MatTransform (snd (mMaterials demo_app ! 0)) = demo_I"
    by (simp_all add: ms)
  from c15 lm have "snd (mMaterials demo1 ! 0) =
      (if 0 < MatNumFramesDirty (snd (mMaterials demo_app ! 0))
       then (snd (mMaterials demo_app ! 0))
              \<lparr>MatNumFramesDirty := MatNumFramesDirty (snd (mMaterials demo_app ! 0)) - 1\<rparr>
       else snd (mMaterials demo_app ! 0))" by blast
  then have m1: "MatNumFramesDirty (snd (mMaterials demo1 ! 0)) = 2" by (simp add: m0)
  from c16 dm lm have "MaterialCB (mFrameResources demo1 ! frame_slot demo_app) !
        MatCBIndex (snd (mMaterials demo_app ! 0)) =
      (if 0 < MatNumFramesDirty (snd (mMaterials demo_app ! 0))
       then Some (MaterialConstants (Shading (snd (mMaterials demo_app ! 0)))
                    (XMMatrixTranspose (MatTransform (snd (mMaterials demo_app ! 0)))))
       else MaterialCB (mFrameResources demo_app ! frame_slot demo_app) !
              MatCBIndex (snd (mMaterials demo_app ! 0)))" by blast
  then have mc: "MaterialCB (mFrameResources demo1 ! 1) ! 1 = Some (MaterialConstants () demo_I)"
    by (simp add: sl m0 demo_I_def)
  have p1: "PassCB (mFrameResources demo1 ! 1) ! 0 = Some ()"
    using c18 by (simp add: sl)
  have a1: "CmdListAllocResets (mFrameResources demo1 ! 1) = 1"
    using c17 a0 by (simp add: sl)
  have os: "mFrameResources demo1 ! 0 = mFrameResources demo_app ! 0"
    "mFrameResources demo1 ! 2 = mFrameResources demo_app ! 2"
    using c19 by (simp_all add: sl)
  have g1: "fenceCompleted demo1 = 0" "queuedSignals demo1 = [1]"
    using c10 nw by (simp_all add: demo_gpu demo_fence)
  from demo_Frame(4) demo_slot(4) w sy b3 b4 demo_fence(5) f tr
    demo_Frame(1) sl nw d dm n0 n1 oi0 o0 o1 m0(1) m1 m0(2) mc p1 a1 os g1
  show ?thesis by blast
qed

subsection \<open>Convergence of the dirty countdown\<close>

lemma caught_up_frame_state:
  assumes sc: "scene_ok s" and k: "k < length (mAllRitems s)" and cu: "caught_up s k"
  shows "caught_up (frame_state inp c q s) k"
proof -
  let ?e = "mAllRitems s ! k"
  let ?d = "NumFramesDirty ?e"
  let ?oi = "ObjCBIndex ?e"
  let ?s' = "frame_state inp c q s"
  let ?cur = "frame_slot s"
  from sc have i0: "0 \<le> mCurrFrameResourceIndex s" and l: "length (mFrameResources s) = 3"
    and dist: "distinct (map ObjCBIndex (mAllRitems s))"
    by (simp_all add: scene_ok_def gNumFrameResources_def)
  from k have mem: "?e \<in> set (mAllRitems s)" by simp
  have cur: "?cur < 3" using frame_slot_less [OF i0] .
  then have curl: "?cur < length (mFrameResources s)" using l by simp
  then have "mFrameResources s ! ?cur \<in> set (mFrameResources s)" by simp
  with sc mem have rng: "?oi < length (ObjectCB (mFrameResources s ! ?cur))"
    by (simp add: scene_ok_def)
  have idx': "mCurrFrameResourceIndex ?s' = (mCurrFrameResourceIndex s + 1) mod 3"
    using i0 by (simp add: gNumFrameResources_def smod_3)
  have curi: "int ?cur = (mCurrFrameResourceIndex s + 1) mod 3" by (rule frame_slot_eq [OF i0])
  have e': "mAllRitems ?s' ! k = decr ?e" using k by simp
  have cb: "ObjectCB (mFrameResources ?s' ! ?cur) =
      apply_writes (obj_writes (mAllRitems s)) (ObjectCB (mFrameResources s ! ?cur))"
    by (rule frame_state_slot(2) [OF curl])
  have goal: "ObjectCB (mFrameResources ?s' ! sl) ! ?oi = Some (payload ?e) \<or>
      (\<exists>i\<ge>1. int i \<le> NumFramesDirty (decr ?e) \<and>
             int sl = (mCurrFrameResourceIndex ?s' + int i) mod 3)"
    if sl: "sl < 3" for sl
  proof -
    from cu sl have old: "ObjectCB (mFrameResources s ! sl) ! ?oi = Some (payload ?e) \<or>
        (\<exists>i\<ge>1. int i \<le> ?d \<and> int sl = (mCurrFrameResourceIndex s + int i) mod 3)"
      by (simp add: caught_up_def gNumFrameResources_def)
    show ?thesis
    proof (cases "sl = ?cur")
      case True
      show ?thesis
      proof (cases "dirty ?e")
        case True
        from obj_writes_hit [OF dist mem True rng] \<open>sl = ?cur\<close> cb show ?thesis by simp
      next
        case False
        then have "?d \<le> 0" by (simp add: dirty_def)
        with old have "ObjectCB (mFrameResources s ! sl) ! ?oi = Some (payload ?e)" by auto
        with obj_writes_miss [OF dist mem False] \<open>sl = ?cur\<close> cb show ?thesis by simp
      qed
    next
      case False
      then have same: "mFrameResources ?s' ! sl = mFrameResources s ! sl"
        by (rule frame_state_other_slot)
      from old show ?thesis
      proof
        assume "ObjectCB (mFrameResources s ! sl) ! ?oi = Some (payload ?e)"
        with same show ?thesis by simp
      next
        assume "\<exists>i\<ge>1. int i \<le> ?d \<and> int sl = (mCurrFrameResourceIndex s + int i) mod 3"
        then obtain i where i: "1 \<le> i" "int i \<le> ?d"
          "int sl = (mCurrFrameResourceIndex s + int i) mod 3" by blast
        have "i \<noteq> 1"
        proof
          assume "i = 1"
          with i(3) curi have "int sl = int ?cur" by simp
          with False show False by simp
        qed
        with i(1) have i2: "2 \<le> i" by simp
        then have a: "1 \<le> i - 1" by simp
        from i2 i(2) have b: "int (i - 1) \<le> NumFramesDirty (decr ?e)" by simp
        have "(mCurrFrameResourceIndex ?s' + int (i - 1)) mod 3 =
            (mCurrFrameResourceIndex s + int i) mod 3"
          unfolding idx' using i2 by (simp add: mod_simps of_nat_diff)
        with i(3) have "int sl = (mCurrFrameResourceIndex ?s' + int (i - 1)) mod 3" by simp
        with a b show ?thesis by blast
      qed
    qed
  qed
  show ?thesis
    unfolding caught_up_def e' using goal by (simp add: gNumFrameResources_def)
qed

lemma caught_up_GpuExecute: "caught_up (GpuExecute s) k = caught_up s k"
  by (simp add: caught_up_def)

lemma caught_up_start:
  assumes "0 \<le> mCurrFrameResourceIndex s" "NumFramesDirty (mAllRitems s ! k) = gNumFrameResources"
  shows "caught_up s k"
proof -
  have "\<exists>i\<ge>1. int i \<le> 3 \<and> int sl = (mCurrFrameResourceIndex s + int i) mod 3"
    if "sl < 3" for sl :: nat
  proof -
    let ?j = "(int sl - mCurrFrameResourceIndex s - 1) mod 3"
    have j: "0 \<le> ?j" "?j < 3" by simp_all
    let ?i = "nat ?j + 1"
    have "int ?i = ?j + 1" using j by simp
    then have "(mCurrFrameResourceIndex s + int ?i) mod 3 =
        (mCurrFrameResourceIndex s + ((int sl - mCurrFrameResourceIndex s - 1) mod 3 + 1)) mod 3"
      by (simp add: add.commute)
    also have "\<dots> = int sl mod 3"
      by presburger
    also have "\<dots> = int sl" using that by simp
    finally have "int sl = (mCurrFrameResourceIndex s + int ?i) mod 3" by simp
    moreover have "1 \<le> ?i" "int ?i \<le> 3" using j by simp_all
    ultimately show ?thesis by blast
  qed
  with assms(2) show ?thesis by (simp add: caught_up_def gNumFrameResources_def)
qed

lemma caught_up_end:
  assumes "caught_up s k" "NumFramesDirty (mAllRitems s ! k) \<le> 0"
  shows "\<forall>sl<3. ObjectCB (mFrameResources s ! sl) ! ObjCBIndex (mAllRitems s ! k) =
                Some (payload (mAllRitems s ! k))"
  using assms unfolding caught_up_def by fastforce

lemma run_item:
  assumes "run acts s = Inr s'" "k < length (mAllRitems s)"
  shows "length (mAllRitems s') = length (mAllRitems s) \<and>
         World (mAllRitems s' ! k) = World (mAllRitems s ! k) \<and>
         TexTransform (mAllRitems s' ! k) = TexTransform (mAllRitems s ! k) \<and>
         ObjCBIndex (mAllRitems s' ! k) = ObjCBIndex (mAllRitems s ! k) \<and>
         NumFramesDirty (mAllRitems s' ! k) =
           (if 0 < NumFramesDirty (mAllRitems s ! k)
            then max 0 (NumFramesDirty (mAllRitems s ! k) - int (frames acts))
            else NumFramesDirty (mAllRitems s ! k))"
  using assms
proof (induction acts arbitrary: s)
  case Nil
  then show ?case by simp
next
  case (Cons a acts)
  show ?case
  proof (cases a)
    case Gpu
    with Cons.prems have "run acts (GpuExecute s) = Inr s'" by simp
    from Cons.IH [OF this] Cons.prems(2) Gpu show ?thesis by simp
  next
    case (Cpu inp)
    with Cons.prems obtain s1 where F: "Frame inp s = Inr s1" and r: "run acts s1 = Inr s'"
      by (auto split: sum.splits)
    from Frame_Inr_D [OF F] obtain c q where s1: "s1 = frame_state inp c q s" by blast
    have k1: "k < length (mAllRitems s1)" using Cons.prems(2) by (simp add: s1)
    have it: "mAllRitems s1 ! k = decr (mAllRitems s ! k)" using Cons.prems(2) by (simp add: s1)
    from Cons.IH [OF r k1] show ?thesis
      unfolding it Cpu by (auto simp: s1)
  qed
qed

lemma filter_same_key:
  assumes "distinct (map f xs)" "x \<in> set xs"
  shows "filter (\<lambda>y. f y = f x) xs = [x]"
  using assms
proof (induction xs)
  case Nil
  then show ?case by simp
next
  case (Cons a xs)
  show ?case
  proof (cases "a = x")
    case True
    with Cons.prems(1) have "f x \<notin> f ` set xs" by simp
    then have "\<forall>y\<in>set xs. f y \<noteq> f x" by (metis imageI)
    then have "filter (\<lambda>y. f y = f x) xs = []" by (simp add: filter_empty_conv)
    with True show ?thesis by simp
  next
    case False
    with Cons.prems have x: "x \<in> set xs" and d: "distinct (map f xs)" by auto
    from x Cons.prems(1) have "f a \<noteq> f x" by auto
    with Cons.IH [OF d x] show ?thesis by simp
  qed
qed

lemma filter_is_obj_write_map:
  "filter (is_obj_write oi) (map (\<lambda>e. EvCpuTouch i (ObjectCBWrite (ObjCBIndex e)) m c) es) =
   map (\<lambda>e. EvCpuTouch i (ObjectCBWrite (ObjCBIndex e)) m c) (filter (\<lambda>e. ObjCBIndex e = oi) es)"
  by (induction es) simp_all

lemma filter_is_obj_write_mat [simp]:
  "filter (is_obj_write oi) (map (\<lambda>km. EvCpuTouch i (MaterialCBWrite (g km)) m c) ms) = []"
  by (induction ms) simp_all

lemma filter_is_obj_write_draw [simp]:
  "filter (is_obj_write oi) (map (\<lambda>r. EvDrawItem i (g r) (h r)) rs) = []"
  by (induction rs) simp_all

lemma obj_write_count_frame:
  assumes "distinct (map ObjCBIndex (mAllRitems s))" "k < length (mAllRitems s)"
  shows "length (filter (is_obj_write (ObjCBIndex (mAllRitems s ! k))) (frame_events s c)) =
         (if 0 < NumFramesDirty (mAllRitems s ! k) then 1 else 0)"
proof -
  let ?e = "mAllRitems s ! k"
  from assms(2) have mem: "?e \<in> set (mAllRitems s)" by simp
  have "filter (\<lambda>x. dirty x \<and> ObjCBIndex x = ObjCBIndex ?e) (mAllRitems s) =
      filter dirty (filter (\<lambda>e. ObjCBIndex e = ObjCBIndex ?e) (mAllRitems s))"
    by (simp add: conj_commute)
  also have "\<dots> = filter dirty [?e]"
    by (simp only: filter_same_key [OF assms(1) mem])
  finally have f: "filter (\<lambda>x. dirty x \<and> ObjCBIndex x = ObjCBIndex ?e) (mAllRitems s) =
      (if 0 < NumFramesDirty ?e then [?e] else [])"
    by (simp add: dirty_def)
  show ?thesis
    by (simp add: frame_events_def Rotate_events_def Synchronize_events_def Update_events_def
        Record_events_def Stamp_events_def filter_is_obj_write_map f)
qed

lemma run_obj_write_count:
  assumes "run acts s = Inr s'" "distinct (map ObjCBIndex (mAllRitems s))"
    "k < length (mAllRitems s)"
  shows "\<exists>new. trace s' = trace s @ new \<and>
     length (filter (is_obj_write (ObjCBIndex (mAllRitems s ! k))) new) =
       min (nat (NumFramesDirty (mAllRitems s ! k))) (frames acts)"
  using assms
proof (induction acts arbitrary: s)
  case Nil
  then show ?case by simp
next
  case (Cons a acts)
  show ?case
  proof (cases a)
    case Gpu
    with Cons.prems have "run acts (GpuExecute s) = Inr s'" by simp
    from Cons.IH [OF this] Cons.prems(2,3) Gpu show ?thesis by simp
  next
    case (Cpu inp)
    with Cons.prems obtain s1 where F: "Frame inp s = Inr s1" and r: "run acts s1 = Inr s'"
      by (auto split: sum.splits)
    from Frame_Inr_D [OF F] obtain c q where s1: "s1 = frame_state inp c q s" by blast
    have k1: "k < length (mAllRitems s1)" using Cons.prems(3) by (simp add: s1)
    have d1: "distinct (map ObjCBIndex (mAllRitems s1))"
      using Cons.prems(2) by (simp add: s1 del: map_map)
    have it: "mAllRitems s1 ! k = decr (mAllRitems s ! k)" using Cons.prems(3) by (simp add: s1)
    from Cons.IH [OF r d1 k1] obtain new where
      n: "trace s' = trace s1 @ new"
      "length (filter (is_obj_write (ObjCBIndex (mAllRitems s ! k))) new) =
         min (nat (NumFramesDirty (decr (mAllRitems s ! k)))) (frames acts)"
      unfolding it by auto
    from n(1) have t: "trace s' = trace s @ (frame_events s c @ new)" by (simp add: s1)
    have "length (filter (is_obj_write (ObjCBIndex (mAllRitems s ! k))) (frame_events s c @ new)) =
        min (nat (NumFramesDirty (mAllRitems s ! k))) (frames (a # acts))"
      using obj_write_count_frame [OF Cons.prems(2,3), of c] n(2) Cpu by auto
    with t show ?thesis by blast
  qed
qed

lemma run_caught_up:
  assumes "run acts s = Inr s'" "scene_ok s" "k < length (mAllRitems s)" "caught_up s k"
  shows "caught_up s' k"
proof -
  have "scene_ok s' \<and> k < length (mAllRitems s') \<and> caught_up s' k"
    using assms(1)
  proof (rule run_invariant)
    show "scene_ok s \<and> k < length (mAllRitems s) \<and> caught_up s k" using assms by simp
  qed (simp_all add: scene_ok_GpuExecute scene_ok_frame_state caught_up_GpuExecute
      caught_up_frame_state)
  then show ?thesis by simp
qed

subsection \<open>C6: convergence of the dirty countdown\<close>

text \<open>
  C6. Dirty countdown convergence. Take a well-formed state \<open>s\<close> in which the render item
  at position \<open>k\<close> has the countdown \<open>gNumFrameResources = 3\<close>, and any run from \<open>s\<close> to
  \<open>s'\<close> (no step of a run changes a transform). With \<open>F\<close> the number of frames of the run,
  the countdown of the item in \<open>s'\<close> is \<open>3 - F\<close> for \<open>F \<le> 3\<close> and 0 afterwards: each of the
  first three frames lowers it by exactly 1. The run writes the item's object constants
  \<open>min 3 F\<close> times, once in each of the first three frames and never after. When the run
  has three frames or more, the object buffers of all three slots hold, at the item's
  \<open>ObjCBIndex\<close>, the object constants made of the item's transposed world matrix and
  transposed texture transform.
\<close>

theorem dirty_countdown_convergence:
  assumes "scene_ok s" and "k < length (mAllRitems s)"
    and "NumFramesDirty (mAllRitems s ! k) = gNumFrameResources"
    and "run acts s = Inr s'"
  shows "NumFramesDirty (mAllRitems s' ! k) = max 0 (gNumFrameResources - int (frames acts)) \<and>
    World (mAllRitems s' ! k) = World (mAllRitems s ! k) \<and>
    TexTransform (mAllRitems s' ! k) = TexTransform (mAllRitems s ! k) \<and>
    ObjCBIndex (mAllRitems s' ! k) = ObjCBIndex (mAllRitems s ! k) \<and>
    (\<exists>new. trace s' = trace s @ new \<and>
       length (filter (is_obj_write (ObjCBIndex (mAllRitems s ! k))) new) = min 3 (frames acts)) \<and>
    (3 \<le> frames acts \<longrightarrow>
       (\<forall>sl<3. ObjectCB (mFrameResources s' ! sl) ! ObjCBIndex (mAllRitems s ! k) =
          Some (ObjectConstants (XMMatrixTranspose (World (mAllRitems s ! k)))
                                (XMMatrixTranspose (TexTransform (mAllRitems s ! k))))))"
proof -
  note it = run_item [OF assms(4,2)]
  from it assms(3) have 1:
    "NumFramesDirty (mAllRitems s' ! k) = max 0 (gNumFrameResources - int (frames acts))"
    by (simp add: gNumFrameResources_def)
  from assms(1) have d: "distinct (map ObjCBIndex (mAllRitems s))"
    and i0: "0 \<le> mCurrFrameResourceIndex s" by (simp_all add: scene_ok_def)
  from run_obj_write_count [OF assms(4) d assms(2)] assms(3) have 2:
    "\<exists>new. trace s' = trace s @ new \<and>
       length (filter (is_obj_write (ObjCBIndex (mAllRitems s ! k))) new) = min 3 (frames acts)"
    by (simp add: gNumFrameResources_def)
  have cu: "caught_up s' k"
    by (rule run_caught_up [OF assms(4,1,2) caught_up_start [OF i0 assms(3)]])
  have 3: "\<forall>sl<3. ObjectCB (mFrameResources s' ! sl) ! ObjCBIndex (mAllRitems s ! k) =
          Some (ObjectConstants (XMMatrixTranspose (World (mAllRitems s ! k)))
                                (XMMatrixTranspose (TexTransform (mAllRitems s ! k))))"
    if "3 \<le> frames acts"
  proof -
    from 1 that have "NumFramesDirty (mAllRitems s' ! k) \<le> 0"
      by (simp add: gNumFrameResources_def)
    from caught_up_end [OF cu this] it show ?thesis by (simp add: payload_def)
  qed
  from it 1 2 3 show ?thesis by blast
qed

theorem dirty_countdown_convergence_witness:
  "scene_ok demo_app \<and> 0 < length (mAllRitems demo_app) \<and>
   NumFramesDirty (mAllRitems demo_app ! 0) = gNumFrameResources \<and>
   run [Cpu demo_inp, Cpu demo_inp, Cpu demo_inp, Cpu demo_inp] demo_app = Inr demo4 \<and>
   NumFramesDirty (mAllRitems demo4 ! 0) = 0 \<and>
   ObjectCB (mFrameResources demo4 ! 0) ! 0 =
     Some (ObjectConstants (XMFLOAT4X4 1 0 0 0  0 1 0 2  0 0 1 3  0 0 0 1) demo_I) \<and>
   ObjectCB (mFrameResources demo4 ! 1) ! 0 =
     Some (ObjectConstants (XMFLOAT4X4 1 0 0 0  0 1 0 2  0 0 1 3  0 0 0 1) demo_I) \<and>
   ObjectCB (mFrameResources demo4 ! 2) ! 0 =
     Some (ObjectConstants (XMFLOAT4X4 1 0 0 0  0 1 0 2  0 0 1 3  0 0 0 1) demo_I)"
proof -
  have l: "0 < length (mAllRitems demo_app)" by (simp add: demo_app_def Initialize_fields)
  then have mem: "mAllRitems demo_app ! 0 \<in> set (mAllRitems demo_app)" by (rule nth_mem)
  have n: "NumFramesDirty (mAllRitems demo_app ! 0) = gNumFrameResources"
    using Initialize_NumFramesDirty [of 0 2 256 256 _ _ demo_I demo_W "\<lambda>_. demo_I"] mem
    unfolding demo_app_def by blast
  have "map ObjCBIndex (mAllRitems demo_app) ! 0 = 0"
    unfolding demo_app_def Initialize_ObjCBIndex by simp
  then have oi: "ObjCBIndex (mAllRitems demo_app ! 0) = 0" using l by simp
  have wt: "World (mAllRitems demo_app ! 0) = demo_W 0"
    "TexTransform (mAllRitems demo_app ! 0) = demo_I"
    by (simp_all add: demo_app_def Initialize_def BuildFrameResources_def BuildRenderItems_def
        BuildMaterials_def CrateApp_new_def Let_def ritem_def RenderItem_default_def)
  note t = dirty_countdown_convergence [OF scene_ok_demo(1) l n demo_run(5)]
  have c: "NumFramesDirty (mAllRitems demo4 ! 0) = 0"
    using t by (simp add: gNumFrameResources_def)
  have "\<forall>sl<3. ObjectCB (mFrameResources demo4 ! sl) ! 0 =
     Some (ObjectConstants (XMFLOAT4X4 1 0 0 0  0 1 0 2  0 0 1 3  0 0 0 1) demo_I)"
    using t unfolding oi wt by (simp add: demo_W_def demo_I_def)
  then have b: "ObjectCB (mFrameResources demo4 ! 0) ! 0 =
       Some (ObjectConstants (XMFLOAT4X4 1 0 0 0  0 1 0 2  0 0 1 3  0 0 0 1) demo_I)"
    "ObjectCB (mFrameResources demo4 ! 1) ! 0 =
       Some (ObjectConstants (XMFLOAT4X4 1 0 0 0  0 1 0 2  0 0 1 3  0 0 0 1) demo_I)"
    "ObjectCB (mFrameResources demo4 ! 2) ! 0 =
       Some (ObjectConstants (XMFLOAT4X4 1 0 0 0  0 1 0 2  0 0 1 3  0 0 0 1) demo_I)"
    by simp_all
  from scene_ok_demo(1) l n demo_run(5) c b show ?thesis by blast
qed

subsection \<open>C7: a second change of the transform supersedes the first\<close>

lemma SetWorld_simps [simp]:
  "mFrameResources (SetWorld k W s) = mFrameResources s"
  "mCurrFrameResourceIndex (SetWorld k W s) = mCurrFrameResourceIndex s"
  "mMaterials (SetWorld k W s) = mMaterials s"
  "mOpaqueRitems (SetWorld k W s) = mOpaqueRitems s"
  "mCurrentFence (SetWorld k W s) = mCurrentFence s"
  "fenceCompleted (SetWorld k W s) = fenceCompleted s"
  "queuedSignals (SetWorld k W s) = queuedSignals s"
  "SwapChainBufferCount (SetWorld k W s) = SwapChainBufferCount s"
  "length (mAllRitems (SetWorld k W s)) = length (mAllRitems s)"
  by (simp_all add: SetWorld_def)

lemma SetWorld_item:
  assumes "k < length (mAllRitems s)"
  shows "mAllRitems (SetWorld k W s) ! k =
           (mAllRitems s ! k)\<lparr>World := W, NumFramesDirty := gNumFrameResources\<rparr>"
  using assms by (simp add: SetWorld_def)

lemma SetWorld_ObjCBIndex: "map ObjCBIndex (mAllRitems (SetWorld k W s)) = map ObjCBIndex (mAllRitems s)"
proof (cases "k < length (mAllRitems s)")
  case True
  then show ?thesis by (auto simp: SetWorld_def nth_list_update intro!: nth_equalityI)
next
  case False
  then have "length (mAllRitems s) \<le> k" by simp
  then show ?thesis unfolding SetWorld_def by (simp add: list_update_beyond)
qed

lemma SetWorld_Mat: "map Mat (mAllRitems (SetWorld k W s)) = map Mat (mAllRitems s)"
proof (cases "k < length (mAllRitems s)")
  case True
  then show ?thesis by (auto simp: SetWorld_def nth_list_update intro!: nth_equalityI)
next
  case False
  then have "length (mAllRitems s) \<le> k" by simp
  then show ?thesis unfolding SetWorld_def by (simp add: list_update_beyond)
qed

lemma scene_ok_SetWorld:
  assumes "scene_ok s"
  shows "scene_ok (SetWorld k W s)"
proof -
  have o: "\<forall>e\<in>set (mAllRitems (SetWorld k W s)). ObjCBIndex e < length (mAllRitems s)"
  proof
    fix e assume "e \<in> set (mAllRitems (SetWorld k W s))"
    then have "ObjCBIndex e \<in> set (map ObjCBIndex (mAllRitems (SetWorld k W s)))" by simp
    then have "ObjCBIndex e \<in> set (map ObjCBIndex (mAllRitems s))"
      unfolding SetWorld_ObjCBIndex .
    with assms show "ObjCBIndex e < length (mAllRitems s)" by (auto simp: scene_ok_def)
  qed
  have m: "Mat (mAllRitems (SetWorld k W s) ! r) = Mat (mAllRitems s ! r)"
    if "r < length (mAllRitems s)" for r
  proof -
    from that have "Mat (mAllRitems (SetWorld k W s) ! r) = map Mat (mAllRitems (SetWorld k W s)) ! r"
      by simp
    also have "\<dots> = Mat (mAllRitems s ! r)" unfolding SetWorld_Mat using that by simp
    finally show ?thesis .
  qed
  from assms o m show ?thesis
    unfolding scene_ok_def SetWorld_ObjCBIndex by simp
qed

lemma fence_ok_SetWorld: "fence_ok (SetWorld k W s) = fence_ok s"
  by (simp add: fence_ok_def)

text \<open>
  C7. Dirty superseding. Let the countdown of the render item at position \<open>k\<close> of a
  well-formed state \<open>s\<close> be strictly between 0 and \<open>gNumFrameResources\<close>, and let its
  transform be changed to \<open>W\<close>. The countdown is then exactly \<open>gNumFrameResources\<close>, not
  the old countdown plus \<open>gNumFrameResources\<close>. All three slots are stale again: a run
  from there lowers the countdown by 1 in each of its first three frames, writes the
  item's object constants in each of them, and after three frames all three slots hold
  the object constants made of the transposed \<open>W\<close>.
\<close>

theorem dirty_superseding:
  assumes "scene_ok s" and "k < length (mAllRitems s)"
    and "0 < NumFramesDirty (mAllRitems s ! k)"
    and "NumFramesDirty (mAllRitems s ! k) < gNumFrameResources"
    and "run acts (SetWorld k W s) = Inr s'"
  shows "NumFramesDirty (mAllRitems (SetWorld k W s) ! k) = gNumFrameResources \<and>
    NumFramesDirty (mAllRitems (SetWorld k W s) ! k) \<noteq>
      NumFramesDirty (mAllRitems s ! k) + gNumFrameResources \<and>
    World (mAllRitems (SetWorld k W s) ! k) = W \<and>
    NumFramesDirty (mAllRitems s' ! k) = max 0 (gNumFrameResources - int (frames acts)) \<and>
    (\<exists>new. trace s' = trace s @ new \<and>
       length (filter (is_obj_write (ObjCBIndex (mAllRitems s ! k))) new) = min 3 (frames acts)) \<and>
    (3 \<le> frames acts \<longrightarrow>
       (\<forall>sl<3. ObjectCB (mFrameResources s' ! sl) ! ObjCBIndex (mAllRitems s ! k) =
          Some (ObjectConstants (XMMatrixTranspose W)
                                (XMMatrixTranspose (TexTransform (mAllRitems s ! k))))))"
proof -
  let ?t = "SetWorld k W s"
  have kt: "k < length (mAllRitems ?t)" using assms(2) by simp
  note e = SetWorld_item [OF assms(2), of W]
  have n: "NumFramesDirty (mAllRitems ?t ! k) = gNumFrameResources" by (simp add: e)
  have 1: "NumFramesDirty (mAllRitems ?t ! k) \<noteq> NumFramesDirty (mAllRitems s ! k) + gNumFrameResources"
    using assms(3) by (simp add: e)
  have 2: "World (mAllRitems ?t ! k) = W" by (simp add: e)
  have oi: "ObjCBIndex (mAllRitems ?t ! k) = ObjCBIndex (mAllRitems s ! k)"
    "TexTransform (mAllRitems ?t ! k) = TexTransform (mAllRitems s ! k)" by (simp_all add: e)
  have sc: "scene_ok ?t" by (rule scene_ok_SetWorld [OF assms(1)])
  then have d: "distinct (map ObjCBIndex (mAllRitems ?t))"
    and i0: "0 \<le> mCurrFrameResourceIndex ?t" by (simp_all add: scene_ok_def)
  note it = run_item [OF assms(5) kt]
  from it n have 3:
    "NumFramesDirty (mAllRitems s' ! k) = max 0 (gNumFrameResources - int (frames acts))"
    by (simp add: gNumFrameResources_def)
  have tr: "trace ?t = trace s" by (simp add: SetWorld_def)
  from run_obj_write_count [OF assms(5) d kt] n have 4:
    "\<exists>new. trace s' = trace s @ new \<and>
       length (filter (is_obj_write (ObjCBIndex (mAllRitems s ! k))) new) = min 3 (frames acts)"
    unfolding oi tr by (simp add: gNumFrameResources_def)
  have cu: "caught_up s' k"
    by (rule run_caught_up [OF assms(5) sc kt caught_up_start [OF i0 n]])
  have 5: "\<forall>sl<3. ObjectCB (mFrameResources s' ! sl) ! ObjCBIndex (mAllRitems s ! k) =
          Some (ObjectConstants (XMMatrixTranspose W)
                                (XMMatrixTranspose (TexTransform (mAllRitems s ! k))))"
    if "3 \<le> frames acts"
  proof -
    from 3 that have "NumFramesDirty (mAllRitems s' ! k) \<le> 0"
      by (simp add: gNumFrameResources_def)
    from caught_up_end [OF cu this] it show ?thesis by (simp add: payload_def oi 2)
  qed
  from n 1 2 3 4 5 show ?thesis by blast
qed

theorem dirty_superseding_witness:
  "\<exists>s'. scene_ok demo1 \<and> 0 < length (mAllRitems demo1) \<and>
     NumFramesDirty (mAllRitems demo1 ! 0) = 2 \<and>
     run [Cpu demo_inp, Cpu demo_inp, Cpu demo_inp] (SetWorld 0 (demo_W 5) demo1) = Inr s' \<and>
     NumFramesDirty (mAllRitems (SetWorld 0 (demo_W 5) demo1) ! 0) = 3 \<and>
     NumFramesDirty (mAllRitems s' ! 0) = 0 \<and>
     ObjectCB (mFrameResources s' ! 0) ! 0 =
       Some (ObjectConstants (XMFLOAT4X4 1 0 0 5  0 1 0 2  0 0 1 3  0 0 0 1) demo_I) \<and>
     ObjectCB (mFrameResources s' ! 1) ! 0 =
       Some (ObjectConstants (XMFLOAT4X4 1 0 0 5  0 1 0 2  0 0 1 3  0 0 0 1) demo_I) \<and>
     ObjectCB (mFrameResources s' ! 2) ! 0 =
       Some (ObjectConstants (XMFLOAT4X4 1 0 0 5  0 1 0 2  0 0 1 3  0 0 0 1) demo_I)"
proof -
  have l0: "0 < length (mAllRitems demo_app)" by (simp add: demo_app_def Initialize_fields)
  then have mem: "mAllRitems demo_app ! 0 \<in> set (mAllRitems demo_app)" by (rule nth_mem)
  have n0: "NumFramesDirty (mAllRitems demo_app ! 0) = 3"
    using Initialize_NumFramesDirty [of 0 2 256 256 _ _ demo_I demo_W "\<lambda>_. demo_I"] mem
    unfolding demo_app_def gNumFrameResources_def by blast
  have "map ObjCBIndex (mAllRitems demo_app) ! 0 = 0"
    unfolding demo_app_def Initialize_ObjCBIndex by simp
  then have oi0: "ObjCBIndex (mAllRitems demo_app ! 0) = 0" using l0 by simp
  have tt0: "TexTransform (mAllRitems demo_app ! 0) = demo_I"
    by (simp add: demo_app_def Initialize_def BuildFrameResources_def BuildRenderItems_def
        BuildMaterials_def CrateApp_new_def Let_def ritem_def RenderItem_default_def)
  have l: "0 < length (mAllRitems demo1)" using l0 by (simp add: demo1_def)
  have n: "NumFramesDirty (mAllRitems demo1 ! 0) = 2" using l0 n0 by (simp add: demo1_def)
  have oi: "ObjCBIndex (mAllRitems demo1 ! 0) = 0" using l0 oi0 by (simp add: demo1_def)
  have tt: "TexTransform (mAllRitems demo1 ! 0) = demo_I" using l0 tt0 by (simp add: demo1_def)
  have "fence_ok demo_app" unfolding demo_app_def by (rule fence_ok_Initialize)
  from run_fence_ok [OF demo_run(2) this] have f1: "fence_ok demo1"
    by (simp add: demo_fence)
  have "\<exists>s'. run [Cpu demo_inp, Cpu demo_inp, Cpu demo_inp] (SetWorld 0 (demo_W 5) demo1) = Inr s'"
    by (rule run_completes)
      (simp_all add: scene_ok_SetWorld scene_ok_demo fence_ok_SetWorld f1 demo_fence
        demo_swap_chain)
  then obtain s' where r:
    "run [Cpu demo_inp, Cpu demo_inp, Cpu demo_inp] (SetWorld 0 (demo_W 5) demo1) = Inr s'" ..
  have a: "0 < NumFramesDirty (mAllRitems demo1 ! 0)"
    "NumFramesDirty (mAllRitems demo1 ! 0) < gNumFrameResources"
    by (simp_all add: n gNumFrameResources_def)
  note t = dirty_superseding [OF scene_ok_demo(2) l a r]
  have c0: "NumFramesDirty (mAllRitems (SetWorld 0 (demo_W 5) demo1) ! 0) = 3"
    using t by (simp add: gNumFrameResources_def)
  have c: "NumFramesDirty (mAllRitems s' ! 0) = 0"
    using t by (simp add: gNumFrameResources_def)
  have "\<forall>sl<3. ObjectCB (mFrameResources s' ! sl) ! 0 =
     Some (ObjectConstants (XMFLOAT4X4 1 0 0 5  0 1 0 2  0 0 1 3  0 0 0 1) demo_I)"
    using t unfolding oi tt by (simp add: demo_W_def demo_I_def)
  then have b: "ObjectCB (mFrameResources s' ! 0) ! 0 =
       Some (ObjectConstants (XMFLOAT4X4 1 0 0 5  0 1 0 2  0 0 1 3  0 0 0 1) demo_I)"
    "ObjectCB (mFrameResources s' ! 1) ! 0 =
       Some (ObjectConstants (XMFLOAT4X4 1 0 0 5  0 1 0 2  0 0 1 3  0 0 0 1) demo_I)"
    "ObjectCB (mFrameResources s' ! 2) ! 0 =
       Some (ObjectConstants (XMFLOAT4X4 1 0 0 5  0 1 0 2  0 0 1 3  0 0 0 1) demo_I)"
    by simp_all
  from scene_ok_demo(2) l n r c0 c b show ?thesis by blast
qed

section \<open>ShapesApp: the frame and the properties of its pipeline\<close>

text \<open>
  The frame of ShapesApp is summarised and its well-formed states are shown to be kept in
  the way this was done for CrateApp; the properties of the frame pipeline follow.
\<close>

subsection \<open>The steps of a frame of ShapesApp\<close>

lemma UpdateObjectCBs_loop_eq':
  "UpdateObjectCBs_loop' ev es cb tr =
     (if \<forall>e\<in>set es. dirty' e \<longrightarrow> ObjCBIndex' e < length cb
      then Inr (map decr' es, apply_writes (obj_writes' es) cb,
                tr @ map (\<lambda>e. ev (ObjectCBWrite (ObjCBIndex' e))) (filter dirty' es))
      else Inl IndexOutOfRange)"
proof (induction es arbitrary: cb tr)
  case Nil
  show ?case by (simp add: obj_writes'_def)
next
  case (Cons e es)
  show ?case
    by (auto simp: Cons.IH CopyData_def dirty'_def[symmetric] decr'_def obj_writes'_def payload'_def)
qed

lemma DrawRenderItems_loop_eq':
  "DrawRenderItems_loop' idx n all rs tr =
     (if \<forall>r\<in>set rs. r < length all
      then Inr (tr @ map (\<lambda>r. EvSetDescriptorTable 0 (sint (cbvIndex idx n (ObjCBIndex' (all ! r))))) rs)
      else Inl NullPointer)"
  by (induction rs arbitrary: tr) auto

lemma decr_simps' [simp]:
  "ObjCBIndex' (decr' e) = ObjCBIndex' e" "World' (decr' e) = World' e"
  "NumFramesDirty' (decr' e) = (if 0 < NumFramesDirty' e then NumFramesDirty' e - 1 else NumFramesDirty' e)"
  by (simp_all add: decr'_def)

lemma payload_decr' [simp]: "payload' (decr' e) = payload' e"
  by (simp add: payload'_def)

lemma draw_events_decr':
  assumes "\<forall>r\<in>set rs. r < length es"
  shows "map (\<lambda>r. EvSetDescriptorTable 0 (sint (cbvIndex idx n (ObjCBIndex' (map decr' es ! r))))) rs =
         map (\<lambda>r. EvSetDescriptorTable 0 (sint (cbvIndex idx n (ObjCBIndex' (es ! r))))) rs"
  using assms by auto

lemma currFrameResource_Inr_iff':
  "currFrameResource' s = Inr (i, fr) \<longleftrightarrow>
     mCurrFrameResource' s = Some i \<and> i < length (mFrameResources' s) \<and> fr = mFrameResources' s ! i"
  by (auto simp: currFrameResource'_def split: option.splits)

lemma Update_rotate_Inr_iff':
  "Update_rotate' s = Inr s1 \<longleftrightarrow>
     0 \<le> (mCurrFrameResourceIndex' s + 1) smod gNumFrameResources \<and>
     frame_slot' s < length (mFrameResources' s) \<and>
     s1 = s\<lparr>mCurrFrameResourceIndex' := (mCurrFrameResourceIndex' s + 1) smod gNumFrameResources,
            mCurrFrameResource' := Some (frame_slot' s),
            trace' := trace' s @ [EvRotate (frame_slot' s)]\<rparr>"
  by (auto simp: Update_rotate'_def frame_slot'_def Let_def)

lemma Update_wait_Inr_iff':
  assumes "mCurrFrameResource' s = Some i" "i < length (mFrameResources' s)"
  shows "Update_wait' hr s = Inr s2 \<longleftrightarrow>
     (if Fence' (mFrameResources' s ! i) \<noteq> 0 \<and> fenceCompleted' s < Fence' (mFrameResources' s ! i)
      then hr \<and> (\<exists>c q. WaitForSingleObject (Fence' (mFrameResources' s ! i)) (fenceCompleted' s)
                          (queuedSignals' s) = Some (c, q) \<and>
                 s2 = s\<lparr>fenceCompleted' := c, queuedSignals' := q,
                        trace' := trace' s @ [EvBlocked (Fence' (mFrameResources' s ! i))]\<rparr>)
      else s2 = s)"
  using assms by (auto simp: Update_wait'_def currFrameResource'_def split: option.splits)

lemma UpdateObjectCBs_Inr_iff':
  assumes "mCurrFrameResource' s = Some i" "i < length (mFrameResources' s)"
  shows "UpdateObjectCBs' s = Inr s3 \<longleftrightarrow>
     (\<forall>e\<in>set (mAllRitems' s). dirty' e \<longrightarrow> ObjCBIndex' e < length (ObjectCB' (mFrameResources' s ! i))) \<and>
     s3 = s\<lparr>mAllRitems' := map decr' (mAllRitems' s),
            mFrameResources' := (mFrameResources' s)[i := (mFrameResources' s ! i)
               \<lparr>ObjectCB' := apply_writes (obj_writes' (mAllRitems' s)) (ObjectCB' (mFrameResources' s ! i))\<rparr>],
            trace' := trace' s @
              map (\<lambda>e. EvCpuTouch i (ObjectCBWrite (ObjCBIndex' e)) (Fence' (mFrameResources' s ! i))
                         (fenceCompleted' s)) (filter dirty' (mAllRitems' s))\<rparr>"
  using assms by (auto simp: UpdateObjectCBs'_def currFrameResource'_def UpdateObjectCBs_loop_eq')

lemma UpdateMainPassCB_Inr_iff':
  assumes "mCurrFrameResource' s = Some i" "i < length (mFrameResources' s)"
  shows "UpdateMainPassCB' pc s = Inr s5 \<longleftrightarrow>
     0 < length (PassCB' (mFrameResources' s ! i)) \<and>
     s5 = s\<lparr>mFrameResources' := (mFrameResources' s)[i := (mFrameResources' s ! i)
               \<lparr>PassCB' := (PassCB' (mFrameResources' s ! i))[0 := Some pc]\<rparr>],
            trace' := trace' s @
              [EvCpuTouch i (PassCBWrite 0) (Fence' (mFrameResources' s ! i)) (fenceCompleted' s)]\<rparr>"
  using assms by (auto simp: UpdateMainPassCB'_def currFrameResource'_def CopyData_def)

lemma Draw_record_Inr_iff':
  assumes "mCurrFrameResource' s = Some i" "i < length (mFrameResources' s)"
  shows "Draw_record' inp s = Inr s6 \<longleftrightarrow>
     hrAllocReset inp \<and> hrCommandListReset inp \<and>
     (\<forall>r\<in>set (mOpaqueRitems' s). r < length (mAllRitems' s)) \<and>
     s6 = s\<lparr>mFrameResources' := (mFrameResources' s)[i := (mFrameResources' s ! i)
               \<lparr>CmdListAllocResets' := CmdListAllocResets' (mFrameResources' s ! i) + 1\<rparr>],
            trace' := trace' s @
              [EvCpuTouch i AllocatorReset (Fence' (mFrameResources' s ! i)) (fenceCompleted' s),
               EvSetDescriptorTable 1
                 (sint (mPassCbvOffset' s + word_of_int (mCurrFrameResourceIndex' s)))] @
              map (\<lambda>r. EvSetDescriptorTable 0
                          (sint (cbvIndex (mCurrFrameResourceIndex' s) (length (mOpaqueRitems' s))
                                   (ObjCBIndex' (mAllRitems' s ! r)))))
                (mOpaqueRitems' s)\<rparr>"
  using assms
  by (auto simp: Draw_record'_def DrawRenderItems'_def currFrameResource'_def DrawRenderItems_loop_eq'
      andThen_Inr_iff)

lemma Draw_submit_present_Inr_iff':
  "Draw_submit_present' inp s = Inr s7 \<longleftrightarrow>
     hrClose inp \<and> hrPresent inp \<and> SwapChainBufferCount' s \<noteq> 0 \<and>
     s7 = s\<lparr>mCurrBackBuffer' := (mCurrBackBuffer' s + 1) smod SwapChainBufferCount' s,
            trace' := trace' s @ [EvSubmit, EvPresent]\<rparr>"
  by (auto simp: Draw_submit_present'_def andThen_Inr_iff)

lemma Draw_stamp_Inr_iff':
  assumes "mCurrFrameResource' s = Some i" "i < length (mFrameResources' s)"
  shows "Draw_stamp' s = Inr s8 \<longleftrightarrow>
     s8 = s\<lparr>mCurrentFence' := mCurrentFence' s + 1,
            queuedSignals' := queuedSignals' s @ [mCurrentFence' s + 1],
            mFrameResources' := (mFrameResources' s)[i := (mFrameResources' s ! i)
               \<lparr>Fence' := mCurrentFence' s + 1\<rparr>],
            trace' := trace' s @ [EvStamp i (mCurrentFence' s + 1)]\<rparr>"
  using assms by (auto simp: Draw_stamp'_def currFrameResource'_def Signal'_def Let_def)

lemma Frame_Inr_D':
  assumes F: "Frame' inp s = Inr s'"
  shows "frame_ok' inp s \<and>
     (\<exists>c q. sync_result' (hrSetEventOnCompletion inp) s = Some (c, q) \<and> s' = frame_state' inp c q s)"
proof -
  from F obtain s1 s2 s3 s5 s6 s7 where
    1: "Update_rotate' s = Inr s1" and
    2: "Update_wait' (hrSetEventOnCompletion inp) s1 = Inr s2" and
    3: "UpdateObjectCBs' s2 = Inr s3" and
    5: "UpdateMainPassCB' (passConstants inp) s3 = Inr s5" and
    6: "Draw_record' inp s5 = Inr s6" and
    7: "Draw_submit_present' inp s6 = Inr s7" and
    8: "Draw_stamp' s7 = Inr s'"
    unfolding Frame'_def Update'_def Draw'_def OnKeyboardInput'_def UpdateCamera'_def
      andThen_Inr_iff by blast
  let ?i = "frame_slot' s"
  let ?fr = "mFrameResources' s ! ?i"
  let ?ix = "(mCurrFrameResourceIndex' s + 1) smod gNumFrameResources"
  from 1 have i0: "0 \<le> ?ix"
    and il: "?i < length (mFrameResources' s)"
    and e1: "s1 = s\<lparr>mCurrFrameResourceIndex' := ?ix,
            mCurrFrameResource' := Some ?i, trace' := trace' s @ [EvRotate ?i]\<rparr>"
    unfolding Update_rotate_Inr_iff' by simp_all
  have p1: "mCurrFrameResource' s1 = Some ?i" "?i < length (mFrameResources' s1)"
    using e1 il by simp_all
  from 2 e1 il obtain c q where
    sy: "sync_result' (hrSetEventOnCompletion inp) s = Some (c, q)" and
    e2: "s2 = s1\<lparr>fenceCompleted' := c, queuedSignals' := q,
                 trace' := trace' s1 @ Synchronize_events' s\<rparr>"
    unfolding Update_wait_Inr_iff' [OF p1]
    by (auto simp: sync_result'_def must_wait'_def frame_marker'_def Synchronize_events'_def
        split: if_splits)
  have p2: "mCurrFrameResource' s2 = Some ?i" "?i < length (mFrameResources' s2)"
    using e1 e2 il by simp_all
  have e3: "s3 = s2\<lparr>mAllRitems' := map decr' (mAllRitems' s),
            mFrameResources' := (mFrameResources' s)[?i := ?fr
               \<lparr>ObjectCB' := apply_writes (obj_writes' (mAllRitems' s)) (ObjectCB' ?fr)\<rparr>],
            trace' := trace' s2 @
              map (\<lambda>e. EvCpuTouch ?i (ObjectCBWrite (ObjCBIndex' e)) (Fence' ?fr) c)
                (filter dirty' (mAllRitems' s))\<rparr>"
    and o3: "\<forall>e\<in>set (mAllRitems' s). dirty' e \<longrightarrow> ObjCBIndex' e < length (ObjectCB' ?fr)"
    using 3 unfolding UpdateObjectCBs_Inr_iff' [OF p2] by (simp_all add: e1 e2)
  have p3: "mCurrFrameResource' s3 = Some ?i" "?i < length (mFrameResources' s3)"
    using e1 e2 e3 il by simp_all
  have e5: "s5 = s3\<lparr>mFrameResources' := (mFrameResources' s)[?i := ?fr
               \<lparr>ObjectCB' := apply_writes (obj_writes' (mAllRitems' s)) (ObjectCB' ?fr),
                PassCB' := (PassCB' ?fr)[0 := Some (passConstants inp)]\<rparr>],
            trace' := trace' s3 @ [EvCpuTouch ?i (PassCBWrite 0) (Fence' ?fr) c]\<rparr>"
    and o5: "0 < length (PassCB' ?fr)"
    using 5 il unfolding UpdateMainPassCB_Inr_iff' [OF p3] by (simp_all add: e1 e2 e3)
  have p5: "mCurrFrameResource' s5 = Some ?i" "?i < length (mFrameResources' s5)"
    using e1 e2 e3 e5 il by simp_all
  have q5: "mAllRitems' s5 = map decr' (mAllRitems' s)"
    "mOpaqueRitems' s5 = mOpaqueRitems' s" "mPassCbvOffset' s5 = mPassCbvOffset' s"
    "mCurrFrameResourceIndex' s5 = ?ix" "fenceCompleted' s5 = c"
    using e1 e2 e3 e5 by simp_all
  have o6: "hrAllocReset inp" "hrCommandListReset inp"
      "\<forall>r\<in>set (mOpaqueRitems' s). r < length (mAllRitems' s)"
    using 6 unfolding Draw_record_Inr_iff' [OF p5] q5 by simp_all
  have e6: "s6 = s5\<lparr>mFrameResources' := (mFrameResources' s)[?i := ?fr
               \<lparr>ObjectCB' := apply_writes (obj_writes' (mAllRitems' s)) (ObjectCB' ?fr),
                PassCB' := (PassCB' ?fr)[0 := Some (passConstants inp)],
                CmdListAllocResets' := CmdListAllocResets' ?fr + 1\<rparr>],
            trace' := trace' s5 @ Record_events' s c\<rparr>"
    using 6 il unfolding Draw_record_Inr_iff' [OF p5] q5 draw_events_decr' [OF o6(3)]
    by (simp add: e1 e2 e3 e5 Record_events'_def frame_marker'_def)
  have e7: "s7 = s6\<lparr>mCurrBackBuffer' := (mCurrBackBuffer' s + 1) smod SwapChainBufferCount' s,
            trace' := trace' s6 @ [EvSubmit, EvPresent]\<rparr>"
    and o7: "hrClose inp" "hrPresent inp" "SwapChainBufferCount' s \<noteq> 0"
    using 7 unfolding Draw_submit_present_Inr_iff' by (simp_all add: e1 e2 e3 e5 e6)
  have p7: "mCurrFrameResource' s7 = Some ?i" "?i < length (mFrameResources' s7)"
    using e1 e2 e3 e5 e6 e7 il by simp_all
  have e8: "s' = s7\<lparr>mCurrentFence' := mCurrentFence' s + 1,
            queuedSignals' := q @ [mCurrentFence' s + 1],
            mFrameResources' := (mFrameResources' s)[?i := ?fr
               \<lparr>ObjectCB' := apply_writes (obj_writes' (mAllRitems' s)) (ObjectCB' ?fr),
                PassCB' := (PassCB' ?fr)[0 := Some (passConstants inp)],
                CmdListAllocResets' := CmdListAllocResets' ?fr + 1,
                Fence' := mCurrentFence' s + 1\<rparr>],
            trace' := trace' s7 @ Stamp_events' s\<rparr>"
    using 8 il unfolding Draw_stamp_Inr_iff' [OF p7]
    by (simp add: e1 e2 e3 e5 e6 e7 Stamp_events'_def)
  have ok: "frame_ok' inp s"
    unfolding frame_ok'_def using i0 il o3 o5 o6 o7 by simp
  have "s' = frame_state' inp c q s"
    unfolding e8 e7 e6 e5 e3 e2 e1
    by (cases s)
      (simp add: frame_state'_def frame_events'_def Rotate_events'_def Update_events'_def
        frame_marker'_def)
  with ok sy show ?thesis by blast
qed

lemma Frame_Inr_I':
  assumes ok: "frame_ok' inp s"
    and sy: "sync_result' (hrSetEventOnCompletion inp) s = Some (c, q)"
  shows "Frame' inp s = Inr (frame_state' inp c q s)"
proof -
  let ?i = "frame_slot' s"
  let ?fr = "mFrameResources' s ! ?i"
  let ?ix = "(mCurrFrameResourceIndex' s + 1) smod gNumFrameResources"
  from ok have i0: "0 \<le> ?ix"
    and il: "?i < length (mFrameResources' s)"
    and o3: "\<forall>e\<in>set (mAllRitems' s). dirty' e \<longrightarrow> ObjCBIndex' e < length (ObjectCB' ?fr)"
    and o5: "0 < length (PassCB' ?fr)"
    and o6: "\<forall>r\<in>set (mOpaqueRitems' s). r < length (mAllRitems' s)"
    and hr: "hrAllocReset inp" "hrCommandListReset inp" "hrClose inp" "hrPresent inp"
    and sc: "SwapChainBufferCount' s \<noteq> 0"
    unfolding frame_ok'_def by simp_all
  define s1 where "s1 = s\<lparr>mCurrFrameResourceIndex' := ?ix,
            mCurrFrameResource' := Some ?i, trace' := trace' s @ [EvRotate ?i]\<rparr>"
  define s2 where "s2 = s1\<lparr>fenceCompleted' := c, queuedSignals' := q,
                 trace' := trace' s1 @ Synchronize_events' s\<rparr>"
  define s3 where "s3 = s2\<lparr>mAllRitems' := map decr' (mAllRitems' s),
            mFrameResources' := (mFrameResources' s)[?i := ?fr
               \<lparr>ObjectCB' := apply_writes (obj_writes' (mAllRitems' s)) (ObjectCB' ?fr)\<rparr>],
            trace' := trace' s2 @
              map (\<lambda>e. EvCpuTouch ?i (ObjectCBWrite (ObjCBIndex' e)) (Fence' ?fr) c)
                (filter dirty' (mAllRitems' s))\<rparr>"
  define s5 where "s5 = s3\<lparr>mFrameResources' := (mFrameResources' s)[?i := ?fr
               \<lparr>ObjectCB' := apply_writes (obj_writes' (mAllRitems' s)) (ObjectCB' ?fr),
                PassCB' := (PassCB' ?fr)[0 := Some (passConstants inp)]\<rparr>],
            trace' := trace' s3 @ [EvCpuTouch ?i (PassCBWrite 0) (Fence' ?fr) c]\<rparr>"
  define s6 where "s6 = s5\<lparr>mFrameResources' := (mFrameResources' s)[?i := ?fr
               \<lparr>ObjectCB' := apply_writes (obj_writes' (mAllRitems' s)) (ObjectCB' ?fr),
                PassCB' := (PassCB' ?fr)[0 := Some (passConstants inp)],
                CmdListAllocResets' := CmdListAllocResets' ?fr + 1\<rparr>],
            trace' := trace' s5 @ Record_events' s c\<rparr>"
  define s7 where "s7 = s6\<lparr>mCurrBackBuffer' := (mCurrBackBuffer' s + 1) smod SwapChainBufferCount' s,
            trace' := trace' s6 @ [EvSubmit, EvPresent]\<rparr>"
  have 1: "Update_rotate' s = Inr s1"
    unfolding Update_rotate_Inr_iff' s1_def using i0 il by simp
  have p1: "mCurrFrameResource' s1 = Some ?i" "?i < length (mFrameResources' s1)"
    using il by (simp_all add: s1_def)
  have 2: "Update_wait' (hrSetEventOnCompletion inp) s1 = Inr s2"
    unfolding Update_wait_Inr_iff' [OF p1] using sy
    by (auto simp: s1_def s2_def sync_result'_def must_wait'_def frame_marker'_def
        Synchronize_events'_def split: if_splits)
  have p2: "mCurrFrameResource' s2 = Some ?i" "?i < length (mFrameResources' s2)"
    using il by (simp_all add: s1_def s2_def)
  have 3: "UpdateObjectCBs' s2 = Inr s3"
    unfolding UpdateObjectCBs_Inr_iff' [OF p2] using o3 by (simp add: s1_def s2_def s3_def)
  have p3: "mCurrFrameResource' s3 = Some ?i" "?i < length (mFrameResources' s3)"
    using il by (simp_all add: s1_def s2_def s3_def)
  have 5: "UpdateMainPassCB' (passConstants inp) s3 = Inr s5"
    unfolding UpdateMainPassCB_Inr_iff' [OF p3] using o5 il
    by (simp add: s1_def s2_def s3_def s5_def)
  have p5: "mCurrFrameResource' s5 = Some ?i" "?i < length (mFrameResources' s5)"
    using il by (simp_all add: s1_def s2_def s3_def s5_def)
  have q5: "mAllRitems' s5 = map decr' (mAllRitems' s)"
    "mOpaqueRitems' s5 = mOpaqueRitems' s" "mPassCbvOffset' s5 = mPassCbvOffset' s"
    "mCurrFrameResourceIndex' s5 = ?ix" "fenceCompleted' s5 = c"
    by (simp_all add: s1_def s2_def s3_def s5_def)
  have 6: "Draw_record' inp s5 = Inr s6"
    unfolding Draw_record_Inr_iff' [OF p5] q5 draw_events_decr' [OF o6]
    using o6 hr il
    by (simp add: s1_def s2_def s3_def s5_def s6_def Record_events'_def frame_marker'_def)
  have 7: "Draw_submit_present' inp s6 = Inr s7"
    unfolding Draw_submit_present_Inr_iff' using hr sc
    by (simp add: s1_def s2_def s3_def s5_def s6_def s7_def)
  have p7: "mCurrFrameResource' s7 = Some ?i" "?i < length (mFrameResources' s7)"
    using il by (simp_all add: s1_def s2_def s3_def s5_def s6_def s7_def)
  have 8: "Draw_stamp' s7 = Inr (frame_state' inp c q s)"
    unfolding Draw_stamp_Inr_iff' [OF p7] using il
    unfolding s7_def s6_def s5_def s3_def s2_def s1_def
    by (cases s)
      (simp add: frame_state'_def frame_events'_def Rotate_events'_def Update_events'_def
        Stamp_events'_def frame_marker'_def)
  show ?thesis
    unfolding Frame'_def Update'_def Draw'_def OnKeyboardInput'_def UpdateCamera'_def
    by (simp add: 1 2 3 5 6 7 8)
qed

lemma Frame_Inr_iff':
  "Frame' inp s = Inr s' \<longleftrightarrow>
     frame_ok' inp s \<and>
     (\<exists>c q. sync_result' (hrSetEventOnCompletion inp) s = Some (c, q) \<and> s' = frame_state' inp c q s)"
  using Frame_Inr_D' [of inp s s'] Frame_Inr_I' [of inp s] by blast

subsection \<open>Well-formed states and runs of ShapesApp\<close>

lemma sync_result_D':
  assumes "sync_result' hr s = Some (c, q)"
  shows "(frame_marker' s = 0 \<or> frame_marker' s \<le> c) \<and>
         (\<exists>pre. fenceCompleted' s # queuedSignals' s = pre @ c # q) \<and>
         (\<not> must_wait' s \<longrightarrow> c = fenceCompleted' s \<and> q = queuedSignals' s)"
proof (cases "must_wait' s")
  case True
  with assms have "WaitForSingleObject (frame_marker' s) (fenceCompleted' s) (queuedSignals' s) = Some (c, q)"
    by (simp add: sync_result'_def split: if_splits)
  from WaitForSingleObject_Some_D [OF this] True show ?thesis by simp
next
  case False
  with assms have "c = fenceCompleted' s" "q = queuedSignals' s"
    by (simp_all add: sync_result'_def)
  with False show ?thesis by (auto simp: must_wait'_def)
qed

lemma frame_slot_less':
  "0 \<le> mCurrFrameResourceIndex' s \<Longrightarrow> frame_slot' s < 3"
  by (simp add: frame_slot'_def gNumFrameResources_def smod_3)

lemma frame_slot_eq':
  "0 \<le> mCurrFrameResourceIndex' s \<Longrightarrow>
   int (frame_slot' s) = (mCurrFrameResourceIndex' s + 1) mod 3"
  by (simp add: frame_slot'_def gNumFrameResources_def smod_3)

lemma frame_ok_if_scene_ok':
  assumes "scene_ok' s" "device_ok inp" "SwapChainBufferCount' s \<noteq> 0"
  shows "frame_ok' inp s"
proof -
  from assms(1) have i: "0 \<le> mCurrFrameResourceIndex' s" and l: "length (mFrameResources' s) = 3"
    by (simp_all add: scene_ok'_def gNumFrameResources_def)
  from i l have sl: "frame_slot' s < length (mFrameResources' s)"
    using frame_slot_less' [of s] by simp
  then have mem: "mFrameResources' s ! frame_slot' s \<in> set (mFrameResources' s)" by simp
  from i have "0 \<le> (mCurrFrameResourceIndex' s + 1) smod gNumFrameResources"
    by (simp add: gNumFrameResources_def smod_3)
  with assms sl mem show ?thesis
    unfolding frame_ok'_def scene_ok'_def device_ok_def by auto
qed

lemma scene_ok_frame_state':
  assumes "scene_ok' s"
  shows "scene_ok' (frame_state' inp c q s)"
proof -
  from assms have i: "0 \<le> mCurrFrameResourceIndex' s" and l: "length (mFrameResources' s) = 3"
    by (simp_all add: scene_ok'_def gNumFrameResources_def)
  from i l have sl: "frame_slot' s < length (mFrameResources' s)"
    using frame_slot_less' [of s] by simp
  then have mem: "mFrameResources' s ! frame_slot' s \<in> set (mFrameResources' s)" by simp
  have idx: "0 \<le> (mCurrFrameResourceIndex' s + 1) smod gNumFrameResources"
    "(mCurrFrameResourceIndex' s + 1) smod gNumFrameResources < gNumFrameResources"
    using i by (simp_all add: gNumFrameResources_def smod_3)
  have o: "map ObjCBIndex' (map decr' (mAllRitems' s)) = map ObjCBIndex' (mAllRitems' s)"
    by simp
  have fr: "\<forall>fr\<in>set (mFrameResources' (frame_state' inp c q s)).
        length (ObjectCB' fr) = length (mAllRitems' s) \<and> length (PassCB' fr) = 1"
  proof
    fix fr assume "fr \<in> set (mFrameResources' (frame_state' inp c q s))"
    then have "fr \<in> set ((mFrameResources' s)[frame_slot' s :=
           (mFrameResources' s ! frame_slot' s)
             \<lparr>ObjectCB' := apply_writes (obj_writes' (mAllRitems' s))
                            (ObjectCB' (mFrameResources' s ! frame_slot' s)),
              PassCB' := (PassCB' (mFrameResources' s ! frame_slot' s))[0 := Some (passConstants inp)],
              CmdListAllocResets' := CmdListAllocResets' (mFrameResources' s ! frame_slot' s) + 1,
              Fence' := mCurrentFence' s + 1\<rparr>])"
      by (simp add: frame_state'_def)
    then show "length (ObjectCB' fr) = length (mAllRitems' s) \<and> length (PassCB' fr) = 1"
      using assms mem by (auto simp: scene_ok'_def dest!: set_update_subset_insert [THEN subsetD])
  qed
  show ?thesis
    unfolding scene_ok'_def
    using assms idx fr
    by (simp add: frame_state'_def scene_ok'_def o del: map_map)
qed

lemma scene_ok_GpuExecute': "scene_ok' s \<Longrightarrow> scene_ok' (GpuExecute' s)"
  by (auto simp: scene_ok'_def GpuExecute'_def split: list.splits)

lemma fence_ok_frame_state':
  assumes f: "fence_ok' s" and sy: "sync_result' hr s = Some (c, q)"
    and nw: "mCurrentFence' s + 1 \<noteq> 0"
  shows "fence_ok' (frame_state' inp c q s)"
proof -
  let ?m = "mCurrentFence' s"
  from sync_result_D' [OF sy] obtain pre where
    pre: "fenceCompleted' s # queuedSignals' s = pre @ c # q" by blast
  from f have so: "sorted_wrt (<) (pre @ c # q)" and la: "last (pre @ c # q) = ?m"
    and fe: "\<forall>fr\<in>set (mFrameResources' s). Fence' fr \<le> ?m"
    by (simp_all add: fence_ok'_def pre)
  from so have so': "sorted_wrt (<) (c # q)" by (simp add: sorted_wrt_append)
  from la have la': "last (c # q) = ?m" by simp
  have le: "\<forall>x\<in>set (c # q). x \<le> ?m"
    using sorted_wrt_less_last [OF so'] la' by auto
  have lt: "?m < ?m + 1" using nw by (rule word64_less_Suc)
  have 1: "sorted_wrt (<) (c # q @ [?m + 1])"
    using so' le lt by (auto simp: sorted_wrt_append)
  have 2: "\<forall>fr\<in>set (mFrameResources' (frame_state' inp c q s)). Fence' fr \<le> ?m + 1"
  proof
    fix fr assume "fr \<in> set (mFrameResources' (frame_state' inp c q s))"
    then have "Fence' fr = ?m + 1 \<or> fr \<in> set (mFrameResources' s)"
      by (auto simp: frame_state'_def dest!: set_update_subset_insert [THEN subsetD])
    with fe lt show "Fence' fr \<le> ?m + 1" by (auto simp: less_imp_le intro: order_trans)
  qed
  show ?thesis
    unfolding fence_ok'_def using 1 2 by (simp add: frame_state'_def)
qed

lemma fence_ok_GpuExecute': "fence_ok' s \<Longrightarrow> fence_ok' (GpuExecute' s)"
  by (auto simp: fence_ok'_def GpuExecute'_def split: list.splits)

lemma sync_result_exists':
  assumes f: "fence_ok' s" and l: "frame_slot' s < length (mFrameResources' s)" and hr: "hr"
  shows "\<exists>c q. sync_result' hr s = Some (c, q)"
proof (cases "must_wait' s")
  case False
  then show ?thesis by (simp add: sync_result'_def)
next
  case True
  from l have "mFrameResources' s ! frame_slot' s \<in> set (mFrameResources' s)" by simp
  with f have "frame_marker' s \<le> last (fenceCompleted' s # queuedSignals' s)"
    unfolding fence_ok'_def frame_marker'_def by metis
  moreover have "last (fenceCompleted' s # queuedSignals' s) \<in> set (fenceCompleted' s # queuedSignals' s)"
    by (rule last_in_set) simp
  ultimately have "\<exists>v\<in>set (fenceCompleted' s # queuedSignals' s). frame_marker' s \<le> v" by blast
  from WaitForSingleObject_Some_I [OF this] True hr show ?thesis
    by (simp add: sync_result'_def)
qed

lemma Frame_completes':
  assumes "scene_ok' s" "fence_ok' s" "device_ok inp" "SwapChainBufferCount' s \<noteq> 0"
  shows "\<exists>c q. sync_result' (hrSetEventOnCompletion inp) s = Some (c, q) \<and>
               Frame' inp s = Inr (frame_state' inp c q s)"
proof -
  from assms(1) have "frame_slot' s < length (mFrameResources' s)"
    using frame_slot_less' [of s] by (simp add: scene_ok'_def gNumFrameResources_def)
  from sync_result_exists' [OF assms(2) this, of "hrSetEventOnCompletion inp"] assms(3)
  obtain c q where sy: "sync_result' (hrSetEventOnCompletion inp) s = Some (c, q)"
    by (auto simp: device_ok_def)
  from Frame_Inr_I' [OF frame_ok_if_scene_ok' [OF assms(1,3,4)] sy] sy show ?thesis by blast
qed

lemma frame_state_mCurrentFence' [simp]:
  "mCurrentFence' (frame_state' inp c q s) = mCurrentFence' s + 1"
  by (simp add: frame_state'_def)

lemma GpuExecute_simps' [simp]:
  "mCurrentFence' (GpuExecute' s) = mCurrentFence' s"
  "mCurrFrameResourceIndex' (GpuExecute' s) = mCurrFrameResourceIndex' s"
  "mCurrFrameResource' (GpuExecute' s) = mCurrFrameResource' s"
  "mFrameResources' (GpuExecute' s) = mFrameResources' s"
  "mAllRitems' (GpuExecute' s) = mAllRitems' s"
  "mOpaqueRitems' (GpuExecute' s) = mOpaqueRitems' s"
  "mCurrBackBuffer' (GpuExecute' s) = mCurrBackBuffer' s"
  "SwapChainBufferCount' (GpuExecute' s) = SwapChainBufferCount' s"
  "mPassCbvOffset' (GpuExecute' s) = mPassCbvOffset' s"
  "trace' (GpuExecute' s) = trace' s"
  by (simp_all add: GpuExecute'_def split: list.splits)

lemma run_invariant':
  assumes "run' acts s = Inr s'" and "P s"
    and gpu: "\<And>s. P s \<Longrightarrow> P (GpuExecute' s)"
    and cpu: "\<And>inp c q s. P s \<Longrightarrow> frame_ok' inp s \<Longrightarrow>
              sync_result' (hrSetEventOnCompletion inp) s = Some (c, q) \<Longrightarrow> P (frame_state' inp c q s)"
  shows "P s'"
  using assms(1,2)
proof (induction acts arbitrary: s)
  case Nil
  then show ?case by simp
next
  case (Cons a acts)
  show ?case
  proof (cases a)
    case Gpu
    with Cons.prems have "run' acts (GpuExecute' s) = Inr s'" by simp
    from Cons.IH [OF this gpu [OF Cons.prems(2)]] show ?thesis .
  next
    case (Cpu inp)
    with Cons.prems obtain s1 where F: "Frame' inp s = Inr s1" and r: "run' acts s1 = Inr s'"
      by (auto split: sum.splits)
    from Frame_Inr_D' [OF F] obtain c q where
      "frame_ok' inp s" "sync_result' (hrSetEventOnCompletion inp) s = Some (c, q)"
      "s1 = frame_state' inp c q s" by blast
    with cpu [OF Cons.prems(2)] have "P s1" by blast
    from Cons.IH [OF r this] show ?thesis .
  qed
qed

lemma run_scene_ok': "run' acts s = Inr s' \<Longrightarrow> scene_ok' s \<Longrightarrow> scene_ok' s'"
  by (erule run_invariant') (auto intro: scene_ok_GpuExecute' scene_ok_frame_state')

lemma run_fence_ok':
  assumes "run' acts s = Inr s'" "fence_ok' s" "unat (mCurrentFence' s) + frames acts < 2 ^ 64"
  shows "fence_ok' s' \<and> mCurrentFence' s' = mCurrentFence' s + of_nat (frames acts)"
  using assms
proof (induction acts arbitrary: s)
  case Nil
  then show ?case by simp
next
  case (Cons a acts)
  show ?case
  proof (cases a)
    case Gpu
    with Cons.prems have "run' acts (GpuExecute' s) = Inr s'" by simp
    from Cons.IH [OF this fence_ok_GpuExecute' [OF Cons.prems(2)]] Cons.prems(3) Gpu
    show ?thesis by simp
  next
    case (Cpu inp)
    with Cons.prems obtain s1 where F: "Frame' inp s = Inr s1" and r: "run' acts s1 = Inr s'"
      by (auto split: sum.splits)
    from Frame_Inr_D' [OF F] obtain c q where
      sy: "sync_result' (hrSetEventOnCompletion inp) s = Some (c, q)" and
      s1: "s1 = frame_state' inp c q s" by blast
    from Cons.prems(3) Cpu have "unat (mCurrentFence' s) + Suc (frames acts) < 2 ^ 64" by simp
    from unat_fence_step [OF this] have nw: "mCurrentFence' s + 1 \<noteq> 0"
      and b: "unat (mCurrentFence' s + 1) + frames acts < 2 ^ 64" by simp_all
    have f1: "fence_ok' s1" unfolding s1 by (rule fence_ok_frame_state' [OF Cons.prems(2) sy nw])
    from Cons.IH [OF r f1] b s1 Cpu show ?thesis by (simp add: add.assoc)
  qed
qed

lemma run_completes':
  assumes "scene_ok' s" "fence_ok' s" "devices_ok acts"
    "unat (mCurrentFence' s) + frames acts < 2 ^ 64" "SwapChainBufferCount' s \<noteq> 0"
  shows "\<exists>s'. run' acts s = Inr s'"
  using assms
proof (induction acts arbitrary: s)
  case Nil
  then show ?case by simp
next
  case (Cons a acts)
  show ?case
  proof (cases a)
    case Gpu
    with Cons.IH [OF scene_ok_GpuExecute' [OF Cons.prems(1)] fence_ok_GpuExecute' [OF Cons.prems(2)]]
      Cons.prems(3,4,5)
    show ?thesis by simp
  next
    case (Cpu inp)
    with Cons.prems(3) have d: "device_ok inp" and ds: "devices_ok acts" by simp_all
    from Frame_completes' [OF Cons.prems(1,2) d Cons.prems(5)] obtain c q where
      sy: "sync_result' (hrSetEventOnCompletion inp) s = Some (c, q)" and
      F: "Frame' inp s = Inr (frame_state' inp c q s)" by blast
    from Cons.prems(4) Cpu have "unat (mCurrentFence' s) + Suc (frames acts) < 2 ^ 64" by simp
    from unat_fence_step [OF this] have nw: "mCurrentFence' s + 1 \<noteq> 0"
      and b: "unat (mCurrentFence' (frame_state' inp c q s)) + frames acts < 2 ^ 64" by simp_all
    have sc: "SwapChainBufferCount' (frame_state' inp c q s) \<noteq> 0"
      using Cons.prems(5) by (simp add: frame_state'_def)
    from Cons.IH [OF scene_ok_frame_state' [OF Cons.prems(1)]
        fence_ok_frame_state' [OF Cons.prems(2) sy nw] ds b sc] F Cpu
    show ?thesis by simp
  qed
qed

lemma Initialize_fields':
  "mCurrentFence' (Initialize' c0 n I W) = c0"
  "fenceCompleted' (Initialize' c0 n I W) = c0"
  "queuedSignals' (Initialize' c0 n I W) = []"
  "mCurrFrameResourceIndex' (Initialize' c0 n I W) = 0"
  "mCurrFrameResource' (Initialize' c0 n I W) = None"
  "mCurrBackBuffer' (Initialize' c0 n I W) = 0"
  "SwapChainBufferCount' (Initialize' c0 n I W) = n"
  "mPassCbvOffset' (Initialize' c0 n I W) = 78"
  "trace' (Initialize' c0 n I W) = []"
  "length (mAllRitems' (Initialize' c0 n I W)) = 26"
  "length (mOpaqueRitems' (Initialize' c0 n I W)) = 26"
  "mFrameResources' (Initialize' c0 n I W) = replicate 3 (FrameResource_new' 1 26)"
  by (simp_all add: Initialize'_def BuildFrameResources'_def BuildRenderItems'_def BuildDescriptorHeaps'_def
      ShapesApp_new_def gNumFrameResources_def Let_def)

lemma Initialize_ObjCBIndex':
  "map ObjCBIndex' (mAllRitems' (Initialize' c0 n I W)) =
     [0, 1, 2, 3, 4, 5, 6, 7, 8, 9, 10, 11, 12, 13, 14, 15, 16, 17, 18, 19, 20, 21, 22, 23, 24, 25]"
  by (simp add: Initialize'_def BuildFrameResources'_def BuildRenderItems'_def BuildDescriptorHeaps'_def
      ShapesApp_new_def Let_def ritem'_def RenderItem_default'_def)

lemma Initialize_NumFramesDirty':
  "\<forall>e\<in>set (mAllRitems' (Initialize' c0 n I W)). NumFramesDirty' e = gNumFrameResources"
  by (simp add: Initialize'_def BuildFrameResources'_def BuildRenderItems'_def BuildDescriptorHeaps'_def
      ShapesApp_new_def Let_def ritem'_def RenderItem_default'_def)

lemma scene_ok_Initialize': "scene_ok' (Initialize' c0 n I W)"
  by (simp add: scene_ok'_def Initialize'_def BuildFrameResources'_def BuildRenderItems'_def
      BuildDescriptorHeaps'_def ShapesApp_new_def gNumFrameResources_def ritem'_def RenderItem_default'_def
      FrameResource_new'_def UploadBuffer_new_def Let_def)

lemma fence_ok_Initialize': "fence_ok' (Initialize' c0 n I W)"
  by (simp add: fence_ok'_def Initialize_fields' FrameResource_new'_def)

lemma frame_state_simps' [simp]:
  "mCurrBackBuffer' (frame_state' inp c q s) = (mCurrBackBuffer' s + 1) smod SwapChainBufferCount' s"
  "SwapChainBufferCount' (frame_state' inp c q s) = SwapChainBufferCount' s"
  "mPassCbvOffset' (frame_state' inp c q s) = mPassCbvOffset' s"
  "fenceCompleted' (frame_state' inp c q s) = c"
  "queuedSignals' (frame_state' inp c q s) = q @ [mCurrentFence' s + 1]"
  "mCurrFrameResource' (frame_state' inp c q s) = Some (frame_slot' s)"
  "mCurrFrameResourceIndex' (frame_state' inp c q s) =
     (mCurrFrameResourceIndex' s + 1) smod gNumFrameResources"
  "mAllRitems' (frame_state' inp c q s) = map decr' (mAllRitems' s)"
  "mOpaqueRitems' (frame_state' inp c q s) = mOpaqueRitems' s"
  "trace' (frame_state' inp c q s) = trace' s @ frame_events' s c"
  "length (mFrameResources' (frame_state' inp c q s)) = length (mFrameResources' s)"
  by (simp_all add: frame_state'_def)

lemma frame_state_slot':
  assumes "frame_slot' s < length (mFrameResources' s)"
  shows "Fence' (mFrameResources' (frame_state' inp c q s) ! frame_slot' s) = mCurrentFence' s + 1"
    and "ObjectCB' (mFrameResources' (frame_state' inp c q s) ! frame_slot' s) =
           apply_writes (obj_writes' (mAllRitems' s)) (ObjectCB' (mFrameResources' s ! frame_slot' s))"
    and "PassCB' (mFrameResources' (frame_state' inp c q s) ! frame_slot' s) =
           (PassCB' (mFrameResources' s ! frame_slot' s))[0 := Some (passConstants inp)]"
    and "CmdListAllocResets' (mFrameResources' (frame_state' inp c q s) ! frame_slot' s) =
           CmdListAllocResets' (mFrameResources' s ! frame_slot' s) + 1"
  using assms by (simp_all add: frame_state'_def)

lemma frame_state_other_slot':
  "j \<noteq> frame_slot' s \<Longrightarrow>
   mFrameResources' (frame_state' inp c q s) ! j = mFrameResources' s ! j"
  by (simp add: frame_state'_def)

lemma run_index':
  assumes "run' acts s = Inr s'" "0 \<le> mCurrFrameResourceIndex' s"
  shows "mCurrFrameResourceIndex' s' =
     (if frames acts = 0 then mCurrFrameResourceIndex' s
      else (mCurrFrameResourceIndex' s + int (frames acts)) mod gNumFrameResources)"
  using assms
proof (induction acts arbitrary: s)
  case Nil
  then show ?case by simp
next
  case (Cons a acts)
  show ?case
  proof (cases a)
    case Gpu
    with Cons.prems have "run' acts (GpuExecute' s) = Inr s'" by simp
    from Cons.IH [OF this] Cons.prems(2) Gpu show ?thesis by simp
  next
    case (Cpu inp)
    with Cons.prems obtain s1 where F: "Frame' inp s = Inr s1" and r: "run' acts s1 = Inr s'"
      by (auto split: sum.splits)
    from Frame_Inr_D' [OF F] obtain c q where s1: "s1 = frame_state' inp c q s" by blast
    have i1: "mCurrFrameResourceIndex' s1 = (mCurrFrameResourceIndex' s + 1) mod 3"
      using Cons.prems(2) by (simp add: s1 gNumFrameResources_def smod_3)
    then have "0 \<le> mCurrFrameResourceIndex' s1" by simp
    from Cons.IH [OF r this] i1 Cpu show ?thesis
      by (simp add: gNumFrameResources_def mod_simps ac_simps)
  qed
qed

lemma scene_ok_demo': "scene_ok' demo_app'" "scene_ok' demo1'" "scene_ok' demo2'" "scene_ok' demo3'"
  "scene_ok' demo4'"
  unfolding demo1'_def demo2'_def demo3'_def demo4'_def
  by (simp_all add: scene_ok_frame_state' scene_ok_Initialize' demo_app'_def)

lemma demo_swap_chain':
  "SwapChainBufferCount' demo_app' \<noteq> 0" "SwapChainBufferCount' demo1' \<noteq> 0"
  "SwapChainBufferCount' demo2' \<noteq> 0" "SwapChainBufferCount' demo3' \<noteq> 0"
  by (simp_all add: demo1'_def demo2'_def demo3'_def frame_state'_def)
    (simp_all add: demo_app'_def Initialize_fields')

lemma demo_index':
  "mCurrFrameResourceIndex' demo_app' = 0" "mCurrFrameResourceIndex' demo1' = 1"
  "mCurrFrameResourceIndex' demo2' = 2" "mCurrFrameResourceIndex' demo3' = 0"
  "mCurrFrameResourceIndex' demo4' = 1"
  by (simp_all add: demo1'_def demo2'_def demo3'_def demo4'_def demo_app'_def Initialize_fields'
      gNumFrameResources_def smod_3)

lemma demo_slot':
  "frame_slot' demo_app' = 1" "frame_slot' demo1' = 2" "frame_slot' demo2' = 0" "frame_slot' demo3' = 1"
  by (simp_all add: frame_slot'_def demo_index' gNumFrameResources_def smod_3)

lemma demo_fence':
  "mCurrentFence' demo_app' = 0" "mCurrentFence' demo1' = 1" "mCurrentFence' demo2' = 2"
  "mCurrentFence' demo3' = 3" "mCurrentFence' demo4' = 4"
  by (simp_all add: demo1'_def demo2'_def demo3'_def demo4'_def demo_app'_def Initialize_fields')

lemma demo_gpu':
  "fenceCompleted' demo_app' = 0" "queuedSignals' demo_app' = []"
  "fenceCompleted' demo1' = 0" "queuedSignals' demo1' = [1]"
  "fenceCompleted' demo2' = 0" "queuedSignals' demo2' = [1, 2]"
  "fenceCompleted' demo3' = 0" "queuedSignals' demo3' = [1, 2, 3]"
  "fenceCompleted' demo4' = 1" "queuedSignals' demo4' = [2, 3, 4]"
  by (simp_all add: demo1'_def demo2'_def demo3'_def demo4'_def demo_fence')
    (simp_all add: demo_app'_def Initialize_fields')

lemma demo_length':
  "length (mFrameResources' demo_app') = 3" "length (mFrameResources' demo1') = 3"
  "length (mFrameResources' demo2') = 3" "length (mFrameResources' demo3') = 3"
  by (simp_all add: demo1'_def demo2'_def demo3'_def)
    (simp_all add: demo_app'_def Initialize_fields')

lemma demo_marker':
  "frame_marker' demo_app' = 0" "frame_marker' demo1' = 0" "frame_marker' demo2' = 0"
  "frame_marker' demo3' = 1"
proof -
  have a: "Fence' (mFrameResources' demo_app' ! j) = 0" if "j < 3" for j
    using that by (simp add: demo_app'_def Initialize_fields' FrameResource_new'_def)
  show "frame_marker' demo_app' = 0" by (simp add: frame_marker'_def demo_slot' a)
  have "Fence' (mFrameResources' (frame_state' demo_inp 0 [] demo_app') ! frame_slot' demo_app') =
      mCurrentFence' demo_app' + 1"
    by (rule frame_state_slot'(1)) (simp add: demo_slot' demo_length')
  then have b1: "Fence' (mFrameResources' demo1' ! Suc 0) = 1"
    by (simp add: demo1'_def demo_slot' demo_fence')
  have b2: "Fence' (mFrameResources' demo1' ! 2) = 0" "Fence' (mFrameResources' demo1' ! 0) = 0"
    by (simp_all add: demo1'_def frame_state_other_slot' demo_slot' a)
  show "frame_marker' demo1' = 0" by (simp add: frame_marker'_def demo_slot' b2)
  have c: "Fence' (mFrameResources' demo2' ! 0) = 0" "Fence' (mFrameResources' demo2' ! Suc 0) = 1"
    by (simp_all add: demo2'_def frame_state_other_slot' demo_slot' b1 b2)
  show "frame_marker' demo2' = 0" by (simp add: frame_marker'_def demo_slot' c)
  have d: "Fence' (mFrameResources' demo3' ! Suc 0) = 1"
    by (simp add: demo3'_def frame_state_other_slot' demo_slot' c)
  show "frame_marker' demo3' = 1" by (simp add: frame_marker'_def demo_slot' d)
qed

lemma demo_sync':
  "sync_result' True demo_app' = Some (0, [])"
  "sync_result' True demo1' = Some (0, [1])"
  "sync_result' True demo2' = Some (0, [1, 2])"
  "sync_result' True demo3' = Some (1, [2, 3])"
  by (simp_all add: sync_result'_def must_wait'_def demo_marker' demo_gpu')

lemma demo_Frame':
  "Frame' demo_inp demo_app' = Inr demo1'"
  "Frame' demo_inp demo1' = Inr demo2'"
  "Frame' demo_inp demo2' = Inr demo3'"
  "Frame' demo_inp demo3' = Inr demo4'"
proof -
  have "Frame' demo_inp demo_app' = Inr (frame_state' demo_inp 0 [] demo_app')"
    by (rule Frame_Inr_I' [OF frame_ok_if_scene_ok' [OF scene_ok_demo'(1) device_ok_demo(1) demo_swap_chain'(1)]])
      (simp add: demo_sync')
  then show "Frame' demo_inp demo_app' = Inr demo1'" by (simp add: demo1'_def)
  have "Frame' demo_inp demo1' = Inr (frame_state' demo_inp 0 [1] demo1')"
    by (rule Frame_Inr_I' [OF frame_ok_if_scene_ok' [OF scene_ok_demo'(2) device_ok_demo(1) demo_swap_chain'(2)]])
      (simp add: demo_sync')
  then show "Frame' demo_inp demo1' = Inr demo2'" by (simp add: demo2'_def)
  have "Frame' demo_inp demo2' = Inr (frame_state' demo_inp 0 [1, 2] demo2')"
    by (rule Frame_Inr_I' [OF frame_ok_if_scene_ok' [OF scene_ok_demo'(3) device_ok_demo(1) demo_swap_chain'(3)]])
      (simp add: demo_sync')
  then show "Frame' demo_inp demo2' = Inr demo3'" by (simp add: demo3'_def)
  have "Frame' demo_inp demo3' = Inr (frame_state' demo_inp 1 [2, 3] demo3')"
    by (rule Frame_Inr_I' [OF frame_ok_if_scene_ok' [OF scene_ok_demo'(4) device_ok_demo(1) demo_swap_chain'(4)]])
      (simp add: demo_sync')
  then show "Frame' demo_inp demo3' = Inr demo4'" by (simp add: demo4'_def)
qed

lemma demo_run':
  "run' [] demo_app' = Inr demo_app'"
  "run' [Cpu demo_inp] demo_app' = Inr demo1'"
  "run' [Cpu demo_inp, Cpu demo_inp] demo_app' = Inr demo2'"
  "run' [Cpu demo_inp, Cpu demo_inp, Cpu demo_inp] demo_app' = Inr demo3'"
  "run' [Cpu demo_inp, Cpu demo_inp, Cpu demo_inp, Cpu demo_inp] demo_app' = Inr demo4'"
  by (simp_all add: demo_Frame')
subsection \<open>The frame pipeline of ShapesApp\<close>

lemma stamps_map_table [simp]: "stamps (map (\<lambda>x. EvSetDescriptorTable (a x) (b x)) xs) = []"
  by (induction xs) simp_all

lemma filter_is_obj_write_table [simp]:
  "filter (is_obj_write oi) (map (\<lambda>r. EvSetDescriptorTable (g r) (h r)) rs) = []"
  by (induction rs) simp_all

lemma no_rotate_in_rest':
  "\<forall>e\<in>set (Synchronize_events' s @ Update_events' s c @ Record_events' s c @ [EvSubmit] @ [EvPresent] @ Stamp_events' s). \<forall>i. e \<noteq> EvRotate i"
  by (auto simp: Synchronize_events'_def Update_events'_def Record_events'_def Stamp_events'_def)

text \<open>
  Ring rotation in ShapesApp: a frame advances the ring index by 1 modulo 3, first thing,
  and the frame after \<open>F\<close> frames from \<^verbatim>\<open>Initialize\<close> selects the slot \<open>(F + 1) mod 3\<close>.
\<close>

theorem ring_rotation':
  assumes "run' acts (Initialize' c0 n I W) = Inr s" and "Frame' inp s = Inr s'"
  shows "mCurrFrameResourceIndex' s' = (mCurrFrameResourceIndex' s + 1) mod gNumFrameResources \<and>
         mCurrFrameResourceIndex' s' = int (Suc (frames acts)) mod gNumFrameResources \<and>
         mCurrFrameResource' s' = Some (Suc (frames acts) mod 3) \<and>
         (\<exists>rest. trace' s' = trace' s @ EvRotate (Suc (frames acts) mod 3) # rest \<and>
                 (\<forall>e\<in>set rest. \<forall>i. e \<noteq> EvRotate i))"
proof -
  let ?s0 = "Initialize' c0 n I W"
  have i0: "mCurrFrameResourceIndex' ?s0 = 0" by (simp add: Initialize_fields')
  have ix: "mCurrFrameResourceIndex' s = int (frames acts) mod 3"
    using run_index' [OF assms(1)] unfolding i0
    by (cases "frames acts = 0") (simp_all add: gNumFrameResources_def)
  then have nn: "0 \<le> mCurrFrameResourceIndex' s" by simp
  from Frame_Inr_D' [OF assms(2)] obtain c q where s': "s' = frame_state' inp c q s" by blast
  have 1: "mCurrFrameResourceIndex' s' = (mCurrFrameResourceIndex' s + 1) mod gNumFrameResources"
    using nn by (simp add: s' gNumFrameResources_def smod_3)
  have 2: "mCurrFrameResourceIndex' s' = int (Suc (frames acts)) mod gNumFrameResources"
    unfolding 1 ix by (simp add: gNumFrameResources_def mod_simps ac_simps)
  have sl: "frame_slot' s = Suc (frames acts) mod 3"
  proof -
    have "int (frame_slot' s) = int (Suc (frames acts) mod 3)"
      using frame_slot_eq' [OF nn] ix by (simp add: mod_simps ac_simps zmod_int)
    then show ?thesis by simp
  qed
  have 3: "mCurrFrameResource' s' = Some (Suc (frames acts) mod 3)"
    by (simp add: s' sl)
  have 4: "trace' s' = trace' s @ EvRotate (Suc (frames acts) mod 3) #
      (Synchronize_events' s @ Update_events' s c @ Record_events' s c @ [EvSubmit] @ [EvPresent] @
       Stamp_events' s)"
    by (simp add: s' frame_events'_def Rotate_events'_def sl)
  from 1 2 3 4 no_rotate_in_rest' [of s c] show ?thesis by blast
qed

theorem ring_rotation_witness':
  "run' [Cpu demo_inp, Cpu demo_inp, Cpu demo_inp] demo_app' = Inr demo3' \<and>
   Frame' demo_inp demo3' = Inr demo4' \<and>
   mCurrFrameResourceIndex' demo3' = 0 \<and>
   mCurrFrameResourceIndex' demo4' = 1 \<and>
   mCurrFrameResource' demo4' = Some 1"
  using ring_rotation' [OF demo_run'(4) [unfolded demo_app'_def] demo_Frame'(4)]
  by (simp add: demo_run' demo_Frame' demo_index')

text \<open>
  The guard of the wait in \<^verbatim>\<open>ShapesApp::Update\<close>: the wait is skipped exactly when the
  current slot's marker is 0 or reached; when the step returns the marker is reached and
  the frame resources, the ring index, the render items and the fence counter are
  unchanged; it returns when a queued signal reaches the marker.
\<close>

theorem synchronize_guard':
  assumes "mCurrFrameResource' s = Some i" and "i < length (mFrameResources' s)"
  shows "(Update_wait' hr s = Inr s \<longleftrightarrow>
            Fence' (mFrameResources' s ! i) = 0 \<or> Fence' (mFrameResources' s ! i) \<le> fenceCompleted' s) \<and>
         (\<forall>s'. Update_wait' hr s = Inr s' \<longrightarrow>
            (Fence' (mFrameResources' s ! i) = 0 \<or> Fence' (mFrameResources' s ! i) \<le> fenceCompleted' s') \<and>
            mFrameResources' s' = mFrameResources' s \<and>
            mCurrFrameResourceIndex' s' = mCurrFrameResourceIndex' s \<and>
            mCurrFrameResource' s' = mCurrFrameResource' s \<and>
            mAllRitems' s' = mAllRitems' s \<and> 
            mCurrentFence' s' = mCurrentFence' s) \<and>
         (hr \<and> (\<exists>v\<in>set (queuedSignals' s). Fence' (mFrameResources' s ! i) \<le> v) \<longrightarrow>
            (\<exists>s'. Update_wait' hr s = Inr s'))"
proof -
  let ?f = "Fence' (mFrameResources' s ! i)"
  have neq: "s\<lparr>fenceCompleted' := c, queuedSignals' := q, trace' := trace' s @ [EvBlocked ?f]\<rparr> \<noteq> s"
    for c q
  proof
    assume "s\<lparr>fenceCompleted' := c, queuedSignals' := q, trace' := trace' s @ [EvBlocked ?f]\<rparr> = s"
    then have "trace' (s\<lparr>fenceCompleted' := c, queuedSignals' := q,
        trace' := trace' s @ [EvBlocked ?f]\<rparr>) = trace' s" by simp
    then show False by simp
  qed
  have 1: "Update_wait' hr s = Inr s \<longleftrightarrow> ?f = 0 \<or> ?f \<le> fenceCompleted' s"
    unfolding Update_wait_Inr_iff' [OF assms] using neq neq [symmetric] by (auto simp: not_less)
  have 2: "(?f = 0 \<or> ?f \<le> fenceCompleted' s') \<and>
            mFrameResources' s' = mFrameResources' s \<and>
            mCurrFrameResourceIndex' s' = mCurrFrameResourceIndex' s \<and>
            mCurrFrameResource' s' = mCurrFrameResource' s \<and>
            mAllRitems' s' = mAllRitems' s \<and> 
            mCurrentFence' s' = mCurrentFence' s"
    if "Update_wait' hr s = Inr s'" for s'
    using that unfolding Update_wait_Inr_iff' [OF assms]
    by (auto simp: not_less split: if_splits dest: WaitForSingleObject_Some_D)
  have 3: "\<exists>s'. Update_wait' hr s = Inr s'"
    if "hr" "\<exists>v\<in>set (queuedSignals' s). ?f \<le> v"
  proof -
    from that(2) have "\<exists>v\<in>set (fenceCompleted' s # queuedSignals' s). ?f \<le> v" by auto
    from WaitForSingleObject_Some_I [OF this] that(1) show ?thesis
      unfolding Update_wait_Inr_iff' [OF assms] by auto
  qed
  from 1 2 3 show ?thesis by blast
qed

lemma frame_events_touch':
  assumes "EvCpuTouch j a m c' \<in> set (frame_events' s c)"
  shows "j = frame_slot' s \<and> m = frame_marker' s \<and> c' = c"
  using assms
  by (auto simp: frame_events'_def Rotate_events'_def Synchronize_events'_def Update_events'_def
      Record_events'_def Stamp_events'_def split: if_splits)

lemma frame_events_safe':
  assumes "frame_marker' s = 0 \<or> frame_marker' s \<le> c"
  shows "\<forall>e\<in>set (frame_events' s c). safe_event e"
proof
  fix e assume e: "e \<in> set (frame_events' s c)"
  show "safe_event e"
  proof (cases e)
    case (EvCpuTouch j a m c')
    with e frame_events_touch' [of j a m c' s c] assms show ?thesis by auto
  qed simp_all
qed

lemma run_trace_safe':
  assumes "run' acts s = Inr s'"
  shows "\<exists>new. trace' s' = trace' s @ new \<and> (\<forall>e\<in>set new. safe_event e)"
  using assms
proof (induction acts arbitrary: s)
  case Nil
  then show ?case by simp
next
  case (Cons a acts)
  show ?case
  proof (cases a)
    case Gpu
    with Cons.prems have "run' acts (GpuExecute' s) = Inr s'" by simp
    from Cons.IH [OF this] show ?thesis by simp
  next
    case (Cpu inp)
    with Cons.prems obtain s1 where F: "Frame' inp s = Inr s1" and r: "run' acts s1 = Inr s'"
      by (auto split: sum.splits)
    from Frame_Inr_D' [OF F] obtain c q where
      sy: "sync_result' (hrSetEventOnCompletion inp) s = Some (c, q)" and
      s1: "s1 = frame_state' inp c q s" by blast
    from sync_result_D' [OF sy] have "frame_marker' s = 0 \<or> frame_marker' s \<le> c" by blast
    from frame_events_safe' [OF this] have a: "\<forall>e\<in>set (frame_events' s c). safe_event e" .
    from Cons.IH [OF r] obtain new where
      n: "trace' s' = trace' s1 @ new" "\<forall>e\<in>set new. safe_event e" by blast
    from n(1) have "trace' s' = trace' s @ (frame_events' s c @ new)" by (simp add: s1)
    moreover from a n(2) have "\<forall>e\<in>set (frame_events' s c @ new). safe_event e" by auto
    ultimately show ?thesis by blast
  qed
qed

text \<open>
  No premature reuse in ShapesApp: every access of the CPU to a slot during a frame goes
  to the slot the frame selected and happens when the slot's marker is 0 or reached by
  the fence's completed value; every access of a run is safe.
\<close>

theorem no_premature_reuse':
  assumes "run' acts s0 = Inr s" and "Frame' inp s = Inr s'"
  shows "(frame_marker' s = 0 \<or> frame_marker' s \<le> fenceCompleted' s') \<and>
         trace' s' = trace' s @ frame_events' s (fenceCompleted' s') \<and>
         (\<forall>j a m c. EvCpuTouch j a m c \<in> set (frame_events' s (fenceCompleted' s')) \<longrightarrow>
            j = frame_slot' s \<and> m = frame_marker' s \<and> c = fenceCompleted' s' \<and> (m = 0 \<or> m \<le> c)) \<and>
         (\<exists>new. trace' s' = trace' s0 @ new \<and> (\<forall>e\<in>set new. safe_event e))"
proof -
  from Frame_Inr_D' [OF assms(2)] obtain c q where
    sy: "sync_result' (hrSetEventOnCompletion inp) s = Some (c, q)" and
    s': "s' = frame_state' inp c q s" by blast
  have c: "fenceCompleted' s' = c" by (simp add: s')
  from sync_result_D' [OF sy] have 1: "frame_marker' s = 0 \<or> frame_marker' s \<le> c" by blast
  have 2: "trace' s' = trace' s @ frame_events' s c" by (simp add: s')
  have 3: "\<forall>j a m c'. EvCpuTouch j a m c' \<in> set (frame_events' s c) \<longrightarrow>
            j = frame_slot' s \<and> m = frame_marker' s \<and> c' = c \<and> (m = 0 \<or> m \<le> c')"
    using frame_events_touch' [of _ _ _ _ s c] 1 by blast
  have "run' (acts @ [Cpu inp]) s0 = Inr s'"
    using assms
  proof (induction acts arbitrary: s0)
    case Nil
    then show ?case by simp
  next
    case (Cons a acts)
    then show ?case by (cases a) (auto split: sum.splits)
  qed
  from run_trace_safe' [OF this] have 4:
    "\<exists>new. trace' s' = trace' s0 @ new \<and> (\<forall>e\<in>set new. safe_event e)" .
  from 1 2 3 4 show ?thesis unfolding c by blast
qed

theorem no_premature_reuse_witness':
  "run' [Cpu demo_inp, Cpu demo_inp, Cpu demo_inp] demo_app' = Inr demo3' \<and>
   Frame' demo_inp demo3' = Inr demo4' \<and>
   frame_slot' demo3' = 1 \<and> frame_marker' demo3' = 1 \<and>
   fenceCompleted' demo3' = 0 \<and> fenceCompleted' demo4' = 1 \<and>
   trace' demo4' = trace' demo3' @ frame_events' demo3' 1 \<and>
   EvCpuTouch 1 (PassCBWrite 0) 1 1 \<in> set (frame_events' demo3' 1)"
proof -
  have "EvCpuTouch 1 (PassCBWrite 0) 1 1 \<in> set (Update_events' demo3' 1)"
    unfolding Update_events'_def demo_slot' demo_marker' by simp
  then have m: "EvCpuTouch 1 (PassCBWrite 0) 1 1 \<in> set (frame_events' demo3' 1)"
    unfolding frame_events'_def by simp
  have t: "trace' demo4' = trace' demo3' @ frame_events' demo3' 1"
    using no_premature_reuse' [OF demo_run'(4) demo_Frame'(4), THEN conjunct2, THEN conjunct1]
    unfolding demo_gpu' .
  show ?thesis
    using m t demo_run'(4) demo_Frame'(4) demo_slot'(4) demo_marker'(4) demo_gpu'(7) demo_gpu'(9)
    by blast
qed

lemma stamps_frame_events' [simp]: "stamps (frame_events' s c) = [mCurrentFence' s + 1]"
  by (simp add: frame_events'_def Rotate_events'_def Synchronize_events'_def Update_events'_def
      Record_events'_def Stamp_events'_def)

lemma run_stamps':
  assumes "run' acts s = Inr s'" "fence_ok' s"
    "sorted_wrt (<) (c0 # stamps (trace' s))" "last (c0 # stamps (trace' s)) = mCurrentFence' s"
    "unat (mCurrentFence' s) + frames acts < 2 ^ 64"
  shows "fence_ok' s' \<and> sorted_wrt (<) (c0 # stamps (trace' s')) \<and>
         last (c0 # stamps (trace' s')) = mCurrentFence' s'"
  using assms
proof (induction acts arbitrary: s)
  case Nil
  then show ?case by simp
next
  case (Cons a acts)
  show ?case
  proof (cases a)
    case Gpu
    with Cons.prems have "run' acts (GpuExecute' s) = Inr s'" by simp
    from Cons.IH [OF this fence_ok_GpuExecute' [OF Cons.prems(2)]] Cons.prems(3,4,5) Gpu
    show ?thesis by simp
  next
    case (Cpu inp)
    with Cons.prems obtain s1 where F: "Frame' inp s = Inr s1" and r: "run' acts s1 = Inr s'"
      by (auto split: sum.splits)
    from Frame_Inr_D' [OF F] obtain c q where
      sy: "sync_result' (hrSetEventOnCompletion inp) s = Some (c, q)" and
      s1: "s1 = frame_state' inp c q s" by blast
    from Cons.prems(5) Cpu have "unat (mCurrentFence' s) + Suc (frames acts) < 2 ^ 64" by simp
    from unat_fence_step [OF this] have nw: "mCurrentFence' s + 1 \<noteq> 0"
      and b: "unat (mCurrentFence' s + 1) + frames acts < 2 ^ 64" by simp_all
    have f1: "fence_ok' s1" unfolding s1 by (rule fence_ok_frame_state' [OF Cons.prems(2) sy nw])
    have le: "\<forall>x\<in>set (c0 # stamps (trace' s)). x \<le> mCurrentFence' s"
      using sorted_wrt_less_last [OF Cons.prems(3)] Cons.prems(4) by auto
    have lt: "mCurrentFence' s < mCurrentFence' s + 1" using nw by (rule word64_less_Suc)
    have so: "sorted_wrt (<) (c0 # stamps (trace' s1))"
      using Cons.prems(3) le lt by (auto simp: s1 sorted_wrt_append)
    have la: "last (c0 # stamps (trace' s1)) = mCurrentFence' s1" by (simp add: s1)
    from Cons.IH [OF r f1 so la] b s1 show ?thesis by simp
  qed
qed

lemma fence_ok_completed_le':
  assumes "fence_ok' t"
  shows "fenceCompleted' t \<le> mCurrentFence' t"
proof -
  from assms have "sorted_wrt (<) (fenceCompleted' t # queuedSignals' t)"
    "last (fenceCompleted' t # queuedSignals' t) = mCurrentFence' t"
    by (simp_all add: fence_ok'_def)
  with sorted_wrt_less_last [of "fenceCompleted' t # queuedSignals' t" "fenceCompleted' t"]
  show ?thesis by simp
qed

lemma run_snoc':
  assumes "run' acts s0 = Inr s" "Frame' inp s = Inr s'"
  shows "run' (acts @ [Cpu inp]) s0 = Inr s'"
  using assms
proof (induction acts arbitrary: s0)
  case Nil
  then show ?case by simp
next
  case (Cons a acts)
  then show ?case by (cases a) (auto split: sum.splits)
qed

text \<open>
  The markers of ShapesApp: the stamp stores the incremented fence counter, the markers
  of a run from \<^verbatim>\<open>Initialize\<close> increase strictly and the fence's completed value never
  exceeds the fence counter, as long as the 64-bit counter does not wrap.
\<close>

theorem marker_monotonicity':
  assumes "run' acts (Initialize' c0 n I W) = Inr s"
    and "Frame' inp s = Inr s'"
    and "unat c0 + Suc (frames acts) < 2 ^ 64"
  shows "mCurrentFence' s' = mCurrentFence' s + 1 \<and>
         Fence' (mFrameResources' s' ! frame_slot' s) = mCurrentFence' s' \<and>
         stamps (trace' s') = stamps (trace' s) @ [mCurrentFence' s'] \<and>
         (\<forall>m\<in>set (stamps (trace' s)). m < mCurrentFence' s') \<and>
         sorted_wrt (<) (stamps (trace' s')) \<and>
         last (c0 # stamps (trace' s)) = mCurrentFence' s \<and>
         last (c0 # stamps (trace' s')) = mCurrentFence' s' \<and>
         fenceCompleted' s \<le> mCurrentFence' s \<and>
         fenceCompleted' s' \<le> mCurrentFence' s'"
proof -
  let ?s0 = "Initialize' c0 n I W"
  have f0: "fence_ok' ?s0" by (rule fence_ok_Initialize')
  have i0: "sorted_wrt (<) (c0 # stamps (trace' ?s0))"
    "last (c0 # stamps (trace' ?s0)) = mCurrentFence' ?s0"
    by (simp_all add: Initialize_fields')
  have b: "unat (mCurrentFence' ?s0) + frames acts < 2 ^ 64"
    "unat (mCurrentFence' ?s0) + frames (acts @ [Cpu inp]) < 2 ^ 64"
    using assms(3) by (simp_all add: Initialize_fields')
  from run_stamps' [OF assms(1) f0 i0 b(1)] have
    fs: "fence_ok' s" and ss: "sorted_wrt (<) (c0 # stamps (trace' s))"
    and ls: "last (c0 # stamps (trace' s)) = mCurrentFence' s" by simp_all
  from run_stamps' [OF run_snoc' [OF assms(1,2)] f0 i0 b(2)] have
    fs': "fence_ok' s'" and ss': "sorted_wrt (<) (c0 # stamps (trace' s'))"
    and ls': "last (c0 # stamps (trace' s')) = mCurrentFence' s'" by simp_all
  from Frame_Inr_D' [OF assms(2)] obtain c q where
    ok: "frame_ok' inp s" and s': "s' = frame_state' inp c q s" by blast
  from ok have sl: "frame_slot' s < length (mFrameResources' s)" by (simp add: frame_ok'_def)
  have 1: "mCurrentFence' s' = mCurrentFence' s + 1" by (simp add: s')
  have 2: "Fence' (mFrameResources' s' ! frame_slot' s) = mCurrentFence' s'"
    unfolding s' using frame_state_slot'(1) [OF sl] by simp
  have 3: "stamps (trace' s') = stamps (trace' s) @ [mCurrentFence' s']" by (simp add: s')
  have 4: "\<forall>m\<in>set (stamps (trace' s)). m < mCurrentFence' s'"
    using ss' unfolding 3 by (auto simp: sorted_wrt_append)
  have 5: "sorted_wrt (<) (stamps (trace' s'))" using ss' by simp
  from 1 2 3 4 5 ls ls' fence_ok_completed_le' [OF fs] fence_ok_completed_le' [OF fs']
  show ?thesis by blast
qed

theorem marker_monotonicity_witness':
  "run' [Cpu demo_inp, Cpu demo_inp, Cpu demo_inp] demo_app' = Inr demo3' \<and>
   Frame' demo_inp demo3' = Inr demo4' \<and>
   unat (0 :: 64 word) + Suc (frames [Cpu demo_inp, Cpu demo_inp, Cpu demo_inp :: unit action]) < 2 ^ 64 \<and>
   mCurrentFence' demo3' = 3 \<and> mCurrentFence' demo4' = 4 \<and>
   Fence' (mFrameResources' demo4' ! 1) = 4 \<and>
   stamps (trace' demo4') = stamps (trace' demo3') @ [4] \<and>
   fenceCompleted' demo4' = 1"
proof -
  have b: "unat (0 :: 64 word) + Suc (frames [Cpu demo_inp, Cpu demo_inp, Cpu demo_inp :: unit action])
      < 2 ^ 64" by simp
  note m = marker_monotonicity' [OF demo_run'(4) [unfolded demo_app'_def] demo_Frame'(4) b]
  have 2: "Fence' (mFrameResources' demo4' ! 1) = 4"
    using m [THEN conjunct2, THEN conjunct1] unfolding demo_slot' demo_fence' .
  have 3: "stamps (trace' demo4') = stamps (trace' demo3') @ [4]"
    using m [THEN conjunct2, THEN conjunct2, THEN conjunct1] unfolding demo_fence' .
  show ?thesis
    using b 2 3 demo_run'(4) demo_Frame'(4) demo_fence'(4) demo_fence'(5) demo_gpu'(9) by blast
qed

lemma obj_writes_fst': "map fst (obj_writes' es) = map ObjCBIndex' (filter dirty' es)"
  by (simp add: obj_writes'_def comp_def)

lemma distinct_obj_writes':
  "distinct (map ObjCBIndex' es) \<Longrightarrow> distinct (map fst (obj_writes' es))"
  unfolding obj_writes_fst' by (rule distinct_map_filter)

lemma obj_writes_hit':
  assumes "distinct (map ObjCBIndex' es)" "e \<in> set es" "dirty' e" "ObjCBIndex' e < length buf"
  shows "apply_writes (obj_writes' es) buf ! ObjCBIndex' e = Some (payload' e)"
proof -
  from assms(2,3) have "(ObjCBIndex' e, payload' e) \<in> set (obj_writes' es)"
    by (auto simp: obj_writes'_def)
  from apply_writes_hit [OF distinct_obj_writes' [OF assms(1)] this assms(4)] show ?thesis .
qed

lemma obj_writes_miss':
  assumes "distinct (map ObjCBIndex' es)" "e \<in> set es" "\<not> dirty' e"
  shows "apply_writes (obj_writes' es) buf ! ObjCBIndex' e = buf ! ObjCBIndex' e"
proof -
  have "ObjCBIndex' e \<notin> fst ` set (obj_writes' es)"
  proof
    assume "ObjCBIndex' e \<in> fst ` set (obj_writes' es)"
    then obtain e' where e': "e' \<in> set es" "dirty' e'" "ObjCBIndex' e' = ObjCBIndex' e"
      by (auto simp: obj_writes'_def)
    with assms(1,2) have "e' = e" by (auto simp: distinct_map inj_on_def)
    with e'(2) assms(3) show False by simp
  qed
  then show ?thesis by (rule apply_writes_other)
qed

text \<open>
  One sweep of \<^verbatim>\<open>ShapesApp::UpdateObjectCBs\<close>: the transposed world matrix of every
  item with a positive countdown is written at the item's index in the current slot and
  its countdown goes down by 1; the other items and buffer elements are untouched.
\<close>

theorem dirty_propagation_step':
  assumes "UpdateObjectCBs' s = Inr s'" and "mCurrFrameResource' s = Some i"
    and "distinct (map ObjCBIndex' (mAllRitems' s))"
  shows "length (mAllRitems' s') = length (mAllRitems' s) \<and>
    (\<forall>k<length (mAllRitems' s).
       (0 < NumFramesDirty' (mAllRitems' s ! k) \<longrightarrow>
          ObjectCB' (mFrameResources' s' ! i) ! ObjCBIndex' (mAllRitems' s ! k) =
            Some (ObjectConstants' (XMMatrixTranspose (World' (mAllRitems' s ! k)))) \<and>
          mAllRitems' s' ! k =
            (mAllRitems' s ! k)\<lparr>NumFramesDirty' := NumFramesDirty' (mAllRitems' s ! k) - 1\<rparr>) \<and>
       (\<not> 0 < NumFramesDirty' (mAllRitems' s ! k) \<longrightarrow>
          mAllRitems' s' ! k = mAllRitems' s ! k \<and>
          ObjectCB' (mFrameResources' s' ! i) ! ObjCBIndex' (mAllRitems' s ! k) =
            ObjectCB' (mFrameResources' s ! i) ! ObjCBIndex' (mAllRitems' s ! k))) \<and>
    trace' s' = trace' s @
      map (\<lambda>e. EvCpuTouch i (ObjectCBWrite (ObjCBIndex' e)) (Fence' (mFrameResources' s ! i))
                 (fenceCompleted' s))
        (filter (\<lambda>e. 0 < NumFramesDirty' e) (mAllRitems' s)) \<and>
    (\<forall>j. j \<noteq> i \<longrightarrow> mFrameResources' s' ! j = mFrameResources' s ! j) \<and>
    PassCB' (mFrameResources' s' ! i) = PassCB' (mFrameResources' s ! i) \<and>
    Fence' (mFrameResources' s' ! i) = Fence' (mFrameResources' s ! i)"
proof -
  from assms(1,2) have il: "i < length (mFrameResources' s)"
    by (auto simp: UpdateObjectCBs'_def currFrameResource'_def split: if_splits)
  let ?fr = "mFrameResources' s ! i"
  from assms(1) have
    rng: "\<forall>e\<in>set (mAllRitems' s). dirty' e \<longrightarrow> ObjCBIndex' e < length (ObjectCB' ?fr)" and
    s': "s' = s\<lparr>mAllRitems' := map decr' (mAllRitems' s),
            mFrameResources' := (mFrameResources' s)[i := ?fr
               \<lparr>ObjectCB' := apply_writes (obj_writes' (mAllRitems' s)) (ObjectCB' ?fr)\<rparr>],
            trace' := trace' s @
              map (\<lambda>e. EvCpuTouch i (ObjectCBWrite (ObjCBIndex' e)) (Fence' ?fr) (fenceCompleted' s))
                (filter dirty' (mAllRitems' s))\<rparr>"
    unfolding UpdateObjectCBs_Inr_iff' [OF assms(2) il] by simp_all
  have cb: "ObjectCB' (mFrameResources' s' ! i) = apply_writes (obj_writes' (mAllRitems' s)) (ObjectCB' ?fr)"
    using il by (simp add: s')
  have d: "dirty' = (\<lambda>e :: 'a RenderItem'. 0 < NumFramesDirty' e)"
    by (rule ext) (simp add: dirty'_def)
  have 1: "length (mAllRitems' s') = length (mAllRitems' s)" by (simp add: s')
  have 2: "(0 < NumFramesDirty' (mAllRitems' s ! k) \<longrightarrow>
          ObjectCB' (mFrameResources' s' ! i) ! ObjCBIndex' (mAllRitems' s ! k) =
            Some (ObjectConstants' (XMMatrixTranspose (World' (mAllRitems' s ! k)))) \<and>
          mAllRitems' s' ! k =
            (mAllRitems' s ! k)\<lparr>NumFramesDirty' := NumFramesDirty' (mAllRitems' s ! k) - 1\<rparr>) \<and>
       (\<not> 0 < NumFramesDirty' (mAllRitems' s ! k) \<longrightarrow>
          mAllRitems' s' ! k = mAllRitems' s ! k \<and>
          ObjectCB' (mFrameResources' s' ! i) ! ObjCBIndex' (mAllRitems' s ! k) =
            ObjectCB' (mFrameResources' s ! i) ! ObjCBIndex' (mAllRitems' s ! k))"
    if k: "k < length (mAllRitems' s)" for k
  proof -
    let ?e = "mAllRitems' s ! k"
    from k have mem: "?e \<in> set (mAllRitems' s)" by simp
    have it: "mAllRitems' s' ! k = decr' ?e" using k by (simp add: s')
    show ?thesis
    proof (cases "dirty' ?e")
      case True
      with rng mem have "ObjCBIndex' ?e < length (ObjectCB' ?fr)" by blast
      from obj_writes_hit' [OF assms(3) mem True this] True it show ?thesis
        by (simp add: cb payload'_def dirty'_def decr'_def)
    next
      case False
      from obj_writes_miss' [OF assms(3) mem False] False it show ?thesis
        by (simp add: cb dirty'_def decr'_def)
    qed
  qed
  have 3: "trace' s' = trace' s @
      map (\<lambda>e. EvCpuTouch i (ObjectCBWrite (ObjCBIndex' e)) (Fence' ?fr) (fenceCompleted' s))
        (filter (\<lambda>e. 0 < NumFramesDirty' e) (mAllRitems' s))"
    by (simp add: s' d)
  have 4: "\<forall>j. j \<noteq> i \<longrightarrow> mFrameResources' s' ! j = mFrameResources' s ! j"
    by (simp add: s')
  have 5: "PassCB' (mFrameResources' s' ! i) = PassCB' ?fr"
    "Fence' (mFrameResources' s' ! i) = Fence' ?fr"
    using il by (simp_all add: s')
  from 1 2 3 4 5 show ?thesis by blast
qed

lemma run_mAllRitems_bounds':
  assumes "run' acts s = Inr s'"
    and "\<forall>e\<in>set (mAllRitems' s). 0 \<le> NumFramesDirty' e \<and> NumFramesDirty' e \<le> gNumFrameResources"
  shows "\<forall>e\<in>set (mAllRitems' s'). 0 \<le> NumFramesDirty' e \<and> NumFramesDirty' e \<le> gNumFrameResources"
  using assms by (rule run_invariant') auto

lemma map_ObjCBIndex_decr' [simp]: "map ObjCBIndex' (map decr' es) = map ObjCBIndex' es"
  by (induction es) simp_all

lemma obj_write_in_frame_events':
  assumes "distinct (map ObjCBIndex' (mAllRitems' s))" "e \<in> set (mAllRitems' s)"
  shows "(\<exists>j m c'. EvCpuTouch j (ObjectCBWrite (ObjCBIndex' e)) m c' \<in> set (frame_events' s c)) \<longleftrightarrow>
         0 < NumFramesDirty' e"
proof
  assume "\<exists>j m c'. EvCpuTouch j (ObjectCBWrite (ObjCBIndex' e)) m c' \<in> set (frame_events' s c)"
  then obtain e' where e': "e' \<in> set (mAllRitems' s)" "dirty' e'" "ObjCBIndex' e' = ObjCBIndex' e"
    by (auto simp: frame_events'_def Rotate_events'_def Synchronize_events'_def Update_events'_def
        Record_events'_def Stamp_events'_def split: if_splits)
  with assms have "e' = e" by (auto simp: distinct_map inj_on_def)
  with e'(2) show "0 < NumFramesDirty' e" by (simp add: dirty'_def)
next
  assume "0 < NumFramesDirty' e"
  with assms(2) have
    "EvCpuTouch (frame_slot' s) (ObjectCBWrite (ObjCBIndex' e)) (frame_marker' s) c
       \<in> set (Update_events' s c)"
    by (auto simp: Update_events'_def dirty'_def)
  then show "\<exists>j m c'. EvCpuTouch j (ObjectCBWrite (ObjCBIndex' e)) m c' \<in> set (frame_events' s c)"
    unfolding frame_events'_def by auto
qed

text \<open>
  The countdowns of ShapesApp stay between 0 and 3 in every state a run reaches from
  \<^verbatim>\<open>Initialize\<close>; a frame lowers by 1 exactly those of the items it writes.
\<close>

theorem dirty_countdown_bounds':
  assumes "run' acts (Initialize' c0 n I W) = Inr s"
    and "Frame' inp s = Inr s'"
  shows "(\<forall>e\<in>set (mAllRitems' (Initialize' c0 n I W)).
            NumFramesDirty' e = gNumFrameResources) \<and>
         (\<forall>e\<in>set (mAllRitems' s). 0 \<le> NumFramesDirty' e \<and> NumFramesDirty' e \<le> gNumFrameResources) \<and>
         (\<forall>e\<in>set (mAllRitems' s'). 0 \<le> NumFramesDirty' e \<and> NumFramesDirty' e \<le> gNumFrameResources) \<and>
         length (mAllRitems' s') = length (mAllRitems' s) \<and>
         (\<forall>k<length (mAllRitems' s).
            NumFramesDirty' (mAllRitems' s' ! k) =
              (if 0 < NumFramesDirty' (mAllRitems' s ! k) then NumFramesDirty' (mAllRitems' s ! k) - 1
               else NumFramesDirty' (mAllRitems' s ! k)) \<and>
            ((\<exists>j m c. EvCpuTouch j (ObjectCBWrite (ObjCBIndex' (mAllRitems' s ! k))) m c
                        \<in> set (frame_events' s (fenceCompleted' s'))) \<longleftrightarrow>
             0 < NumFramesDirty' (mAllRitems' s ! k))) \<and>
         trace' s' = trace' s @ frame_events' s (fenceCompleted' s')"
proof -
  let ?s0 = "Initialize' c0 n I W"
  have 1: "\<forall>e\<in>set (mAllRitems' ?s0). NumFramesDirty' e = gNumFrameResources"
    by (rule Initialize_NumFramesDirty')
  then have b0: "\<forall>e\<in>set (mAllRitems' ?s0).
      0 \<le> NumFramesDirty' e \<and> NumFramesDirty' e \<le> gNumFrameResources"
    by (auto simp: gNumFrameResources_def)
  from run_mAllRitems_bounds' [OF assms(1) b0] have 2:
    "\<forall>e\<in>set (mAllRitems' s). 0 \<le> NumFramesDirty' e \<and> NumFramesDirty' e \<le> gNumFrameResources" .
  from run_mAllRitems_bounds' [OF run_snoc' [OF assms] b0] have 3:
    "\<forall>e\<in>set (mAllRitems' s'). 0 \<le> NumFramesDirty' e \<and> NumFramesDirty' e \<le> gNumFrameResources" .
  from Frame_Inr_D' [OF assms(2)] obtain c q where s': "s' = frame_state' inp c q s" by blast
  have d: "distinct (map ObjCBIndex' (mAllRitems' ?s0))"
    unfolding Initialize_ObjCBIndex' by simp
  have "distinct (map ObjCBIndex' (mAllRitems' s))"
    using assms(1) d by (rule run_invariant') (simp_all del: map_map)
  note w = obj_write_in_frame_events' [OF this]
  have 4: "length (mAllRitems' s') = length (mAllRitems' s)" by (simp add: s')
  have 5: "\<forall>k<length (mAllRitems' s).
            NumFramesDirty' (mAllRitems' s' ! k) =
              (if 0 < NumFramesDirty' (mAllRitems' s ! k) then NumFramesDirty' (mAllRitems' s ! k) - 1
               else NumFramesDirty' (mAllRitems' s ! k)) \<and>
            ((\<exists>j m c. EvCpuTouch j (ObjectCBWrite (ObjCBIndex' (mAllRitems' s ! k))) m c
                        \<in> set (frame_events' s (fenceCompleted' s'))) \<longleftrightarrow>
             0 < NumFramesDirty' (mAllRitems' s ! k))"
    using w by (simp add: s')
  have 6: "trace' s' = trace' s @ frame_events' s (fenceCompleted' s')" by (simp add: s')
  from 1 2 3 4 5 6 show ?thesis by blast
qed

theorem dirty_countdown_bounds_witness':
  "run' [Cpu demo_inp] demo_app' = Inr demo1' \<and> Frame' demo_inp demo1' = Inr demo2' \<and>
   length (mAllRitems' demo1') = 26 \<and>
   NumFramesDirty' (mAllRitems' demo_app' ! 0) = 3 \<and>
   NumFramesDirty' (mAllRitems' demo1' ! 0) = 2 \<and>
   NumFramesDirty' (mAllRitems' demo2' ! 0) = 1"
proof -
  note t = dirty_countdown_bounds' [OF demo_run'(2) [unfolded demo_app'_def] demo_Frame'(2)]
  have l: "length (mAllRitems' demo_app') = 26" "length (mAllRitems' demo1') = 26"
    by (simp_all add: demo1'_def) (simp_all add: demo_app'_def Initialize_fields')
  have mem: "mAllRitems' demo_app' ! 0 \<in> set (mAllRitems' demo_app')"
    using l by (intro nth_mem) simp
  have 0: "NumFramesDirty' (mAllRitems' demo_app' ! 0) = 3"
    using t [THEN conjunct1] mem unfolding demo_app'_def gNumFrameResources_def by blast
  then have 1: "NumFramesDirty' (mAllRitems' demo1' ! 0) = 2"
    using l by (simp add: demo1'_def)
  have 2: "NumFramesDirty' (mAllRitems' demo2' ! 0) = 1"
    using t [THEN conjunct2, THEN conjunct2, THEN conjunct2, THEN conjunct2, THEN conjunct1,
        rule_format, of 0, THEN conjunct1] l 1 by simp
  from demo_run'(2) demo_Frame'(2) l(2) 0 1 2 show ?thesis by blast
qed

lemma frame_events_obj_write':
  assumes "EvCpuTouch j (ObjectCBWrite k) m c' \<in> set (frame_events' s c)"
  shows "\<exists>e\<in>set (mAllRitems' s). k = ObjCBIndex' e"
  using assms
  by (auto simp: frame_events'_def Rotate_events'_def Synchronize_events'_def Update_events'_def
      Record_events'_def Stamp_events'_def split: if_splits)

lemma sint_small: "0 \<le> x \<Longrightarrow> x < 2147483648 \<Longrightarrow> sint (word_of_int x :: 32 word) = x"
  by (simp only: sint_sbintrunc') (rule signed_take_bit_int_eq_self, simp_all)

lemma sint_cbvIndex:
  assumes "0 \<le> idx" "idx < 3" "k < 26"
  shows "sint (cbvIndex idx 26 k) = idx * 26 + int k"
proof -
  have "cbvIndex idx 26 k = (word_of_int (idx * 26 + int k) :: 32 word)"
    by (simp add: cbvIndex_def)
  moreover have "sint (word_of_int (idx * 26 + int k) :: 32 word) = idx * 26 + int k"
    using assms by (intro sint_small) simp_all
  ultimately show ?thesis by (simp only:)
qed

lemma sint_passCbvIndex:
  assumes "0 \<le> idx" "idx < 3"
  shows "sint ((78 :: 32 word) + word_of_int idx) = 78 + idx"
proof -
  have "(78 :: 32 word) + word_of_int idx = word_of_int (78 + idx)" by simp
  moreover have "sint (word_of_int (78 + idx) :: 32 word) = 78 + idx"
    using assms by (intro sint_small) simp_all
  ultimately show ?thesis by (simp only:)
qed

lemma frame_events_table':
  assumes "EvSetDescriptorTable p d \<in> set (frame_events' s c)"
  shows "(p = 1 \<and> d = sint (mPassCbvOffset' s +
                              word_of_int ((mCurrFrameResourceIndex' s + 1) smod gNumFrameResources))) \<or>
         (p = 0 \<and> (\<exists>r\<in>set (mOpaqueRitems' s).
            d = sint (cbvIndex ((mCurrFrameResourceIndex' s + 1) smod gNumFrameResources)
                        (length (mOpaqueRitems' s)) (ObjCBIndex' (mAllRitems' s ! r)))))"
  using assms
  by (auto simp: frame_events'_def Rotate_events'_def Synchronize_events'_def Update_events'_def
      Record_events'_def Stamp_events'_def split: if_splits)

lemma run_object_buffers':
  assumes "run' acts s = Inr s'" "scene_ok' s"
    "\<forall>j k m c. EvCpuTouch j (ObjectCBWrite k) m c \<in> set (trace' s) \<longrightarrow> k < length (mAllRitems' s)"
  shows "scene_ok' s' \<and> length (mAllRitems' s') = length (mAllRitems' s) \<and>
    (\<forall>j k m c. EvCpuTouch j (ObjectCBWrite k) m c \<in> set (trace' s') \<longrightarrow> k < length (mAllRitems' s))"
proof -
  let ?n = "length (mAllRitems' s)"
  let ?P = "\<lambda>t. scene_ok' t \<and> length (mAllRitems' t) = ?n \<and>
    (\<forall>j k m c. EvCpuTouch j (ObjectCBWrite k) m c \<in> set (trace' t) \<longrightarrow> k < ?n)"
  have "?P s'"
    using assms(1)
  proof (rule run_invariant')
    show "?P s" using assms(2,3) by simp
  next
    fix t :: "('a, 'b) ShapesApp"
    assume "?P t"
    then show "?P (GpuExecute' t)" by (simp add: scene_ok_GpuExecute')
  next
    fix inp c q and t :: "('a, 'b) ShapesApp"
    assume P: "?P t" and ok: "frame_ok' inp t"
    from P have sc: "scene_ok' t" and n: "length (mAllRitems' t) = ?n" by simp_all
    from sc n have rng: "\<forall>e\<in>set (mAllRitems' t). ObjCBIndex' e < ?n"
      by (simp add: scene_ok'_def)
    have w: "k < ?n" if "EvCpuTouch j (ObjectCBWrite k) m c' \<in> set (frame_events' t c)"
      for j k m c'
      using frame_events_obj_write' [OF that] rng by auto
    from P w show "?P (frame_state' inp c q t)"
      by (auto simp: scene_ok_frame_state')
  qed
  then show ?thesis by simp
qed

lemma run_tables':
  assumes "run' acts (Initialize' c0 n I W) = Inr s"
  shows "mPassCbvOffset' s = 78 \<and> length (mOpaqueRitems' s) = 26 \<and>
    (\<forall>d. EvSetDescriptorTable 0 d \<in> set (trace' s) \<longrightarrow> 0 \<le> d \<and> d < 78) \<and>
    (\<forall>d. EvSetDescriptorTable 1 d \<in> set (trace' s) \<longrightarrow> 78 \<le> d \<and> d < 81)"
proof -
  let ?P = "\<lambda>t :: ('a, 'b) ShapesApp. scene_ok' t \<and> length (mAllRitems' t) = 26 \<and>
    mPassCbvOffset' t = 78 \<and> length (mOpaqueRitems' t) = 26 \<and>
    (\<forall>d. EvSetDescriptorTable 0 d \<in> set (trace' t) \<longrightarrow> 0 \<le> d \<and> d < 78) \<and>
    (\<forall>d. EvSetDescriptorTable 1 d \<in> set (trace' t) \<longrightarrow> 78 \<le> d \<and> d < 81)"
  have "?P s"
    using assms
  proof (rule run_invariant')
    show "?P (Initialize' c0 n I W)"
      by (simp add: scene_ok_Initialize' Initialize_fields')
  next
    fix t :: "('a, 'b) ShapesApp"
    assume "?P t"
    then show "?P (GpuExecute' t)" by (simp add: scene_ok_GpuExecute')
  next
    fix inp c q and t :: "('a, 'b) ShapesApp"
    assume P: "?P t" and ok: "frame_ok' inp t"
    let ?ix = "(mCurrFrameResourceIndex' t + 1) smod gNumFrameResources"
    from P have sc: "scene_ok' t" and n: "length (mAllRitems' t) = 26"
      and po: "mPassCbvOffset' t = 78" and no: "length (mOpaqueRitems' t) = 26" by simp_all
    from sc have i0: "0 \<le> mCurrFrameResourceIndex' t" by (simp add: scene_ok'_def)
    then have ix: "0 \<le> ?ix" "?ix < 3" by (simp_all add: gNumFrameResources_def smod_3)
    from sc n have rng: "\<forall>e\<in>set (mAllRitems' t). ObjCBIndex' e < 26"
      by (simp add: scene_ok'_def)
    have t0: "0 \<le> d \<and> d < 78" if "EvSetDescriptorTable 0 d \<in> set (frame_events' t c)" for d
    proof -
      from frame_events_table' [OF that] obtain r where
        r: "r \<in> set (mOpaqueRitems' t)"
        "d = sint (cbvIndex ?ix (length (mOpaqueRitems' t)) (ObjCBIndex' (mAllRitems' t ! r)))"
        by auto
      from ok r(1) have "r < length (mAllRitems' t)" by (simp add: frame_ok'_def)
      then have "mAllRitems' t ! r \<in> set (mAllRitems' t)" by simp
      with rng have k: "ObjCBIndex' (mAllRitems' t ! r) < 26" by blast
      from r(2) have "d = ?ix * 26 + int (ObjCBIndex' (mAllRitems' t ! r))"
        unfolding no by (simp only: sint_cbvIndex [OF ix k])
      with ix k show ?thesis by simp
    qed
    have t1: "78 \<le> d \<and> d < 81" if "EvSetDescriptorTable 1 d \<in> set (frame_events' t c)" for d
    proof -
      from frame_events_table' [OF that] have "d = sint ((78 :: 32 word) + word_of_int ?ix)"
        unfolding po by auto
      then have "d = 78 + ?ix" by (simp only: sint_passCbvIndex [OF ix])
      with ix show ?thesis by simp
    qed
    from P t0 t1 show "?P (frame_state' inp c q t)"
      by (auto simp: scene_ok_frame_state')
  qed
  then show ?thesis by simp
qed

text \<open>
  In every state of a run of ShapesApp from \<^verbatim>\<open>Initialize\<close> there are 26 render items
  with the indices 0 to 25 and 3 frame resources whose object buffers have 26 elements;
  every object write is inside the buffer; every descriptor bound for an object is one
  of the 78 object descriptors of the heap, every descriptor bound for the pass one of
  the 3 pass descriptors after them.
\<close>

theorem objcb_index_in_range':
  assumes "run' acts (Initialize' c0 n I W) = Inr s"
  shows "map ObjCBIndex' (mAllRitems' s) =
           [0, 1, 2, 3, 4, 5, 6, 7, 8, 9, 10, 11, 12, 13, 14, 15, 16, 17, 18, 19, 20, 21, 22, 23,
            24, 25] \<and>
         distinct (map ObjCBIndex' (mAllRitems' s)) \<and>
         length (mAllRitems' s) = 26 \<and> length (mFrameResources' s) = 3 \<and>
         (\<forall>fr\<in>set (mFrameResources' s). length (ObjectCB' fr) = 26) \<and>
         (\<forall>e\<in>set (mAllRitems' s). \<forall>fr\<in>set (mFrameResources' s). ObjCBIndex' e < length (ObjectCB' fr)) \<and>
         (\<forall>j k m c. EvCpuTouch j (ObjectCBWrite k) m c \<in> set (trace' s) \<longrightarrow> k < 26) \<and>
         mPassCbvOffset' s = 78 \<and>
         (\<forall>d. EvSetDescriptorTable 0 d \<in> set (trace' s) \<longrightarrow> 0 \<le> d \<and> d < 78) \<and>
         (\<forall>d. EvSetDescriptorTable 1 d \<in> set (trace' s) \<longrightarrow> 78 \<le> d \<and> d < 81)"
proof -
  let ?s0 = "Initialize' c0 n I W"
  have t0: "\<forall>j k m c. EvCpuTouch j (ObjectCBWrite k) m c \<in> set (trace' ?s0) \<longrightarrow>
      k < length (mAllRitems' ?s0)"
    by (simp_all add: Initialize_fields')
  from run_object_buffers' [OF assms scene_ok_Initialize' t0]
  have sc: "scene_ok' s" and l: "length (mAllRitems' s) = 26"
    and w: "\<forall>j k m c. EvCpuTouch j (ObjectCBWrite k) m c \<in> set (trace' s) \<longrightarrow> k < 26"
    by (simp_all add: Initialize_fields')
  have 1: "map ObjCBIndex' (mAllRitems' s) =
           [0, 1, 2, 3, 4, 5, 6, 7, 8, 9, 10, 11, 12, 13, 14, 15, 16, 17, 18, 19, 20, 21, 22, 23,
            24, 25]"
    using assms
  proof (rule run_invariant')
    show "map ObjCBIndex' (mAllRitems' (Initialize' c0 n I W)) =
           [0, 1, 2, 3, 4, 5, 6, 7, 8, 9, 10, 11, 12, 13, 14, 15, 16, 17, 18, 19, 20, 21, 22, 23,
            24, 25]"
      by (rule Initialize_ObjCBIndex')
  qed (simp_all del: map_map)
  from sc l have 2: "distinct (map ObjCBIndex' (mAllRitems' s))"
    "length (mFrameResources' s) = 3"
    "\<forall>fr\<in>set (mFrameResources' s). length (ObjectCB' fr) = 26"
    "\<forall>e\<in>set (mAllRitems' s). \<forall>fr\<in>set (mFrameResources' s). ObjCBIndex' e < length (ObjectCB' fr)"
    by (simp_all add: scene_ok'_def gNumFrameResources_def)
  from 1 2 l w run_tables' [OF assms] show ?thesis by blast
qed

text \<open>
  The order of the steps of a frame of ShapesApp: rotation, wait (the only step that can
  block), update writes to the new slot, allocator reset and recording with the
  descriptors of the new ring index, submission, presentation, stamp. The sweep lowers
  the countdown of every dirty item by 1 and stores its transposed world matrix at its
  index in the new slot, the pass constants go to element 0, the allocator of the new
  slot is reset once, the other slots are untouched, and the new marker is queued last.
\<close>

theorem frame_driver_ordering':
  assumes "Frame' inp s = Inr s'"
  shows "trace' s' = trace' s @
           [EvRotate (frame_slot' s)] @
           Synchronize_events' s @
           Update_events' s (fenceCompleted' s') @
           Record_events' s (fenceCompleted' s') @
           [EvSubmit] @ [EvPresent] @ [EvStamp (frame_slot' s) (mCurrentFence' s + 1)] \<and>
         Synchronize_events' s = (if must_wait' s then [EvBlocked (frame_marker' s)] else []) \<and>
         (\<forall>m. EvBlocked m \<notin> set (Update_events' s (fenceCompleted' s') @
                                  Record_events' s (fenceCompleted' s'))) \<and>
         (\<forall>e\<in>set (Update_events' s (fenceCompleted' s')).
            \<exists>a. e = EvCpuTouch (frame_slot' s) a (frame_marker' s) (fenceCompleted' s') \<and>
                a \<noteq> AllocatorReset) \<and>
         (\<exists>draws. Record_events' s (fenceCompleted' s') =
            [EvCpuTouch (frame_slot' s) AllocatorReset (frame_marker' s) (fenceCompleted' s'),
             EvSetDescriptorTable 1
               (sint (mPassCbvOffset' s + word_of_int (mCurrFrameResourceIndex' s')))] @ draws \<and>
            length draws = length (mOpaqueRitems' s) \<and>
            (\<forall>e\<in>set draws. \<exists>k\<in>set (map ObjCBIndex' (mAllRitems' s)).
               e = EvSetDescriptorTable 0
                     (sint (cbvIndex (mCurrFrameResourceIndex' s') (length (mOpaqueRitems' s)) k)))) \<and>
         mCurrFrameResource' s' = Some (frame_slot' s) \<and>
         mCurrBackBuffer' s' = (mCurrBackBuffer' s + 1) smod SwapChainBufferCount' s \<and>
         (0 \<le> mCurrBackBuffer' s \<and> 0 < SwapChainBufferCount' s \<longrightarrow>
            mCurrBackBuffer' s' = (mCurrBackBuffer' s + 1) mod SwapChainBufferCount' s) \<and>
         mCurrentFence' s' = mCurrentFence' s + 1 \<and>
         Fence' (mFrameResources' s' ! frame_slot' s) = mCurrentFence' s + 1 \<and>
         (frame_marker' s = 0 \<or> frame_marker' s \<le> fenceCompleted' s') \<and>
         (\<not> must_wait' s \<longrightarrow>
            fenceCompleted' s' = fenceCompleted' s \<and>
            queuedSignals' s' = queuedSignals' s @ [mCurrentFence' s + 1]) \<and>
         length (mAllRitems' s') = length (mAllRitems' s) \<and>
         (\<forall>k<length (mAllRitems' s).
            mAllRitems' s' ! k =
              (if 0 < NumFramesDirty' (mAllRitems' s ! k)
               then (mAllRitems' s ! k)\<lparr>NumFramesDirty' := NumFramesDirty' (mAllRitems' s ! k) - 1\<rparr>
               else mAllRitems' s ! k)) \<and>
         (distinct (map ObjCBIndex' (mAllRitems' s)) \<longrightarrow>
            (\<forall>k<length (mAllRitems' s).
               ObjectCB' (mFrameResources' s' ! frame_slot' s) ! ObjCBIndex' (mAllRitems' s ! k) =
                 (if 0 < NumFramesDirty' (mAllRitems' s ! k)
                  then Some (ObjectConstants' (XMMatrixTranspose (World' (mAllRitems' s ! k))))
                  else ObjectCB' (mFrameResources' s ! frame_slot' s) ! ObjCBIndex' (mAllRitems' s ! k)))) \<and>
         PassCB' (mFrameResources' s' ! frame_slot' s) ! 0 = Some (passConstants inp) \<and>
         CmdListAllocResets' (mFrameResources' s' ! frame_slot' s) =
           CmdListAllocResets' (mFrameResources' s ! frame_slot' s) + 1 \<and>
         (\<forall>j. j \<noteq> frame_slot' s \<longrightarrow> mFrameResources' s' ! j = mFrameResources' s ! j) \<and>
         queuedSignals' s' \<noteq> [] \<and> last (queuedSignals' s') = mCurrentFence' s + 1 \<and>
         s' = frame_state' inp (fenceCompleted' s') (butlast (queuedSignals' s')) s"
proof -
  from Frame_Inr_D' [OF assms] obtain c q where
    ok: "frame_ok' inp s" and sy: "sync_result' (hrSetEventOnCompletion inp) s = Some (c, q)"
    and s': "s' = frame_state' inp c q s" by blast
  let ?i = "frame_slot' s"
  let ?fr = "mFrameResources' s ! ?i"
  from ok have sl: "?i < length (mFrameResources' s)"
    and orng: "\<forall>e\<in>set (mAllRitems' s). dirty' e \<longrightarrow> ObjCBIndex' e < length (ObjectCB' ?fr)"
    and prng: "0 < length (PassCB' ?fr)"
    by (simp_all add: frame_ok'_def)
  have c: "fenceCompleted' s' = c" by (simp add: s')
  have qs: "queuedSignals' s' = q @ [mCurrentFence' s + 1]" by (simp add: s')
  have 1: "trace' s' = trace' s @
           [EvRotate (frame_slot' s)] @ Synchronize_events' s @ Update_events' s c @
           Record_events' s c @
           [EvSubmit] @ [EvPresent] @ [EvStamp (frame_slot' s) (mCurrentFence' s + 1)]"
    by (simp add: s' frame_events'_def Rotate_events'_def Stamp_events'_def)
  have 2: "Synchronize_events' s = (if must_wait' s then [EvBlocked (frame_marker' s)] else [])"
    by (simp add: Synchronize_events'_def)
  have 3: "\<forall>m. EvBlocked m \<notin> set (Update_events' s c @ Record_events' s c)"
    by (auto simp: Update_events'_def Record_events'_def)
  have 4: "\<forall>e\<in>set (Update_events' s c).
            \<exists>a. e = EvCpuTouch (frame_slot' s) a (frame_marker' s) c \<and> a \<noteq> AllocatorReset"
    by (auto simp: Update_events'_def)
  have ix: "mCurrFrameResourceIndex' s' = (mCurrFrameResourceIndex' s + 1) smod gNumFrameResources"
    by (simp add: s')
  let ?draws = "map (\<lambda>r. EvSetDescriptorTable 0
                 (sint (cbvIndex (mCurrFrameResourceIndex' s') (length (mOpaqueRitems' s))
                          (ObjCBIndex' (mAllRitems' s ! r))))) (mOpaqueRitems' s)"
  have 5: "\<exists>draws. Record_events' s c =
            [EvCpuTouch (frame_slot' s) AllocatorReset (frame_marker' s) c,
             EvSetDescriptorTable 1
               (sint (mPassCbvOffset' s + word_of_int (mCurrFrameResourceIndex' s')))] @ draws \<and>
            length draws = length (mOpaqueRitems' s) \<and>
            (\<forall>e\<in>set draws. \<exists>k\<in>set (map ObjCBIndex' (mAllRitems' s)).
               e = EvSetDescriptorTable 0
                     (sint (cbvIndex (mCurrFrameResourceIndex' s') (length (mOpaqueRitems' s)) k)))"
  proof (intro exI conjI)
    show "Record_events' s c =
            [EvCpuTouch (frame_slot' s) AllocatorReset (frame_marker' s) c,
             EvSetDescriptorTable 1
               (sint (mPassCbvOffset' s + word_of_int (mCurrFrameResourceIndex' s')))] @ ?draws"
      by (simp add: Record_events'_def ix)
    show "length ?draws = length (mOpaqueRitems' s)" by simp
    show "\<forall>e\<in>set ?draws. \<exists>k\<in>set (map ObjCBIndex' (mAllRitems' s)).
               e = EvSetDescriptorTable 0
                     (sint (cbvIndex (mCurrFrameResourceIndex' s') (length (mOpaqueRitems' s)) k))"
      using ok by (auto simp: frame_ok'_def)
  qed
  have 6: "mCurrFrameResource' s' = Some (frame_slot' s)"
    "mCurrBackBuffer' s' = (mCurrBackBuffer' s + 1) smod SwapChainBufferCount' s"
    "mCurrentFence' s' = mCurrentFence' s + 1"
    by (simp_all add: s')
  have 7: "0 \<le> mCurrBackBuffer' s \<and> 0 < SwapChainBufferCount' s \<longrightarrow>
            mCurrBackBuffer' s' = (mCurrBackBuffer' s + 1) mod SwapChainBufferCount' s"
    unfolding 6(2) by (simp add: smod_nonneg)
  have 8: "Fence' (mFrameResources' s' ! frame_slot' s) = mCurrentFence' s + 1"
    unfolding s' by (rule frame_state_slot'(1) [OF sl])
  from sync_result_D' [OF sy] have 9: "frame_marker' s = 0 \<or> frame_marker' s \<le> c"
    and nw: "\<not> must_wait' s \<longrightarrow> c = fenceCompleted' s \<and> q = queuedSignals' s" by blast+
  from nw have 10: "\<not> must_wait' s \<longrightarrow>
      c = fenceCompleted' s \<and> queuedSignals' s' = queuedSignals' s @ [mCurrentFence' s + 1]"
    by (simp add: qs)
  have 11: "length (mAllRitems' s') = length (mAllRitems' s)" by (simp add: s')
  have 12: "\<forall>k<length (mAllRitems' s).
            mAllRitems' s' ! k =
              (if 0 < NumFramesDirty' (mAllRitems' s ! k)
               then (mAllRitems' s ! k)\<lparr>NumFramesDirty' := NumFramesDirty' (mAllRitems' s ! k) - 1\<rparr>
               else mAllRitems' s ! k)"
    by (simp add: s' decr'_def)
  have ocb: "ObjectCB' (mFrameResources' s' ! ?i) = apply_writes (obj_writes' (mAllRitems' s)) (ObjectCB' ?fr)"
    and pcb: "PassCB' (mFrameResources' s' ! ?i) = (PassCB' ?fr)[0 := Some (passConstants inp)]"
    and 17: "CmdListAllocResets' (mFrameResources' s' ! ?i) = CmdListAllocResets' ?fr + 1"
    unfolding s' by (rule frame_state_slot' [OF sl])+
  have 13: "ObjectCB' (mFrameResources' s' ! ?i) ! ObjCBIndex' (mAllRitems' s ! k) =
                 (if 0 < NumFramesDirty' (mAllRitems' s ! k)
                  then Some (ObjectConstants' (XMMatrixTranspose (World' (mAllRitems' s ! k))))
                  else ObjectCB' ?fr ! ObjCBIndex' (mAllRitems' s ! k))"
    if d: "distinct (map ObjCBIndex' (mAllRitems' s))" and k: "k < length (mAllRitems' s)" for k
  proof -
    let ?e = "mAllRitems' s ! k"
    from k have mem: "?e \<in> set (mAllRitems' s)" by simp
    show ?thesis
    proof (cases "dirty' ?e")
      case True
      with orng mem have "ObjCBIndex' ?e < length (ObjectCB' ?fr)" by blast
      from obj_writes_hit' [OF d mem True this] True show ?thesis
        by (simp add: ocb payload'_def dirty'_def)
    next
      case False
      from obj_writes_miss' [OF d mem False] False show ?thesis
        by (simp add: ocb dirty'_def)
    qed
  qed
  have 18: "PassCB' (mFrameResources' s' ! ?i) ! 0 = Some (passConstants inp)"
    using prng by (simp add: pcb)
  have 19: "\<forall>j. j \<noteq> ?i \<longrightarrow> mFrameResources' s' ! j = mFrameResources' s ! j"
    unfolding s' by (simp add: frame_state_other_slot')
  have 20: "queuedSignals' s' \<noteq> []" "last (queuedSignals' s') = mCurrentFence' s + 1"
    by (simp_all add: qs)
  have "butlast (queuedSignals' s') = q" by (simp add: qs)
  then have 21: "s' = frame_state' inp c (butlast (queuedSignals' s')) s"
    using s' by (simp only:)
  from 1 2 3 4 5 6 7 8 9 10 11 12 13 17 18 19 20 21 show ?thesis
    unfolding c by blast
qed

theorem frame_driver_ordering_witness':
  "Frame' demo_inp demo3' = Inr demo4' \<and>
   frame_slot' demo3' = 1 \<and> must_wait' demo3' \<and>
   Synchronize_events' demo3' = [EvBlocked 1] \<and>
   mCurrBackBuffer' demo3' = 1 \<and> mCurrBackBuffer' demo4' = 0 \<and>
   mCurrentFence' demo4' = 4 \<and> Fence' (mFrameResources' demo4' ! 1) = 4 \<and>
   trace' demo4' = trace' demo3' @
           [EvRotate 1] @ [EvBlocked 1] @ Update_events' demo3' 1 @ Record_events' demo3' 1 @
           [EvSubmit] @ [EvPresent] @ [EvStamp 1 4]"
proof -
  note t = frame_driver_ordering' [OF demo_Frame'(4)]
  have w: "must_wait' demo3'" by (simp add: must_wait'_def demo_marker' demo_gpu')
  then have sy: "Synchronize_events' demo3' = [EvBlocked 1]"
    by (simp add: Synchronize_events'_def demo_marker')
  have b: "mCurrBackBuffer' demo_app' = 0" "SwapChainBufferCount' demo_app' = 2"
    by (simp_all add: demo_app'_def Initialize_fields')
  have b3: "mCurrBackBuffer' demo3' = 1"
    by (simp add: demo3'_def demo2'_def demo1'_def b signed_modulo_int_def)
  have b4: "mCurrBackBuffer' demo4' = 0"
    by (simp add: demo4'_def b3) (simp add: demo3'_def demo2'_def demo1'_def b signed_modulo_int_def)
  have f: "Fence' (mFrameResources' demo4' ! 1) = 4"
    using t [THEN conjunct2, THEN conjunct2, THEN conjunct2, THEN conjunct2, THEN conjunct2,
        THEN conjunct2, THEN conjunct2, THEN conjunct2, THEN conjunct2, THEN conjunct1]
    unfolding demo_slot' demo_fence' by simp
  have tr: "trace' demo4' = trace' demo3' @
           [EvRotate 1] @ [EvBlocked 1] @ Update_events' demo3' 1 @ Record_events' demo3' 1 @
           [EvSubmit] @ [EvPresent] @ [EvStamp 1 4]"
    using t [THEN conjunct1] unfolding demo_slot' demo_fence' demo_gpu' sy by simp
  from demo_Frame'(4) demo_slot'(4) w sy b3 b4 demo_fence'(5) f tr show ?thesis by blast
qed

lemma caught_up_frame_state':
  assumes sc: "scene_ok' s" and k: "k < length (mAllRitems' s)" and cu: "caught_up' s k"
  shows "caught_up' (frame_state' inp c q s) k"
proof -
  let ?e = "mAllRitems' s ! k"
  let ?d = "NumFramesDirty' ?e"
  let ?oi = "ObjCBIndex' ?e"
  let ?s' = "frame_state' inp c q s"
  let ?cur = "frame_slot' s"
  from sc have i0: "0 \<le> mCurrFrameResourceIndex' s" and l: "length (mFrameResources' s) = 3"
    and dist: "distinct (map ObjCBIndex' (mAllRitems' s))"
    by (simp_all add: scene_ok'_def gNumFrameResources_def)
  from k have mem: "?e \<in> set (mAllRitems' s)" by simp
  have cur: "?cur < 3" using frame_slot_less' [OF i0] .
  then have curl: "?cur < length (mFrameResources' s)" using l by simp
  then have "mFrameResources' s ! ?cur \<in> set (mFrameResources' s)" by simp
  with sc mem have rng: "?oi < length (ObjectCB' (mFrameResources' s ! ?cur))"
    by (simp add: scene_ok'_def)
  have idx': "mCurrFrameResourceIndex' ?s' = (mCurrFrameResourceIndex' s + 1) mod 3"
    using i0 by (simp add: gNumFrameResources_def smod_3)
  have curi: "int ?cur = (mCurrFrameResourceIndex' s + 1) mod 3" by (rule frame_slot_eq' [OF i0])
  have e': "mAllRitems' ?s' ! k = decr' ?e" using k by simp
  have cb: "ObjectCB' (mFrameResources' ?s' ! ?cur) =
      apply_writes (obj_writes' (mAllRitems' s)) (ObjectCB' (mFrameResources' s ! ?cur))"
    by (rule frame_state_slot'(2) [OF curl])
  have goal: "ObjectCB' (mFrameResources' ?s' ! sl) ! ?oi = Some (payload' ?e) \<or>
      (\<exists>i\<ge>1. int i \<le> NumFramesDirty' (decr' ?e) \<and>
             int sl = (mCurrFrameResourceIndex' ?s' + int i) mod 3)"
    if sl: "sl < 3" for sl
  proof -
    from cu sl have old: "ObjectCB' (mFrameResources' s ! sl) ! ?oi = Some (payload' ?e) \<or>
        (\<exists>i\<ge>1. int i \<le> ?d \<and> int sl = (mCurrFrameResourceIndex' s + int i) mod 3)"
      by (simp add: caught_up'_def gNumFrameResources_def)
    show ?thesis
    proof (cases "sl = ?cur")
      case True
      show ?thesis
      proof (cases "dirty' ?e")
        case True
        from obj_writes_hit' [OF dist mem True rng] \<open>sl = ?cur\<close> cb show ?thesis by simp
      next
        case False
        then have "?d \<le> 0" by (simp add: dirty'_def)
        with old have "ObjectCB' (mFrameResources' s ! sl) ! ?oi = Some (payload' ?e)" by auto
        with obj_writes_miss' [OF dist mem False] \<open>sl = ?cur\<close> cb show ?thesis by simp
      qed
    next
      case False
      then have same: "mFrameResources' ?s' ! sl = mFrameResources' s ! sl"
        by (rule frame_state_other_slot')
      from old show ?thesis
      proof
        assume "ObjectCB' (mFrameResources' s ! sl) ! ?oi = Some (payload' ?e)"
        with same show ?thesis by simp
      next
        assume "\<exists>i\<ge>1. int i \<le> ?d \<and> int sl = (mCurrFrameResourceIndex' s + int i) mod 3"
        then obtain i where i: "1 \<le> i" "int i \<le> ?d"
          "int sl = (mCurrFrameResourceIndex' s + int i) mod 3" by blast
        have "i \<noteq> 1"
        proof
          assume "i = 1"
          with i(3) curi have "int sl = int ?cur" by simp
          with False show False by simp
        qed
        with i(1) have i2: "2 \<le> i" by simp
        then have a: "1 \<le> i - 1" by simp
        from i2 i(2) have b: "int (i - 1) \<le> NumFramesDirty' (decr' ?e)" by simp
        have "(mCurrFrameResourceIndex' ?s' + int (i - 1)) mod 3 =
            (mCurrFrameResourceIndex' s + int i) mod 3"
          unfolding idx' using i2 by (simp add: mod_simps of_nat_diff)
        with i(3) have "int sl = (mCurrFrameResourceIndex' ?s' + int (i - 1)) mod 3" by simp
        with a b show ?thesis by blast
      qed
    qed
  qed
  show ?thesis
    unfolding caught_up'_def e' using goal by (simp add: gNumFrameResources_def)
qed

lemma caught_up_GpuExecute': "caught_up' (GpuExecute' s) k = caught_up' s k"
  by (simp add: caught_up'_def)

lemma caught_up_start':
  assumes "0 \<le> mCurrFrameResourceIndex' s" "NumFramesDirty' (mAllRitems' s ! k) = gNumFrameResources"
  shows "caught_up' s k"
proof -
  have "\<exists>i\<ge>1. int i \<le> 3 \<and> int sl = (mCurrFrameResourceIndex' s + int i) mod 3"
    if "sl < 3" for sl :: nat
  proof -
    let ?j = "(int sl - mCurrFrameResourceIndex' s - 1) mod 3"
    have j: "0 \<le> ?j" "?j < 3" by simp_all
    let ?i = "nat ?j + 1"
    have "int ?i = ?j + 1" using j by simp
    then have "(mCurrFrameResourceIndex' s + int ?i) mod 3 =
        (mCurrFrameResourceIndex' s + ((int sl - mCurrFrameResourceIndex' s - 1) mod 3 + 1)) mod 3"
      by (simp add: add.commute)
    also have "\<dots> = int sl mod 3"
      by presburger
    also have "\<dots> = int sl" using that by simp
    finally have "int sl = (mCurrFrameResourceIndex' s + int ?i) mod 3" by simp
    moreover have "1 \<le> ?i" "int ?i \<le> 3" using j by simp_all
    ultimately show ?thesis by blast
  qed
  with assms(2) show ?thesis by (simp add: caught_up'_def gNumFrameResources_def)
qed

lemma caught_up_end':
  assumes "caught_up' s k" "NumFramesDirty' (mAllRitems' s ! k) \<le> 0"
  shows "\<forall>sl<3. ObjectCB' (mFrameResources' s ! sl) ! ObjCBIndex' (mAllRitems' s ! k) =
                Some (payload' (mAllRitems' s ! k))"
  using assms unfolding caught_up'_def by fastforce

lemma run_item':
  assumes "run' acts s = Inr s'" "k < length (mAllRitems' s)"
  shows "length (mAllRitems' s') = length (mAllRitems' s) \<and>
         World' (mAllRitems' s' ! k) = World' (mAllRitems' s ! k) \<and>
         ObjCBIndex' (mAllRitems' s' ! k) = ObjCBIndex' (mAllRitems' s ! k) \<and>
         NumFramesDirty' (mAllRitems' s' ! k) =
           (if 0 < NumFramesDirty' (mAllRitems' s ! k)
            then max 0 (NumFramesDirty' (mAllRitems' s ! k) - int (frames acts))
            else NumFramesDirty' (mAllRitems' s ! k))"
  using assms
proof (induction acts arbitrary: s)
  case Nil
  then show ?case by simp
next
  case (Cons a acts)
  show ?case
  proof (cases a)
    case Gpu
    with Cons.prems have "run' acts (GpuExecute' s) = Inr s'" by simp
    from Cons.IH [OF this] Cons.prems(2) Gpu show ?thesis by simp
  next
    case (Cpu inp)
    with Cons.prems obtain s1 where F: "Frame' inp s = Inr s1" and r: "run' acts s1 = Inr s'"
      by (auto split: sum.splits)
    from Frame_Inr_D' [OF F] obtain c q where s1: "s1 = frame_state' inp c q s" by blast
    have k1: "k < length (mAllRitems' s1)" using Cons.prems(2) by (simp add: s1)
    have it: "mAllRitems' s1 ! k = decr' (mAllRitems' s ! k)" using Cons.prems(2) by (simp add: s1)
    from Cons.IH [OF r k1] show ?thesis
      unfolding it Cpu by (auto simp: s1)
  qed
qed

lemma obj_write_count_frame':
  assumes "distinct (map ObjCBIndex' (mAllRitems' s))" "k < length (mAllRitems' s)"
  shows "length (filter (is_obj_write (ObjCBIndex' (mAllRitems' s ! k))) (frame_events' s c)) =
         (if 0 < NumFramesDirty' (mAllRitems' s ! k) then 1 else 0)"
proof -
  let ?e = "mAllRitems' s ! k"
  from assms(2) have mem: "?e \<in> set (mAllRitems' s)" by simp
  have "filter (\<lambda>x. dirty' x \<and> ObjCBIndex' x = ObjCBIndex' ?e) (mAllRitems' s) =
      filter dirty' (filter (\<lambda>e. ObjCBIndex' e = ObjCBIndex' ?e) (mAllRitems' s))"
    by (simp add: conj_commute)
  also have "\<dots> = filter dirty' [?e]"
    by (simp only: filter_same_key [OF assms(1) mem])
  finally have f: "filter (\<lambda>x. dirty' x \<and> ObjCBIndex' x = ObjCBIndex' ?e) (mAllRitems' s) =
      (if 0 < NumFramesDirty' ?e then [?e] else [])"
    by (simp add: dirty'_def)
  show ?thesis
    by (simp add: frame_events'_def Rotate_events'_def Synchronize_events'_def Update_events'_def
        Record_events'_def Stamp_events'_def filter_is_obj_write_map f)
qed

lemma run_obj_write_count':
  assumes "run' acts s = Inr s'" "distinct (map ObjCBIndex' (mAllRitems' s))"
    "k < length (mAllRitems' s)"
  shows "\<exists>new. trace' s' = trace' s @ new \<and>
     length (filter (is_obj_write (ObjCBIndex' (mAllRitems' s ! k))) new) =
       min (nat (NumFramesDirty' (mAllRitems' s ! k))) (frames acts)"
  using assms
proof (induction acts arbitrary: s)
  case Nil
  then show ?case by simp
next
  case (Cons a acts)
  show ?case
  proof (cases a)
    case Gpu
    with Cons.prems have "run' acts (GpuExecute' s) = Inr s'" by simp
    from Cons.IH [OF this] Cons.prems(2,3) Gpu show ?thesis by simp
  next
    case (Cpu inp)
    with Cons.prems obtain s1 where F: "Frame' inp s = Inr s1" and r: "run' acts s1 = Inr s'"
      by (auto split: sum.splits)
    from Frame_Inr_D' [OF F] obtain c q where s1: "s1 = frame_state' inp c q s" by blast
    have k1: "k < length (mAllRitems' s1)" using Cons.prems(3) by (simp add: s1)
    have d1: "distinct (map ObjCBIndex' (mAllRitems' s1))"
      using Cons.prems(2) by (simp add: s1 del: map_map)
    have it: "mAllRitems' s1 ! k = decr' (mAllRitems' s ! k)" using Cons.prems(3) by (simp add: s1)
    from Cons.IH [OF r d1 k1] obtain new where
      n: "trace' s' = trace' s1 @ new"
      "length (filter (is_obj_write (ObjCBIndex' (mAllRitems' s ! k))) new) =
         min (nat (NumFramesDirty' (decr' (mAllRitems' s ! k)))) (frames acts)"
      unfolding it by auto
    from n(1) have t: "trace' s' = trace' s @ (frame_events' s c @ new)" by (simp add: s1)
    have "length (filter (is_obj_write (ObjCBIndex' (mAllRitems' s ! k))) (frame_events' s c @ new)) =
        min (nat (NumFramesDirty' (mAllRitems' s ! k))) (frames (a # acts))"
      using obj_write_count_frame' [OF Cons.prems(2,3), of c] n(2) Cpu by auto
    with t show ?thesis by blast
  qed
qed

lemma run_caught_up':
  assumes "run' acts s = Inr s'" "scene_ok' s" "k < length (mAllRitems' s)" "caught_up' s k"
  shows "caught_up' s' k"
proof -
  have "scene_ok' s' \<and> k < length (mAllRitems' s') \<and> caught_up' s' k"
    using assms(1)
  proof (rule run_invariant')
    show "scene_ok' s \<and> k < length (mAllRitems' s) \<and> caught_up' s k" using assms by simp
  qed (simp_all add: scene_ok_GpuExecute' scene_ok_frame_state' caught_up_GpuExecute'
      caught_up_frame_state')
  then show ?thesis by simp
qed

text \<open>
  Convergence in ShapesApp: an item whose countdown is 3 and whose transform does not
  change is written once in each of the next three frames, its countdown is then 0, and
  all three slots hold its transposed world matrix.
\<close>

theorem dirty_countdown_convergence':
  assumes "scene_ok' s" and "k < length (mAllRitems' s)"
    and "NumFramesDirty' (mAllRitems' s ! k) = gNumFrameResources"
    and "run' acts s = Inr s'"
  shows "NumFramesDirty' (mAllRitems' s' ! k) = max 0 (gNumFrameResources - int (frames acts)) \<and>
    World' (mAllRitems' s' ! k) = World' (mAllRitems' s ! k) \<and>
    ObjCBIndex' (mAllRitems' s' ! k) = ObjCBIndex' (mAllRitems' s ! k) \<and>
    (\<exists>new. trace' s' = trace' s @ new \<and>
       length (filter (is_obj_write (ObjCBIndex' (mAllRitems' s ! k))) new) = min 3 (frames acts)) \<and>
    (3 \<le> frames acts \<longrightarrow>
       (\<forall>sl<3. ObjectCB' (mFrameResources' s' ! sl) ! ObjCBIndex' (mAllRitems' s ! k) =
          Some (ObjectConstants' (XMMatrixTranspose (World' (mAllRitems' s ! k))))))"
proof -
  note it = run_item' [OF assms(4,2)]
  from it assms(3) have 1:
    "NumFramesDirty' (mAllRitems' s' ! k) = max 0 (gNumFrameResources - int (frames acts))"
    by (simp add: gNumFrameResources_def)
  from assms(1) have d: "distinct (map ObjCBIndex' (mAllRitems' s))"
    and i0: "0 \<le> mCurrFrameResourceIndex' s" by (simp_all add: scene_ok'_def)
  from run_obj_write_count' [OF assms(4) d assms(2)] assms(3) have 2:
    "\<exists>new. trace' s' = trace' s @ new \<and>
       length (filter (is_obj_write (ObjCBIndex' (mAllRitems' s ! k))) new) = min 3 (frames acts)"
    by (simp add: gNumFrameResources_def)
  have cu: "caught_up' s' k"
    by (rule run_caught_up' [OF assms(4,1,2) caught_up_start' [OF i0 assms(3)]])
  have 3: "\<forall>sl<3. ObjectCB' (mFrameResources' s' ! sl) ! ObjCBIndex' (mAllRitems' s ! k) =
          Some (ObjectConstants' (XMMatrixTranspose (World' (mAllRitems' s ! k))))"
    if "3 \<le> frames acts"
  proof -
    from 1 that have "NumFramesDirty' (mAllRitems' s' ! k) \<le> 0"
      by (simp add: gNumFrameResources_def)
    from caught_up_end' [OF cu this] it show ?thesis by (simp add: payload'_def)
  qed
  from it 1 2 3 show ?thesis by blast
qed

theorem dirty_countdown_convergence_witness':
  "scene_ok' demo_app' \<and> 0 < length (mAllRitems' demo_app') \<and>
   NumFramesDirty' (mAllRitems' demo_app' ! 0) = gNumFrameResources \<and>
   run' [Cpu demo_inp, Cpu demo_inp, Cpu demo_inp, Cpu demo_inp] demo_app' = Inr demo4' \<and>
   NumFramesDirty' (mAllRitems' demo4' ! 0) = 0 \<and>
   ObjectCB' (mFrameResources' demo4' ! 0) ! 0 =
     Some (ObjectConstants' (XMFLOAT4X4 1 0 0 0  0 1 0 2  0 0 1 3  0 0 0 1)) \<and>
   ObjectCB' (mFrameResources' demo4' ! 1) ! 0 =
     Some (ObjectConstants' (XMFLOAT4X4 1 0 0 0  0 1 0 2  0 0 1 3  0 0 0 1)) \<and>
   ObjectCB' (mFrameResources' demo4' ! 2) ! 0 =
     Some (ObjectConstants' (XMFLOAT4X4 1 0 0 0  0 1 0 2  0 0 1 3  0 0 0 1))"
proof -
  have l: "0 < length (mAllRitems' demo_app')" by (simp add: demo_app'_def Initialize_fields')
  then have mem: "mAllRitems' demo_app' ! 0 \<in> set (mAllRitems' demo_app')" by (rule nth_mem)
  have n: "NumFramesDirty' (mAllRitems' demo_app' ! 0) = gNumFrameResources"
    using Initialize_NumFramesDirty' [of 0 2 demo_I demo_W] mem
    unfolding demo_app'_def by blast
  have "map ObjCBIndex' (mAllRitems' demo_app') ! 0 = 0"
    unfolding demo_app'_def Initialize_ObjCBIndex' by simp
  then have oi: "ObjCBIndex' (mAllRitems' demo_app' ! 0) = 0" using l by simp
  have wt: "World' (mAllRitems' demo_app' ! 0) = demo_W 0"
    by (simp add: demo_app'_def Initialize'_def BuildFrameResources'_def BuildRenderItems'_def
        BuildDescriptorHeaps'_def ShapesApp_new_def Let_def ritem'_def RenderItem_default'_def)
  note t = dirty_countdown_convergence' [OF scene_ok_demo'(1) l n demo_run'(5)]
  have c: "NumFramesDirty' (mAllRitems' demo4' ! 0) = 0"
    using t by (simp add: gNumFrameResources_def)
  have "\<forall>sl<3. ObjectCB' (mFrameResources' demo4' ! sl) ! 0 =
     Some (ObjectConstants' (XMFLOAT4X4 1 0 0 0  0 1 0 2  0 0 1 3  0 0 0 1))"
    using t unfolding oi wt by (simp add: demo_W_def demo_I_def)
  then have b: "ObjectCB' (mFrameResources' demo4' ! 0) ! 0 =
       Some (ObjectConstants' (XMFLOAT4X4 1 0 0 0  0 1 0 2  0 0 1 3  0 0 0 1))"
    "ObjectCB' (mFrameResources' demo4' ! 1) ! 0 =
       Some (ObjectConstants' (XMFLOAT4X4 1 0 0 0  0 1 0 2  0 0 1 3  0 0 0 1))"
    "ObjectCB' (mFrameResources' demo4' ! 2) ! 0 =
       Some (ObjectConstants' (XMFLOAT4X4 1 0 0 0  0 1 0 2  0 0 1 3  0 0 0 1))"
    by simp_all
  from scene_ok_demo'(1) l n demo_run'(5) c b show ?thesis by blast
qed

lemma SetWorld_simps' [simp]:
  "mFrameResources' (SetWorld' k W s) = mFrameResources' s"
  "mCurrFrameResourceIndex' (SetWorld' k W s) = mCurrFrameResourceIndex' s"
  "mOpaqueRitems' (SetWorld' k W s) = mOpaqueRitems' s"
  "mCurrentFence' (SetWorld' k W s) = mCurrentFence' s"
  "fenceCompleted' (SetWorld' k W s) = fenceCompleted' s"
  "queuedSignals' (SetWorld' k W s) = queuedSignals' s"
  "SwapChainBufferCount' (SetWorld' k W s) = SwapChainBufferCount' s"
  "length (mAllRitems' (SetWorld' k W s)) = length (mAllRitems' s)"
  by (simp_all add: SetWorld'_def)

lemma SetWorld_item':
  assumes "k < length (mAllRitems' s)"
  shows "mAllRitems' (SetWorld' k W s) ! k =
           (mAllRitems' s ! k)\<lparr>World' := W, NumFramesDirty' := gNumFrameResources\<rparr>"
  using assms by (simp add: SetWorld'_def)

lemma SetWorld_ObjCBIndex': "map ObjCBIndex' (mAllRitems' (SetWorld' k W s)) = map ObjCBIndex' (mAllRitems' s)"
proof (cases "k < length (mAllRitems' s)")
  case True
  then show ?thesis by (auto simp: SetWorld'_def nth_list_update intro!: nth_equalityI)
next
  case False
  then have "length (mAllRitems' s) \<le> k" by simp
  then show ?thesis unfolding SetWorld'_def by (simp add: list_update_beyond)
qed

lemma scene_ok_SetWorld':
  assumes "scene_ok' s"
  shows "scene_ok' (SetWorld' k W s)"
proof -
  have o: "\<forall>e\<in>set (mAllRitems' (SetWorld' k W s)). ObjCBIndex' e < length (mAllRitems' s)"
  proof
    fix e assume "e \<in> set (mAllRitems' (SetWorld' k W s))"
    then have "ObjCBIndex' e \<in> set (map ObjCBIndex' (mAllRitems' (SetWorld' k W s)))" by simp
    then have "ObjCBIndex' e \<in> set (map ObjCBIndex' (mAllRitems' s))"
      unfolding SetWorld_ObjCBIndex' .
    with assms show "ObjCBIndex' e < length (mAllRitems' s)" by (auto simp: scene_ok'_def)
  qed
  from assms o show ?thesis
    unfolding scene_ok'_def SetWorld_ObjCBIndex' by simp
qed

lemma fence_ok_SetWorld': "fence_ok' (SetWorld' k W s) = fence_ok' s"
  by (simp add: fence_ok'_def)

text \<open>
  A change of the transform of an item of ShapesApp whose countdown is between 0 and 3
  sets the countdown to exactly 3, and three frames later all three slots hold the
  newest transform.
\<close>

theorem dirty_superseding':
  assumes "scene_ok' s" and "k < length (mAllRitems' s)"
    and "0 < NumFramesDirty' (mAllRitems' s ! k)"
    and "NumFramesDirty' (mAllRitems' s ! k) < gNumFrameResources"
    and "run' acts (SetWorld' k W s) = Inr s'"
  shows "NumFramesDirty' (mAllRitems' (SetWorld' k W s) ! k) = gNumFrameResources \<and>
    NumFramesDirty' (mAllRitems' (SetWorld' k W s) ! k) \<noteq>
      NumFramesDirty' (mAllRitems' s ! k) + gNumFrameResources \<and>
    World' (mAllRitems' (SetWorld' k W s) ! k) = W \<and>
    NumFramesDirty' (mAllRitems' s' ! k) = max 0 (gNumFrameResources - int (frames acts)) \<and>
    (\<exists>new. trace' s' = trace' s @ new \<and>
       length (filter (is_obj_write (ObjCBIndex' (mAllRitems' s ! k))) new) = min 3 (frames acts)) \<and>
    (3 \<le> frames acts \<longrightarrow>
       (\<forall>sl<3. ObjectCB' (mFrameResources' s' ! sl) ! ObjCBIndex' (mAllRitems' s ! k) =
          Some (ObjectConstants' (XMMatrixTranspose W))))"
proof -
  let ?t = "SetWorld' k W s"
  have kt: "k < length (mAllRitems' ?t)" using assms(2) by simp
  note e = SetWorld_item' [OF assms(2), of W]
  have n: "NumFramesDirty' (mAllRitems' ?t ! k) = gNumFrameResources" by (simp add: e)
  have 1: "NumFramesDirty' (mAllRitems' ?t ! k) \<noteq> NumFramesDirty' (mAllRitems' s ! k) + gNumFrameResources"
    using assms(3) by (simp add: e)
  have 2: "World' (mAllRitems' ?t ! k) = W" by (simp add: e)
  have oi: "ObjCBIndex' (mAllRitems' ?t ! k) = ObjCBIndex' (mAllRitems' s ! k)" by (simp add: e)
  have sc: "scene_ok' ?t" by (rule scene_ok_SetWorld' [OF assms(1)])
  then have d: "distinct (map ObjCBIndex' (mAllRitems' ?t))"
    and i0: "0 \<le> mCurrFrameResourceIndex' ?t" by (simp_all add: scene_ok'_def)
  note it = run_item' [OF assms(5) kt]
  from it n have 3:
    "NumFramesDirty' (mAllRitems' s' ! k) = max 0 (gNumFrameResources - int (frames acts))"
    by (simp add: gNumFrameResources_def)
  have tr: "trace' ?t = trace' s" by (simp add: SetWorld'_def)
  from run_obj_write_count' [OF assms(5) d kt] n have 4:
    "\<exists>new. trace' s' = trace' s @ new \<and>
       length (filter (is_obj_write (ObjCBIndex' (mAllRitems' s ! k))) new) = min 3 (frames acts)"
    unfolding oi tr by (simp add: gNumFrameResources_def)
  have cu: "caught_up' s' k"
    by (rule run_caught_up' [OF assms(5) sc kt caught_up_start' [OF i0 n]])
  have 5: "\<forall>sl<3. ObjectCB' (mFrameResources' s' ! sl) ! ObjCBIndex' (mAllRitems' s ! k) =
          Some (ObjectConstants' (XMMatrixTranspose W))"
    if "3 \<le> frames acts"
  proof -
    from 3 that have "NumFramesDirty' (mAllRitems' s' ! k) \<le> 0"
      by (simp add: gNumFrameResources_def)
    from caught_up_end' [OF cu this] it show ?thesis by (simp add: payload'_def oi 2)
  qed
  from n 1 2 3 4 5 show ?thesis by blast
qed

theorem dirty_superseding_witness':
  "\<exists>s'. scene_ok' demo1' \<and> 0 < length (mAllRitems' demo1') \<and>
     NumFramesDirty' (mAllRitems' demo1' ! 0) = 2 \<and>
     run' [Cpu demo_inp, Cpu demo_inp, Cpu demo_inp] (SetWorld' 0 (demo_W 5) demo1') = Inr s' \<and>
     NumFramesDirty' (mAllRitems' (SetWorld' 0 (demo_W 5) demo1') ! 0) = 3 \<and>
     NumFramesDirty' (mAllRitems' s' ! 0) = 0 \<and>
     ObjectCB' (mFrameResources' s' ! 0) ! 0 =
       Some (ObjectConstants' (XMFLOAT4X4 1 0 0 5  0 1 0 2  0 0 1 3  0 0 0 1)) \<and>
     ObjectCB' (mFrameResources' s' ! 1) ! 0 =
       Some (ObjectConstants' (XMFLOAT4X4 1 0 0 5  0 1 0 2  0 0 1 3  0 0 0 1)) \<and>
     ObjectCB' (mFrameResources' s' ! 2) ! 0 =
       Some (ObjectConstants' (XMFLOAT4X4 1 0 0 5  0 1 0 2  0 0 1 3  0 0 0 1))"
proof -
  have l0: "0 < length (mAllRitems' demo_app')" by (simp add: demo_app'_def Initialize_fields')
  then have mem: "mAllRitems' demo_app' ! 0 \<in> set (mAllRitems' demo_app')" by (rule nth_mem)
  have n0: "NumFramesDirty' (mAllRitems' demo_app' ! 0) = 3"
    using Initialize_NumFramesDirty' [of 0 2 demo_I demo_W] mem
    unfolding demo_app'_def gNumFrameResources_def by blast
  have "map ObjCBIndex' (mAllRitems' demo_app') ! 0 = 0"
    unfolding demo_app'_def Initialize_ObjCBIndex' by simp
  then have oi0: "ObjCBIndex' (mAllRitems' demo_app' ! 0) = 0" using l0 by simp
  have l: "0 < length (mAllRitems' demo1')" using l0 by (simp add: demo1'_def)
  have n: "NumFramesDirty' (mAllRitems' demo1' ! 0) = 2" using l0 n0 by (simp add: demo1'_def)
  have oi: "ObjCBIndex' (mAllRitems' demo1' ! 0) = 0" using l0 oi0 by (simp add: demo1'_def)
  have "fence_ok' demo_app'" unfolding demo_app'_def by (rule fence_ok_Initialize')
  from run_fence_ok' [OF demo_run'(2) this] have f1: "fence_ok' demo1'"
    by (simp add: demo_fence')
  have "\<exists>s'. run' [Cpu demo_inp, Cpu demo_inp, Cpu demo_inp] (SetWorld' 0 (demo_W 5) demo1') = Inr s'"
    by (rule run_completes')
      (simp_all add: scene_ok_SetWorld' scene_ok_demo' fence_ok_SetWorld' f1 demo_fence'
        demo_swap_chain')
  then obtain s' where r:
    "run' [Cpu demo_inp, Cpu demo_inp, Cpu demo_inp] (SetWorld' 0 (demo_W 5) demo1') = Inr s'" ..
  have a: "0 < NumFramesDirty' (mAllRitems' demo1' ! 0)"
    "NumFramesDirty' (mAllRitems' demo1' ! 0) < gNumFrameResources"
    by (simp_all add: n gNumFrameResources_def)
  note t = dirty_superseding' [OF scene_ok_demo'(2) l a r]
  have c0: "NumFramesDirty' (mAllRitems' (SetWorld' 0 (demo_W 5) demo1') ! 0) = 3"
    using t by (simp add: gNumFrameResources_def)
  have c: "NumFramesDirty' (mAllRitems' s' ! 0) = 0"
    using t by (simp add: gNumFrameResources_def)
  have "\<forall>sl<3. ObjectCB' (mFrameResources' s' ! sl) ! 0 =
     Some (ObjectConstants' (XMFLOAT4X4 1 0 0 5  0 1 0 2  0 0 1 3  0 0 0 1))"
    using t unfolding oi by (simp add: demo_W_def demo_I_def)
  then have b: "ObjectCB' (mFrameResources' s' ! 0) ! 0 =
       Some (ObjectConstants' (XMFLOAT4X4 1 0 0 5  0 1 0 2  0 0 1 3  0 0 0 1))"
    "ObjectCB' (mFrameResources' s' ! 1) ! 0 =
       Some (ObjectConstants' (XMFLOAT4X4 1 0 0 5  0 1 0 2  0 0 1 3  0 0 0 1))"
    "ObjectCB' (mFrameResources' s' ! 2) ! 0 =
       Some (ObjectConstants' (XMFLOAT4X4 1 0 0 5  0 1 0 2  0 0 1 3  0 0 0 1))"
    by simp_all
  from scene_ok_demo'(2) l n r c0 c b show ?thesis by blast
qed
end
